(* ===== verification/Prelude.thy ===== *)
theory Prelude
  imports Main "HOL-Library.Word"
begin

text \<open>
  What every component of the model shares: Go's \<open>int64\<close> as a 64-bit word read in two's
  complement, results that are an error or a value, nil-able pointers, instants of time,
  decimal digits, and the lemmas about them that the component proofs use.
\<close>

section \<open>Collections of facts\<close>

named_theorems go_simps \<open>definitions the component proofs unfold\<close>
named_theorems ok_iff \<open>when a fallible operation succeeds\<close>

section \<open>Machine integers\<close>

type_synonym int64 = "64 word"
type_synonym uint64 = "64 word"

definition max_int64 :: int64 where
  "max_int64 = 9223372036854775807"

definition min_int64 :: int64 where
  "min_int64 = 9223372036854775808"

lemma sint_max_int64 [simp]: "sint max_int64 = 2 ^ 63 - 1"
  by (simp add: max_int64_def)

lemma sint_min_int64 [simp]: "sint min_int64 = - (2 ^ 63)"
  by (simp add: min_int64_def)

lemma sint64_lower: "- (2 ^ 63) \<le> sint (x :: int64)"
  using sint_greater_eq [of x] by simp

lemma sint64_upper: "sint (x :: int64) < 2 ^ 63"
  using sint_less [of x] by simp

lemma sint64_of_int:
  "- (2 ^ 63) \<le> i \<Longrightarrow> i < 2 ^ 63 \<Longrightarrow> sint (word_of_int i :: int64) = i"
  by (simp add: sint_sbintrunc' signed_take_bit_int_eq_self)

lemma sint64_of_nat: "n < 2 ^ 63 \<Longrightarrow> sint (word_of_nat n :: int64) = int n"
  using sint64_of_int [of "int n"] by simp

lemma unat64_nonneg: "0 \<le> sint u \<Longrightarrow> unat (u :: int64) = nat (sint u)"
proof -
  assume "0 \<le> sint u"
  then have "take_bit 64 (sint u) = sint u"
    using sint64_upper [of u] by (simp add: take_bit_int_eq_self)
  then show ?thesis by (simp add: unat_eq_nat_uint uint_sint)
qed

lemma sint64_add:
  assumes "- (2 ^ 63) \<le> sint a + sint b" and "sint a + sint b < 2 ^ 63"
  shows "sint (a + b :: int64) = sint a + sint b"
proof -
  have "a + b = word_of_int (sint a + sint b)" by (simp add: wi_hom_syms)
  then show ?thesis using sint64_of_int [OF assms] by simp
qed

lemma sint64_sub:
  assumes "- (2 ^ 63) \<le> sint a - sint b" and "sint a - sint b < 2 ^ 63"
  shows "sint (a - b :: int64) = sint a - sint b"
proof -
  have "a - b = word_of_int (sint a - sint b)" by (simp add: wi_hom_syms)
  then show ?thesis using sint64_of_int [OF assms] by simp
qed

lemma sint64_neg:
  assumes "sint a \<noteq> - (2 ^ 63)"
  shows "sint (- a :: int64) = - sint a"
proof -
  have "- a = word_of_int (- sint a)" by (simp add: wi_hom_syms)
  moreover have "- (2 ^ 63) \<le> - sint a" "- sint a < 2 ^ 63"
    using sint64_lower [of a] sint64_upper [of a] assms by linarith+
  ultimately show ?thesis by (metis sint64_of_int)
qed

lemma sint64_eq_iff: "a = b \<longleftrightarrow> sint a = sint (b :: int64)"
  by (auto intro: signed_word_eqI)

text \<open>Go's \<open>/\<close> on integers truncates towards zero.\<close>

definition go_quot :: "int \<Rightarrow> int \<Rightarrow> int" where
  "go_quot a b = sgn a * sgn b * (\<bar>a\<bar> div \<bar>b\<bar>)"

definition int64_div :: "int64 \<Rightarrow> int64 \<Rightarrow> int64" where
  "int64_div a b = word_of_int (go_quot (sint a) (sint b))"

lemma go_quot_nonneg [simp]: "0 \<le> a \<Longrightarrow> 0 < b \<Longrightarrow> go_quot a b = a div b"
  by (cases "a = 0") (simp_all add: go_quot_def)

lemma sgn_int_le_0 [simp]: "sgn (x :: int) \<le> 0 \<longleftrightarrow> x \<le> 0"
  by (auto simp: sgn_if)

lemma sgn_int_less_0 [simp]: "sgn (x :: int) < 0 \<longleftrightarrow> x < 0"
  by (auto simp: sgn_if)

lemma sgn_int_gr_0 [simp]: "0 < sgn (x :: int) \<longleftrightarrow> 0 < x"
  by (auto simp: sgn_if)

lemma sgn_int_eq_0 [simp]: "sgn (x :: int) = 0 \<longleftrightarrow> x = 0"
  by (auto simp: sgn_if)

section \<open>Results\<close>

text \<open>
  A Go function that returns \<open>(value, error)\<close> is a function into \<open>'e + 'a\<close>: \<open>Inl\<close> is a
  non-nil error, \<open>Inr\<close> a value with a nil error. \<open>bindE m k\<close> is the idiom
  \<open>if err != nil { return err }\<close>.
\<close>

definition bindE :: "'e + 'a \<Rightarrow> ('a \<Rightarrow> 'e + 'b) \<Rightarrow> 'e + 'b" where
  "bindE m k = (case m of Inl e \<Rightarrow> Inl e | Inr x \<Rightarrow> k x)"

definition map_err :: "('e \<Rightarrow> 'f) \<Rightarrow> 'e + 'a \<Rightarrow> 'f + 'a" where
  "map_err f m = (case m of Inl e \<Rightarrow> Inl (f e) | Inr x \<Rightarrow> Inr x)"

definition requireE :: "bool \<Rightarrow> 'e \<Rightarrow> 'e + unit" where
  "requireE b e = (if b then Inr () else Inl e)"

definition is_ok :: "'e + 'a \<Rightarrow> bool" where
  "is_ok m = (case m of Inl _ \<Rightarrow> False | Inr _ \<Rightarrow> True)"

lemma bindE_simps [simp]:
  "bindE (Inl e) k = Inl e"
  "bindE (Inr x) k = k x"
  by (simp_all add: bindE_def)

lemma map_err_simps [simp]:
  "map_err f (Inl e) = Inl (f e)"
  "map_err f (Inr x) = Inr x"
  by (simp_all add: map_err_def)

lemma requireE_simps [simp]:
  "requireE True e = Inr ()"
  "requireE False e = Inl e"
  by (simp_all add: requireE_def)

lemma is_ok_simps [simp]: "is_ok (Inl e) = False" "is_ok (Inr x) = True"
  by (simp_all add: is_ok_def)

lemma bindE_ok [ok_iff]: "bindE m k = Inr y \<longleftrightarrow> (\<exists>x. m = Inr x \<and> k x = Inr y)"
  by (cases m) auto

lemma map_err_ok [ok_iff]: "map_err f m = Inr y \<longleftrightarrow> m = Inr y"
  by (cases m) auto

lemma requireE_ok [ok_iff]: "requireE b e = Inr u \<longleftrightarrow> b"
  by (cases b) auto

lemma is_ok_iff: "is_ok m \<longleftrightarrow> (\<exists>x. m = Inr x)"
  by (cases m) auto

lemma bindE_cong [fundef_cong]:
  "m = m' \<Longrightarrow> (\<And>x. m' = Inr x \<Longrightarrow> k x = k' x) \<Longrightarrow> bindE m k = bindE m' k'"
  by (cases m') auto

section \<open>Pointers\<close>

text \<open>A pointer that a function compares with \<open>nil\<close> is an option.\<close>

type_synonym 'a ptr = "'a option"

text \<open>A getter with a nil check: Go's zero value \<open>z\<close> for nil, the field otherwise.\<close>

definition deref :: "'b \<Rightarrow> ('a \<Rightarrow> 'b) \<Rightarrow> 'a ptr \<Rightarrow> 'b" where
  "deref z f p = (case p of None \<Rightarrow> z | Some x \<Rightarrow> f x)"

lemma deref_simps [simp]:
  "deref z f None = z"
  "deref z f (Some x) = f x"
  by (simp_all add: deref_def)

section \<open>Time\<close>

text \<open>
  \<open>time.Time\<close>: an instant, in nanoseconds since the zero time (January 1 of year 1, UTC), and the
  location it is shown in. \<open>IsZero\<close> and the comparisons look at the instant only, \<open>UTC\<close> changes
  the location only, and \<open>Add\<close> moves the instant by a \<open>time.Duration\<close> (an \<open>int64\<close> of nanoseconds).
\<close>

record gotime =
  instant :: int
  location :: string

definition zero_time :: gotime where
  "zero_time = \<lparr>instant = 0, location = ''UTC''\<rparr>"

definition is_zero_time :: "gotime \<Rightarrow> bool" where
  "is_zero_time t \<longleftrightarrow> instant t = 0"

definition utc :: "gotime \<Rightarrow> gotime" where
  "utc t = t\<lparr>location := ''UTC''\<rparr>"

definition time_add :: "gotime \<Rightarrow> int64 \<Rightarrow> gotime" where
  "time_add t d = t\<lparr>instant := instant t + sint d\<rparr>"

lemma is_zero_utc [simp]: "is_zero_time (utc t) = is_zero_time t"
  by (simp add: is_zero_time_def utc_def)

lemma utc_idem [simp]: "utc (utc t) = utc t"
  by (simp add: utc_def)

lemma location_utc [simp]: "location (utc t) = ''UTC''"
  by (simp add: utc_def)

lemma instant_utc [simp]: "instant (utc t) = instant t"
  by (simp add: utc_def)

section \<open>Lists read as tables\<close>

lemma find_Some_set: "List.find P xs = Some x \<Longrightarrow> x \<in> set xs \<and> P x"
  by (induction xs) (auto split: if_splits)

lemma find_None_set: "List.find P xs = None \<longleftrightarrow> (\<forall>x \<in> set xs. \<not> P x)"
  by (induction xs) auto

lemma find_append: "List.find P (xs @ ys) =
    (case List.find P xs of None \<Rightarrow> List.find P ys | Some x \<Rightarrow> Some x)"
  by (induction xs) auto

lemma find_map_key:
  "(\<And>x. P (f x) = P x) \<Longrightarrow> List.find P (map f xs) = map_option f (List.find P xs)"
  by (induction xs) auto

end
