(* ===== verification/Decimal.thy ===== *)
theory Decimal
  imports Prelude
begin

text \<open>
  Decimal text, as \<open>strconv.FormatUint\<close>, \<open>fmt.Sprintf("%02d", n)\<close> and the digit tests of the money
  package and the configuration read and write it. A Go string is its bytes, so a character is a byte.
\<close>

definition byte_of :: "char \<Rightarrow> nat" where
  "byte_of c = of_char c"

definition is_digit :: "char \<Rightarrow> bool" where
  "is_digit c \<longleftrightarrow> 48 \<le> byte_of c \<and> byte_of c \<le> 57"

definition digit_val :: "char \<Rightarrow> nat" where
  "digit_val c = byte_of c - 48"

definition digit_char :: "nat \<Rightarrow> char" where
  "digit_char d = char_of (48 + d)"

fun dec :: "nat \<Rightarrow> string" where
  "dec n = (if n < 10 then [digit_char n] else dec (n div 10) @ [digit_char (n mod 10)])"

declare dec.simps [simp del]

definition dec2 :: "nat \<Rightarrow> string" where
  "dec2 n = (if n < 10 then [CHR ''0'', digit_char n] else dec n)"

text \<open>The number a string of digits denotes, read from the left.\<close>

fun dec_val_acc :: "nat \<Rightarrow> string \<Rightarrow> nat" where
  "dec_val_acc v [] = v"
| "dec_val_acc v (c # cs) = dec_val_acc (v * 10 + digit_val c) cs"

definition dec_val :: "string \<Rightarrow> nat" where
  "dec_val s = dec_val_acc 0 s"

section \<open>Digits\<close>

lemma byte_of_digit_char: "d < 10 \<Longrightarrow> byte_of (digit_char d) = 48 + d"
  by (simp add: byte_of_def digit_char_def of_char_of)

lemma digit_val_char [simp]: "d < 10 \<Longrightarrow> digit_val (digit_char d) = d"
  by (simp add: digit_val_def byte_of_digit_char)

lemma is_digit_char [simp]: "d < 10 \<Longrightarrow> is_digit (digit_char d)"
  by (simp add: is_digit_def byte_of_digit_char)

lemma digit_val_less: "is_digit c \<Longrightarrow> digit_val c < 10"
  by (auto simp: is_digit_def digit_val_def)

lemma digit_char_val [simp]: "is_digit c \<Longrightarrow> digit_char (digit_val c) = c"
  by (simp add: is_digit_def digit_val_def digit_char_def byte_of_def)

lemma digit_char_eq_iff: "a < 10 \<Longrightarrow> b < 10 \<Longrightarrow> digit_char a = digit_char b \<longleftrightarrow> a = b"
  by (metis digit_val_char)

lemma byte_of_zero: "byte_of (CHR ''0'') = 48"
  by (simp add: byte_of_def)

lemma zero_char_48: "CHR ''0'' = char_of (48 :: nat)"
  by (metis byte_of_def byte_of_zero char_of_char)

lemma digit_char_0 [simp]: "digit_char 0 = CHR ''0''"
  by (simp add: digit_char_def zero_char_48)

lemma is_digit_not_dot: "is_digit c \<Longrightarrow> c \<noteq> CHR ''.''"
  by (auto simp: is_digit_def byte_of_def)

lemma not_digit_dot [simp]: "\<not> is_digit (CHR ''.'')"
  using is_digit_not_dot by blast

section \<open>Values\<close>

lemma dec_val_acc_append:
  "dec_val_acc v (xs @ ys) = dec_val_acc (dec_val_acc v xs) ys"
  by (induction xs arbitrary: v) auto

lemma dec_val_acc_shift: "dec_val_acc v s = v * 10 ^ length s + dec_val_acc 0 s"
proof (induction s arbitrary: v)
  case (Cons c cs)
  have "dec_val_acc v (c # cs) = (v * 10 + digit_val c) * 10 ^ length cs + dec_val_acc 0 cs"
    using Cons.IH [of "v * 10 + digit_val c"] by simp
  also have "\<dots> = v * 10 ^ length (c # cs) + (digit_val c * 10 ^ length cs + dec_val_acc 0 cs)"
    by (simp add: algebra_simps)
  also have "digit_val c * 10 ^ length cs + dec_val_acc 0 cs = dec_val_acc 0 (c # cs)"
    using Cons.IH [of "digit_val c"] by simp
  finally show ?case .
qed simp

lemma dec_val_append: "dec_val (xs @ ys) = dec_val xs * 10 ^ length ys + dec_val ys"
  by (simp add: dec_val_def dec_val_acc_append) (rule dec_val_acc_shift)

lemma dec_val_Nil [simp]: "dec_val [] = 0"
  by (simp add: dec_val_def)

lemma dec_val_single [simp]: "dec_val [c] = digit_val c"
  by (simp add: dec_val_def)

lemma dec_val_acc_mono: "v \<le> dec_val_acc v s"
proof -
  have "v * 1 \<le> v * 10 ^ length s" by (intro mult_le_mono) simp_all
  then show ?thesis using dec_val_acc_shift [of v s] by linarith
qed

lemma dec_val_less: "\<forall>c \<in> set s. is_digit c \<Longrightarrow> dec_val s < 10 ^ length s"
proof (induction s)
  case (Cons c cs)
  then have "dec_val cs < 10 ^ length cs" "digit_val c < 10"
    by (auto simp: digit_val_less)
  moreover have "dec_val (c # cs) = digit_val c * 10 ^ length cs + dec_val cs"
    using dec_val_append [of "[c]" cs] by simp
  moreover have "digit_val c * 10 ^ length cs \<le> 9 * 10 ^ length cs"
    using \<open>digit_val c < 10\<close> by (auto intro: mult_le_mono)
  ultimately show ?case by (simp only: power_Suc length_Cons)
qed simp

section \<open>Printing\<close>

lemma dec_digits: "\<forall>c \<in> set (dec n). is_digit c"
proof (induction n rule: dec.induct)
  case (1 n)
  then show ?case by (subst dec.simps) auto
qed

lemma dec_nonempty [simp]: "dec n \<noteq> []"
  by (subst dec.simps) simp

lemma dec_val_dec [simp]: "dec_val (dec n) = n"
proof (induction n rule: dec.induct)
  case (1 n)
  show ?case
  proof (cases "n < 10")
    case True
    then show ?thesis by (subst dec.simps) simp
  next
    case False
    then have "dec n = dec (n div 10) @ [digit_char (n mod 10)]" by (subst dec.simps) simp
    then show ?thesis using "1" [OF False] by (simp add: dec_val_append)
  qed
qed

lemma dec_inject: "dec m = dec n \<longleftrightarrow> m = n"
  by (metis dec_val_dec)

lemma dec_val_dec_nz: "0 < n \<Longrightarrow> dec n \<noteq> ''0''"
  using dec_val_dec [of n] digit_val_char [of 0] by (metis digit_char_0 dec_val_single not_less_zero zero_less_numeral)

text \<open>The integer part of an amount: \<open>0\<close>, or digits that do not start with \<open>0\<close>.\<close>

definition canonical_int :: "string \<Rightarrow> bool" where
  "canonical_int s \<longleftrightarrow>
     (case s of [] \<Rightarrow> False
      | c # cs \<Rightarrow> s = ''0'' \<or> (is_digit c \<and> c \<noteq> CHR ''0'' \<and> list_all is_digit cs))"

lemma canonical_int_snoc:
  "s \<noteq> [] \<Longrightarrow> canonical_int (s @ [c]) \<longleftrightarrow> canonical_int s \<and> s \<noteq> ''0'' \<and> is_digit c"
  by (cases s) (auto simp: canonical_int_def)

lemma canonical_int_dec: "canonical_int (dec n)"
proof (induction n rule: dec.induct)
  case (1 n)
  show ?case
  proof (cases "n < 10")
    case True
    then have "digit_char n = CHR ''0'' \<longleftrightarrow> n = 0"
      using digit_char_eq_iff [of n 0] by simp
    with True show ?thesis by (subst dec.simps) (auto simp: canonical_int_def)
  next
    case False
    then have ne: "dec (n div 10) \<noteq> ''0''"
      by (intro dec_val_dec_nz) simp
    from False have "dec n = dec (n div 10) @ [digit_char (n mod 10)]" by (subst dec.simps) simp
    with "1" [OF False] ne show ?thesis by (simp add: canonical_int_snoc)
  qed
qed

lemma canonical_int_digits: "canonical_int s \<Longrightarrow> \<forall>c \<in> set s. is_digit c"
  by (cases s) (auto simp: canonical_int_def list_all_iff is_digit_def byte_of_def)

lemma canonical_int_pos:
  "canonical_int s \<Longrightarrow> s \<noteq> ''0'' \<Longrightarrow> 0 < dec_val s"
proof (cases s)
  case (Cons c cs)
  assume "canonical_int s" "s \<noteq> ''0''"
  with Cons have "is_digit c" "c \<noteq> CHR ''0''" by (auto simp: canonical_int_def)
  then have "digit_val c \<noteq> 0" by (metis digit_char_0 digit_char_val)
  then show ?thesis using dec_val_append [of "[c]" cs] Cons by simp
qed (simp add: canonical_int_def)

text \<open>Printing the value of a canonical integer part gives it back.\<close>

lemma dec_dec_val: "canonical_int s \<Longrightarrow> dec (dec_val s) = s"
proof (induction s rule: rev_induct)
  case (snoc c cs)
  show ?case
  proof (cases "cs = []")
    case True
    with snoc.prems have d: "is_digit c"
      by (auto simp: canonical_int_def is_digit_def byte_of_def)
    then have "digit_val c < 10" by (rule digit_val_less)
    with True d show ?thesis by (subst dec.simps) simp
  next
    case False
    with snoc.prems have cs: "canonical_int cs" "cs \<noteq> ''0''" and d: "is_digit c"
      by (auto simp: canonical_int_snoc)
    have "0 < dec_val cs" using cs by (rule canonical_int_pos)
    moreover have "digit_val c < 10" using d by (rule digit_val_less)
    moreover have "dec_val (cs @ [c]) = dec_val cs * 10 + digit_val c"
      by (simp add: dec_val_append)
    ultimately show ?thesis using snoc.IH [OF cs(1)] d by (subst dec.simps) simp
  qed
qed (simp add: canonical_int_def)

lemma dec2_digits: "n < 100 \<Longrightarrow> \<exists>a b. dec2 n = [a, b] \<and> is_digit a \<and> is_digit b"
proof -
  assume n: "n < 100"
  show ?thesis
  proof (cases "n < 10")
    case True
    moreover have "is_digit (CHR ''0'')" using is_digit_char [of 0] by simp
    ultimately show ?thesis by (auto simp: dec2_def)
  next
    case False
    moreover from n have "n div 10 < 10" by simp
    ultimately show ?thesis by (auto simp: dec2_def dec.simps [of n] dec.simps [of "n div 10"])
  qed
qed

lemma dec_val_dec2 [simp]: "dec_val (dec2 n) = n"
proof (cases "n < 10")
  case True
  moreover have "digit_val (CHR ''0'') = 0" using digit_val_char [of 0] by simp
  ultimately show ?thesis using dec_val_append [of "[CHR ''0'']" "[digit_char n]"]
    by (simp add: dec2_def)
qed (simp add: dec2_def)

lemma dec2_inject_val:
  assumes "is_digit a" and "is_digit b"
  shows "dec2 (digit_val a * 10 + digit_val b) = [a, b]"
proof (cases "digit_val a = 0")
  case True
  with assms have "a = CHR ''0''" by (metis digit_char_0 digit_char_val)
  with True assms digit_val_less [OF assms(2)] show ?thesis by (simp add: dec2_def)
next
  case False
  let ?n = "digit_val a * 10 + digit_val b"
  have "digit_val a < 10" "digit_val b < 10" using assms by (simp_all add: digit_val_less)
  with False have "\<not> ?n < 10" "?n div 10 = digit_val a" "?n mod 10 = digit_val b" by simp_all
  with assms \<open>digit_val a < 10\<close> show ?thesis
    by (simp add: dec2_def dec.simps [of ?n] dec.simps [of "digit_val a"])
qed

end
