(* ===== verification/Money.thy ===== *)
theory Money
  imports Decimal
begin

text \<open>
  The monetary value object, \<open>internal/domain/money/money.go\<close>: an \<open>int64\<close> of minor units and a
  currency. First the definitions in the order of the file, then what the constructors, the checked
  arithmetic, and the decimal text of an amount guarantee.
\<close>

section \<open>The value object\<close>

text \<open>\<open>Currency\<close> is a Go string type with three named values.\<close>

type_synonym currency = string

abbreviation BRL :: currency where "BRL \<equiv> ''BRL''"
abbreviation USD :: currency where "USD \<equiv> ''USD''"
abbreviation EUR :: currency where "EUR \<equiv> ''EUR''"

datatype money_error =
    ErrInvalidMoneyValue
  | ErrInvalidAmount
  | ErrUnsupportedMoneyCurrency
  | ErrMoneyCurrencyMismatch
  | ErrOverflow

record money =
  minor_units :: int64
  currency_of :: currency

text \<open>The zero value \<open>Money{}\<close> of Go.\<close>

definition zero_money :: money where
  "zero_money = \<lparr>minor_units = 0, currency_of = ''''\<rparr>"

definition is_supported :: "currency \<Rightarrow> bool" where
  "is_supported c \<longleftrightarrow> c = BRL \<or> c = USD \<or> c = EUR"

definition money_validate :: "money \<Rightarrow> money_error + unit" where
  "money_validate m =
     (if \<not> is_supported (currency_of m) then Inl ErrInvalidMoneyValue else Inr ())"

definition money_new :: "int64 \<Rightarrow> currency \<Rightarrow> money_error + money" where
  "money_new u c =
     (if \<not> is_supported c then Inl ErrUnsupportedMoneyCurrency
      else if u = min_int64 then Inl ErrOverflow
      else Inr \<lparr>minor_units = u, currency_of = c\<rparr>)"

text \<open>The expression \<open>^(0|[1-9]\d*)\.\d{2}$\<close>, read from the end of the string.\<close>

definition canonical_amount :: "string \<Rightarrow> bool" where
  "canonical_amount s =
     (case rev s of
        d2 # d1 # p # ip \<Rightarrow> is_digit d2 \<and> is_digit d1 \<and> p = CHR ''.'' \<and> canonical_int (rev ip)
      | _ \<Rightarrow> False)"

text \<open>
  The loop of \<open>parseMinorUnits\<close>. \<open>amount[i] - '0'\<close> is a subtraction of bytes, widened to \<open>int64\<close>.
\<close>

definition byte_digit :: "char \<Rightarrow> int64" where
  "byte_digit c = ucast (word_of_nat (byte_of c) - 48 :: 8 word)"

fun parse_minor_units_from :: "int64 \<Rightarrow> string \<Rightarrow> int64 option" where
  "parse_minor_units_from acc [] = Some acc"
| "parse_minor_units_from acc (c # cs) =
     (if c = CHR ''.'' then parse_minor_units_from acc cs
      else (let digit = byte_digit c in
        if int64_div (max_int64 - digit) 10 <s acc then None
        else parse_minor_units_from (acc * 10 + digit) cs))"

definition parse_minor_units :: "string \<Rightarrow> int64 option" where
  "parse_minor_units s = parse_minor_units_from 0 s"

definition money_parse :: "string \<Rightarrow> currency \<Rightarrow> money_error + money" where
  "money_parse s c =
     (if \<not> canonical_amount s then Inl ErrInvalidAmount
      else (case parse_minor_units s of
          None \<Rightarrow> Inl ErrOverflow
        | Some u \<Rightarrow> money_new u c))"

definition money_zero :: "currency \<Rightarrow> money_error + money" where
  "money_zero c = money_new 0 c"

definition money_minor_units :: "money \<Rightarrow> money_error + int64" where
  "money_minor_units m = bindE (money_validate m) (\<lambda>_. Inr (minor_units m))"

definition money_currency :: "money \<Rightarrow> money_error + currency" where
  "money_currency m = bindE (money_validate m) (\<lambda>_. Inr (currency_of m))"

definition require_comparable :: "money \<Rightarrow> money \<Rightarrow> money_error + unit" where
  "require_comparable m other =
     bindE (money_validate m) (\<lambda>_.
     bindE (money_validate other) (\<lambda>_.
     if currency_of m \<noteq> currency_of other then Inl ErrMoneyCurrencyMismatch else Inr ()))"

definition money_add :: "money \<Rightarrow> money \<Rightarrow> money_error + money" where
  "money_add m other =
     bindE (require_comparable m other) (\<lambda>_.
     let a = minor_units m; b = minor_units other in
     if (0 <s b \<and> max_int64 - b <s a) \<or> (b <s 0 \<and> a \<le>s min_int64 - b) then Inl ErrOverflow
     else Inr \<lparr>minor_units = a + b, currency_of = currency_of m\<rparr>)"

definition money_subtract :: "money \<Rightarrow> money \<Rightarrow> money_error + money" where
  "money_subtract m other =
     bindE (require_comparable m other) (\<lambda>_.
     let a = minor_units m; b = minor_units other in
     if (0 <s b \<and> a \<le>s min_int64 + b) \<or> (b <s 0 \<and> max_int64 + b <s a) then Inl ErrOverflow
     else Inr \<lparr>minor_units = a - b, currency_of = currency_of m\<rparr>)"

definition money_negate :: "money \<Rightarrow> money_error + money" where
  "money_negate m =
     bindE (money_validate m) (\<lambda>_.
     if minor_units m = min_int64 then Inl ErrOverflow
     else Inr \<lparr>minor_units = - minor_units m, currency_of = currency_of m\<rparr>)"

definition money_compare :: "money \<Rightarrow> money \<Rightarrow> money_error + int" where
  "money_compare m other =
     bindE (require_comparable m other) (\<lambda>_.
     Inr (if minor_units m <s minor_units other then - 1
          else if minor_units other <s minor_units m then 1 else 0))"

text \<open>
  \<open>decimal\<close> prints the amount; \<open>uint64(-m)\<close> of the least \<open>int64\<close> is its magnitude again, so the
  magnitude is right for every amount.
\<close>

definition money_decimal :: "money \<Rightarrow> money_error + string" where
  "money_decimal m =
     bindE (money_validate m) (\<lambda>_.
     let u = minor_units m;
         magnitude = (if u <s 0 then - u else u);
         sign = (if u <s 0 then ''-'' else '''')
     in Inr (sign @ dec (unat (magnitude div 100)) @ ''.'' @ dec2 (unat (magnitude mod 100))))"

section \<open>Comparison and checked arithmetic\<close>

abbreviation amount :: "money \<Rightarrow> int" where
  "amount m \<equiv> sint (minor_units m)"

text \<open>The values \<open>New\<close> and \<open>Parse\<close> return: a supported currency and never the least \<open>int64\<close>.\<close>

definition money_ok :: "money \<Rightarrow> bool" where
  "money_ok m \<longleftrightarrow> is_supported (currency_of m) \<and> minor_units m \<noteq> min_int64"

lemma supported_currencies [simp]:
  "is_supported BRL" "is_supported USD" "is_supported EUR" "\<not> is_supported ''''"
  by (simp_all add: is_supported_def)

lemma min_int64_iff: "u = min_int64 \<longleftrightarrow> sint u = - (2 ^ 63)"
  by (simp add: sint64_eq_iff)

lemma money_ok_iff:
  "money_ok m \<longleftrightarrow> is_supported (currency_of m) \<and> - (2 ^ 63) < amount m"
  using sint64_lower [of "minor_units m"] by (auto simp: money_ok_def min_int64_iff)

lemma money_validate_ok [ok_iff]: "money_validate m = Inr u \<longleftrightarrow> is_supported (currency_of m)"
  by (simp add: money_validate_def)

lemma money_validate_supported [simp]: "is_supported (currency_of m) \<Longrightarrow> money_validate m = Inr ()"
  by (simp add: money_validate_def)

lemma money_minor_units_ok [ok_iff]:
  "money_minor_units m = Inr u \<longleftrightarrow> is_supported (currency_of m) \<and> u = minor_units m"
  by (auto simp: money_minor_units_def ok_iff)

lemma money_currency_ok [ok_iff]:
  "money_currency m = Inr c \<longleftrightarrow> is_supported (currency_of m) \<and> c = currency_of m"
  by (auto simp: money_currency_def ok_iff)

lemma money_new_ok [ok_iff]:
  "money_new u c = Inr m \<longleftrightarrow> is_supported c \<and> u \<noteq> min_int64 \<and> m = \<lparr>minor_units = u, currency_of = c\<rparr>"
  by (auto simp: money_new_def)

lemma money_zero_ok [ok_iff]:
  "money_zero c = Inr m \<longleftrightarrow> is_supported c \<and> m = \<lparr>minor_units = 0, currency_of = c\<rparr>"
  by (auto simp: money_zero_def ok_iff min_int64_def)

lemma require_comparable_ok [ok_iff]:
  "require_comparable m n = Inr u \<longleftrightarrow>
     is_supported (currency_of m) \<and> currency_of n = currency_of m"
  by (auto simp: require_comparable_def ok_iff split: if_splits)

lemma money_compare_ok [ok_iff]:
  "money_compare m n = Inr k \<longleftrightarrow>
     is_supported (currency_of m) \<and> currency_of n = currency_of m \<and> k = sgn (amount m - amount n)"
  by (auto simp: money_compare_def ok_iff word_sless_alt)

text \<open>The overflow tests of \<open>Add\<close> and \<open>Subtract\<close>, read on the integers.\<close>

lemma add_guard:
  assumes "- (2 ^ 63) < sint a"
  shows "(0 <s b \<and> max_int64 - b <s a) \<or> (b <s 0 \<and> a \<le>s min_int64 - b) \<longleftrightarrow>
     \<not> (- (2 ^ 63) < sint a + sint b \<and> sint a + sint b < 2 ^ 63)"
proof -
  have "0 < sint b \<Longrightarrow> sint (max_int64 - b) = 2 ^ 63 - 1 - sint b"
    using sint64_upper [of b] by (subst sint64_sub) simp_all
  moreover have "sint b < 0 \<Longrightarrow> sint (min_int64 - b) = - (2 ^ 63) - sint b"
    using sint64_lower [of b] by (subst sint64_sub) simp_all
  ultimately show ?thesis
    using sint64_upper [of a] assms by (cases "sint b" "0::int" rule: linorder_cases)
      (auto simp: word_sless_alt word_sle_eq)
qed

lemma sub_guard:
  assumes "- (2 ^ 63) < sint a"
  shows "(0 <s b \<and> a \<le>s min_int64 + b) \<or> (b <s 0 \<and> max_int64 + b <s a) \<longleftrightarrow>
     \<not> (- (2 ^ 63) < sint a - sint b \<and> sint a - sint b < 2 ^ 63)"
proof -
  have "0 < sint b \<Longrightarrow> sint (min_int64 + b) = - (2 ^ 63) + sint b"
    using sint64_upper [of b] by (subst sint64_add) simp_all
  moreover have "sint b < 0 \<Longrightarrow> sint (max_int64 + b) = 2 ^ 63 - 1 + sint b"
    using sint64_lower [of b] by (subst sint64_add) simp_all
  ultimately show ?thesis
    using sint64_upper [of a] assms by (cases "sint b" "0::int" rule: linorder_cases)
      (auto simp: word_sless_alt word_sle_eq)
qed

lemma money_add_ok:
  assumes "money_ok m"
  shows "money_add m n = Inr r \<longleftrightarrow>
     currency_of n = currency_of m \<and> - (2 ^ 63) < amount m + amount n \<and> amount m + amount n < 2 ^ 63 \<and>
     amount r = amount m + amount n \<and> currency_of r = currency_of m"
  using assms
  by (cases r) (auto simp: money_add_def money_ok_iff ok_iff Let_def add_guard sint64_add sint64_eq_iff
    simp del: not_less split: if_splits)

lemma money_subtract_ok:
  assumes "money_ok m"
  shows "money_subtract m n = Inr r \<longleftrightarrow>
     currency_of n = currency_of m \<and> - (2 ^ 63) < amount m - amount n \<and> amount m - amount n < 2 ^ 63 \<and>
     amount r = amount m - amount n \<and> currency_of r = currency_of m"
  using assms
  by (cases r) (auto simp: money_subtract_def money_ok_iff ok_iff Let_def sub_guard sint64_sub sint64_eq_iff
    simp del: not_less split: if_splits)

lemma money_negate_ok:
  assumes "money_ok m"
  shows "money_negate m = Inr r \<longleftrightarrow> amount r = - amount m \<and> currency_of r = currency_of m"
  using assms
  by (cases r) (auto simp: money_negate_def money_ok_def ok_iff min_int64_iff sint64_neg sint64_eq_iff)

section \<open>The decimal text of an amount\<close>

lemma canonical_amount_iff:
  "canonical_amount s \<longleftrightarrow>
     (\<exists>ip a b. s = ip @ [CHR ''.'', a, b] \<and> canonical_int ip \<and> is_digit a \<and> is_digit b)"
  (is "?l \<longleftrightarrow> ?r")
proof
  assume ?l
  then obtain b a ip where "rev s = b # a # CHR ''.'' # rev ip"
      and "is_digit a" "is_digit b" "canonical_int ip"
    by (auto simp: canonical_amount_def split: list.splits)
  moreover from this(1) have "s = ip @ [CHR ''.'', a, b]"
    by (metis append.assoc append_Cons append_Nil rev.simps(2) rev_rev_ident)
  ultimately show ?r by blast
next
  assume ?r
  then show ?l by (auto simp: canonical_amount_def)
qed

lemma byte_digit: "is_digit c \<Longrightarrow> sint (byte_digit c) = int (digit_val c)"
proof -
  assume d: "is_digit c"
  have "word_of_nat (byte_of c) - 48 = (word_of_nat (digit_val c) :: 8 word)"
    using d by (auto simp: is_digit_def digit_val_def of_nat_diff)
  moreover have "unat (word_of_nat (digit_val c) :: 8 word) = digit_val c"
    using digit_val_less [OF d] by (simp add: unat_of_nat)
  ultimately have "uint (word_of_nat (byte_of c) - 48 :: 8 word) = int (digit_val c)"
    by (simp add: uint_nat)
  then have "byte_digit c = word_of_int (int (digit_val c))"
    unfolding byte_digit_def by (metis ucast_eq)
  then show ?thesis using digit_val_less [OF d] by (simp add: sint64_of_nat)
qed

text \<open>One round of the loop: the guard holds exactly when \<open>acc * 10 + digit\<close> fits.\<close>

lemma parse_guard:
  assumes "0 \<le> sint acc" and "sint d = int k" and "k < 10"
  shows "int64_div (max_int64 - d) 10 <s acc \<longleftrightarrow> \<not> sint acc * 10 + int k < 2 ^ 63"
    and "sint acc * 10 + int k < 2 ^ 63 \<Longrightarrow> sint (acc * 10 + d) = sint acc * 10 + int k"
proof -
  have "sint (max_int64 - d) = 2 ^ 63 - 1 - int k"
    using assms by (subst sint64_sub) simp_all
  moreover have "sint (int64_div (max_int64 - d) 10) = (2 ^ 63 - 1 - int k) div 10"
    using assms calculation by (simp add: int64_div_def sint64_of_int)
  ultimately show "int64_div (max_int64 - d) 10 <s acc \<longleftrightarrow> \<not> sint acc * 10 + int k < 2 ^ 63"
    by (auto simp: word_sless_alt)
next
  assume lt: "sint acc * 10 + int k < 2 ^ 63"
  have "acc * 10 + d = word_of_int (sint acc * 10 + int k)"
    by (simp flip: assms(2))
  then show "sint (acc * 10 + d) = sint acc * 10 + int k"
    using sint64_of_int [of "sint acc * 10 + int k"] lt assms by simp
qed

text \<open>The loop reads the digits of the string and refuses exactly the values beyond \<open>int64\<close>.\<close>

lemma parse_minor_units_from:
  assumes "\<forall>c \<in> set s. is_digit c \<or> c = CHR ''.''" and "0 \<le> sint acc"
  shows "parse_minor_units_from acc s = (let v = dec_val_acc (nat (sint acc)) (filter is_digit s) in
     if v < 2 ^ 63 then Some (word_of_nat v) else None)"
  using assms
proof (induction acc s rule: parse_minor_units_from.induct)
  case (1 acc)
  then show ?case using sint64_upper [of acc] by (simp add: nat_less_iff)
next
  case (2 acc c cs)
  show ?case
  proof (cases "c = CHR ''.''")
    case True
    then have "\<not> is_digit c" by simp
    with True 2 show ?thesis by simp
  next
    case False
    with "2.prems" have d: "is_digit c" by auto
    let ?k = "digit_val c"
    let ?acc' = "acc * 10 + byte_digit c"
    note guard = parse_guard [OF "2.prems"(2) byte_digit [OF d] digit_val_less [OF d]]
    show ?thesis
    proof (cases "sint acc * 10 + int ?k < 2 ^ 63")
      case True
      then have acc': "sint ?acc' = sint acc * 10 + int ?k" by (rule guard(2))
      with "2.prems"(2) have "nat (sint ?acc') = nat (sint acc) * 10 + ?k" "0 \<le> sint ?acc'"
        by (simp_all add: nat_add_distrib nat_mult_distrib)
      with "2.IH"(2) [OF False refl] True guard(1) False "2.prems" d show ?thesis by simp
    next
      case big: False
      have "nat (sint acc) * 10 + ?k \<le> dec_val_acc (nat (sint acc) * 10 + ?k) (filter is_digit cs)"
        by (rule dec_val_acc_mono)
      moreover have "int (nat (sint acc) * 10 + ?k) = sint acc * 10 + int ?k"
        using "2.prems"(2) by simp
      ultimately have "\<not> dec_val_acc (nat (sint acc) * 10 + ?k) (filter is_digit cs) < 2 ^ 63"
        using big by simp
      with big guard(1) False d show ?thesis by (simp add: Let_def)
    qed
  qed
qed

text \<open>The value of a canonical amount, in minor units.\<close>

definition amount_value :: "string \<Rightarrow> nat" where
  "amount_value s = dec_val (filter is_digit s)"

lemma filter_digits_amount:
  assumes "canonical_int ip" and "is_digit a" and "is_digit b"
  shows "filter is_digit (ip @ [CHR ''.'', a, b]) = ip @ [a, b]"
proof -
  have "filter is_digit ip = ip"
    using canonical_int_digits [OF assms(1)] by simp
  then show ?thesis using assms(2,3) by simp
qed

lemma parse_minor_units_eq:
  assumes "canonical_amount s"
  shows "parse_minor_units s =
    (if amount_value s < 2 ^ 63 then Some (word_of_nat (amount_value s)) else None)"
proof -
  from assms obtain ip a b where s: "s = ip @ [CHR ''.'', a, b]"
    and "canonical_int ip" "is_digit a" "is_digit b" by (auto simp: canonical_amount_iff)
  then have "\<forall>c \<in> set s. is_digit c \<or> c = CHR ''.''"
    using canonical_int_digits by auto
  then show ?thesis
    by (simp add: parse_minor_units_def parse_minor_units_from amount_value_def dec_val_def Let_def)
qed

lemma money_parse_ok:
  "money_parse s c = Inr m \<longleftrightarrow>
     canonical_amount s \<and> is_supported c \<and> amount_value s < 2 ^ 63 \<and>
     amount m = int (amount_value s) \<and> currency_of m = c"
proof (cases "canonical_amount s \<and> amount_value s < 2 ^ 63")
  case True
  then have "sint (word_of_nat (amount_value s) :: int64) = int (amount_value s)"
    by (intro sint64_of_nat) simp
  with True show ?thesis
    by (cases m) (auto simp: money_parse_def parse_minor_units_eq ok_iff min_int64_iff sint64_eq_iff)
next
  case False
  then show ?thesis by (auto simp: money_parse_def parse_minor_units_eq)
qed

lemma money_decimal_nonneg:
  assumes "is_supported (currency_of m)" and "0 \<le> amount m"
  shows "money_decimal m =
    Inr (dec (nat (amount m) div 100) @ ''.'' @ dec2 (nat (amount m) mod 100))"
proof -
  have "unat (minor_units m) = nat (amount m)"
    using assms(2) by (rule unat64_nonneg)
  then show ?thesis
    using assms by (simp add: money_decimal_def Let_def word_sless_alt unat_div unat_mod)
qed


section \<open>Properties\<close>

lemma amount_value_canonical:
  assumes "canonical_int ip" and "is_digit a" and "is_digit b"
  shows "amount_value (ip @ [CHR ''.'', a, b]) = dec_val ip * 100 + (digit_val a * 10 + digit_val b)"
proof -
  have "dec_val [a, b] = digit_val a * 10 + digit_val b"
    using dec_val_append [of "[a]" "[b]"] by simp
  then show ?thesis
    using filter_digits_amount [OF assms] by (simp add: amount_value_def dec_val_append)
qed

lemma money_parse_shape:
  "money_parse s c = Inr m \<longleftrightarrow>
    (\<exists>ip a b. s = ip @ [CHR ''.'', a, b] \<and> canonical_int ip \<and> is_digit a \<and> is_digit b \<and>
      dec_val ip * 100 + (digit_val a * 10 + digit_val b) \<le> 2 ^ 63 - 1 \<and>
      amount m = int (dec_val ip * 100 + (digit_val a * 10 + digit_val b)) \<and>
      is_supported c \<and> currency_of m = c)"
  by (auto simp: money_parse_ok canonical_amount_iff amount_value_canonical)

text \<open>
  Checked addition. On values the package constructs, \<open>Add\<close> returns a result exactly when the
  currencies agree and the mathematical sum is itself the amount of a constructible value (above
  the least \<open>int64\<close>, at most the greatest), and then the result is that sum: the 64-bit addition
  never wraps, and every constructible result is constructible again.
\<close>

theorem money_add_exact:
  assumes "money_ok m" and "money_ok n"
  shows "money_add m n = Inr r \<longleftrightarrow>
    currency_of n = currency_of m \<and> amount m + amount n \<le> 2 ^ 63 - 1 \<and>
    amount r = amount m + amount n \<and> currency_of r = currency_of m \<and> money_ok r"
  using money_add_ok [OF assms(1), of n r] assms by (auto simp: money_ok_iff)

theorem money_add_exact_witness:
  "money_add \<lparr>minor_units = 9223372036854775806, currency_of = BRL\<rparr> \<lparr>minor_units = 1, currency_of = BRL\<rparr>
     = Inr \<lparr>minor_units = 9223372036854775807, currency_of = BRL\<rparr>"
proof -
  have "money_ok \<lparr>minor_units = 9223372036854775806, currency_of = BRL\<rparr>"
    and "money_ok \<lparr>minor_units = 1, currency_of = BRL\<rparr>"
    and "money_ok \<lparr>minor_units = 9223372036854775807, currency_of = BRL\<rparr>"
    by (simp_all add: money_ok_iff)
  then show ?thesis by (subst money_add_exact) simp_all
qed

text \<open>
  Checked subtraction. On constructible values, \<open>Subtract\<close> returns a result exactly when the
  currencies agree and the mathematical difference is the amount of a constructible value, and then
  the result is that difference, with no wrap-around.
\<close>

theorem money_subtract_exact:
  assumes "money_ok m" and "money_ok n"
  shows "money_subtract m n = Inr r \<longleftrightarrow>
    currency_of n = currency_of m \<and> - (2 ^ 63) < amount m - amount n \<and> amount m - amount n < 2 ^ 63 \<and>
    amount r = amount m - amount n \<and> currency_of r = currency_of m"
  using money_subtract_ok [OF assms(1)] by simp

text \<open>
  C38: what \<open>Parse\<close> accepts. A text becomes an amount exactly when it is canonical (an integer part
  without leading zeros, a dot and two digits), the currency is supported and its value in minor
  units fits \<open>int64\<close>; the amount is then that value. The per-digit overflow test of the loop thus
  refuses exactly the texts beyond 92233720368547758.07.
\<close>

theorem money_parse_accepts:
  "money_parse s c = Inr m \<longleftrightarrow>
    (\<exists>ip a b. s = ip @ [CHR ''.'', a, b] \<and> canonical_int ip \<and> is_digit a \<and> is_digit b \<and>
      dec_val ip * 100 + (digit_val a * 10 + digit_val b) \<le> 2 ^ 63 - 1 \<and>
      amount m = int (dec_val ip * 100 + (digit_val a * 10 + digit_val b)) \<and>
      is_supported c \<and> currency_of m = c)"
  by (rule money_parse_shape)

lemma money_decimal_parses:
  assumes "is_supported (currency_of m)" and "0 \<le> amount m"
  shows "\<exists>s. money_decimal m = Inr s \<and> money_parse s (currency_of m) = Inr m"
proof -
  let ?n = "nat (amount m)"
  let ?s = "dec (?n div 100) @ ''.'' @ dec2 (?n mod 100)"
  obtain a b where ab: "dec2 (?n mod 100) = [a, b]" "is_digit a" "is_digit b"
    using dec2_digits [of "?n mod 100"] by auto
  then have "digit_val a * 10 + digit_val b = ?n mod 100"
    using dec_val_dec2 [of "?n mod 100"] dec_val_append [of "[a]" "[b]"] by simp
  then have "amount_value ?s = ?n"
    using ab amount_value_canonical [OF canonical_int_dec, of a b] by simp
  moreover have "canonical_amount ?s"
    using ab by (auto simp: canonical_amount_iff canonical_int_dec)
  moreover have "?n < 2 ^ 63" using sint64_upper [of "minor_units m"] by (simp add: nat_less_iff)
  ultimately have "money_parse ?s (currency_of m) = Inr m"
    using assms by (simp add: money_parse_ok)
  with money_decimal_nonneg [OF assms] show ?thesis by blast
qed

text \<open>
  Parsing is the inverse of printing on the amounts that leave the service: the decimal text of
  a non-negative amount in a supported currency parses back to the same value.
\<close>

theorem money_decimal_parse:
  assumes "is_supported (currency_of m)" and "0 \<le> amount m"
  shows "\<exists>s. money_decimal m = Inr s \<and> money_parse s (currency_of m) = Inr m"
  by (rule money_decimal_parses [OF assms])

theorem money_decimal_parse_witness:
  "\<exists>s. money_decimal \<lparr>minor_units = 1005, currency_of = USD\<rparr> = Inr s \<and>
    money_parse s USD = Inr \<lparr>minor_units = 1005, currency_of = USD\<rparr>"
  using money_decimal_parse [of "\<lparr>minor_units = 1005, currency_of = USD\<rparr>"] by simp

text \<open>
  Printing is the inverse of parsing: whatever text \<open>Parse\<close> accepts is the text the amount prints
  as, so an amount has exactly one external spelling.
\<close>

theorem money_parse_decimal:
  assumes "money_parse s c = Inr m"
  shows "money_decimal m = Inr s"
proof -
  from assms obtain ip a b where s: "s = ip @ [CHR ''.'', a, b]"
    and ip: "canonical_int ip" and ab: "is_digit a" "is_digit b"
    and m: "amount m = int (dec_val ip * 100 + (digit_val a * 10 + digit_val b))"
      "is_supported (currency_of m)"
    by (auto simp: money_parse_shape)
  let ?n = "dec_val ip * 100 + (digit_val a * 10 + digit_val b)"
  have "digit_val a * 10 + digit_val b < 100"
    using digit_val_less [OF ab(1)] digit_val_less [OF ab(2)] by simp
  then have "?n div 100 = dec_val ip" "?n mod 100 = digit_val a * 10 + digit_val b" by simp_all
  moreover have "nat (amount m) = ?n" using m(1) by linarith
  ultimately show ?thesis
    using money_decimal_nonneg [OF m(2)] m(1) dec_dec_val [OF ip] dec2_inject_val [OF ab] s by simp
qed

end
