(* ===== verification/Wallet.thy ===== *)
theory Wallet
  imports Money
begin

text \<open>
  The wallet aggregate and its ledger entries, \<open>internal/domain/wallet/wallet.go\<close>. The methods on
  \<open>*Wallet\<close> mutate the receiver: their models take the pointer and return the new value of the
  aggregate beside the method's result.
\<close>

section \<open>Types\<close>

datatype wallet_error =
    ErrInvalidWallet
  | ErrInsufficientFunds
  | ErrCurrencyMismatch
  | ErrInvalidLedgerEntry
  | ErrInvalidTransaction
  | ErrInvalidTransition
  | ErrInvalidEvent
  | WMoney money_error

type_synonym direction = string

abbreviation Debit :: direction where "Debit \<equiv> ''DEBIT''"
abbreviation Credit :: direction where "Credit \<equiv> ''CREDIT''"

record wallet =
  w_id :: string
  w_player_id :: string
  w_currency :: currency
  w_balance :: money
  w_version :: int64
  w_created_at :: gotime
  w_updated_at :: gotime

record new_input =
  ni_id :: string
  ni_player_id :: string
  ni_currency :: currency
  ni_occurred_at :: gotime

record open_input =
  oi_id :: string
  oi_player_id :: string
  oi_currency :: currency
  oi_initial_balance :: money
  oi_opening_transaction_id :: string
  oi_ledger_entry_id :: string
  oi_occurred_at :: gotime

record rehydrated_wallet =
  rw_id :: string
  rw_player_id :: string
  rw_currency :: currency
  rw_balance :: money
  rw_version :: int64
  rw_created_at :: gotime
  rw_updated_at :: gotime

record movement_input =
  mi_ledger_entry_id :: string
  mi_transaction_id :: string
  mi_money :: money
  mi_occurred_at :: gotime

record ledger_entry =
  le_id :: string
  le_wallet_id :: string
  le_transaction_id :: string
  le_direction :: direction
  le_money :: money
  le_balance_before :: money
  le_balance_after :: money
  le_occurred_at :: gotime

section \<open>Ledger entries\<close>

definition require_currency :: "money \<Rightarrow> currency \<Rightarrow> wallet_error + unit" where
  "require_currency value c =
     (case money_currency value of
        Inl _ \<Rightarrow> Inl ErrInvalidWallet
      | Inr actual \<Rightarrow> if actual \<noteq> c then Inl ErrCurrencyMismatch else Inr ())"

text \<open>\<open>zero, _ := money.Zero(currency)\<close>: on an error the value is Go's zero \<open>Money\<close>.\<close>

definition zero_of :: "currency \<Rightarrow> money" where
  "zero_of c = (case money_zero c of Inl _ \<Rightarrow> zero_money | Inr z \<Rightarrow> z)"

text \<open>The test \<open>err != nil || P(comparison)\<close> that follows a \<open>Compare\<close>.\<close>

definition compare_fails :: "money \<Rightarrow> money \<Rightarrow> (int \<Rightarrow> bool) \<Rightarrow> bool" where
  "compare_fails m n P = (case money_compare m n of Inl _ \<Rightarrow> True | Inr k \<Rightarrow> P k)"

definition new_wallet_ledger_entry :: "ledger_entry \<Rightarrow> wallet_error + ledger_entry" where
  "new_wallet_ledger_entry i =
     (if le_id i = '''' \<or> le_wallet_id i = '''' \<or> le_transaction_id i = '''' \<or>
         is_zero_time (le_occurred_at i) \<or> (le_direction i \<noteq> Debit \<and> le_direction i \<noteq> Credit)
      then Inl ErrInvalidLedgerEntry
      else case money_currency (le_money i) of Inl _ \<Rightarrow> Inl ErrInvalidLedgerEntry | Inr c \<Rightarrow>
      if \<not> is_ok (require_currency (le_balance_before i) c) then Inl ErrInvalidLedgerEntry
      else if \<not> is_ok (require_currency (le_balance_after i) c) then Inl ErrInvalidLedgerEntry
      else if compare_fails (le_money i) (zero_of c) (\<lambda>k. k \<le> 0) then Inl ErrInvalidLedgerEntry
      else if compare_fails (le_balance_before i) (zero_of c) (\<lambda>k. k < 0) then Inl ErrInvalidLedgerEntry
      else if compare_fails (le_balance_after i) (zero_of c) (\<lambda>k. k < 0) then Inl ErrInvalidLedgerEntry
      else case (if le_direction i = Debit
                 then money_subtract (le_balance_before i) (le_money i)
                 else money_add (le_balance_before i) (le_money i)) of
          Inl _ \<Rightarrow> Inl ErrInvalidLedgerEntry
        | Inr expected \<Rightarrow>
            if compare_fails expected (le_balance_after i) (\<lambda>k. k \<noteq> 0) then Inl ErrInvalidLedgerEntry
            else Inr (i\<lparr>le_occurred_at := utc (le_occurred_at i)\<rparr>))"

section \<open>The aggregate\<close>

definition wallet_new :: "new_input \<Rightarrow> wallet_error + wallet" where
  "wallet_new i =
     (if ni_id i = '''' \<or> ni_player_id i = '''' \<or> is_zero_time (ni_occurred_at i)
      then Inl ErrInvalidWallet
      else case money_zero (ni_currency i) of Inl _ \<Rightarrow> Inl ErrInvalidWallet | Inr balance \<Rightarrow>
        let now = utc (ni_occurred_at i) in
        Inr \<lparr>w_id = ni_id i, w_player_id = ni_player_id i, w_currency = ni_currency i,
             w_balance = balance, w_version = 1, w_created_at = now, w_updated_at = now\<rparr>)"

definition wallet_open :: "open_input \<Rightarrow> wallet_error + (wallet \<times> ledger_entry ptr)" where
  "wallet_open i =
     bindE (wallet_new \<lparr>ni_id = oi_id i, ni_player_id = oi_player_id i, ni_currency = oi_currency i,
              ni_occurred_at = oi_occurred_at i\<rparr>) (\<lambda>w.
     bindE (require_currency (oi_initial_balance i) (oi_currency i)) (\<lambda>_.
     let zero = zero_of (oi_currency i) in
     case money_compare (oi_initial_balance i) zero of Inl _ \<Rightarrow> Inl ErrInvalidWallet | Inr comparison \<Rightarrow>
     if comparison < 0 then Inl ErrInvalidWallet
     else if comparison = 0 then Inr (w, None)
     else if oi_opening_transaction_id i = '''' \<or> oi_ledger_entry_id i = '''' then Inl ErrInvalidWallet
     else bindE (new_wallet_ledger_entry
            \<lparr>le_id = oi_ledger_entry_id i, le_wallet_id = oi_id i,
             le_transaction_id = oi_opening_transaction_id i, le_direction = Credit,
             le_money = oi_initial_balance i, le_balance_before = zero,
             le_balance_after = oi_initial_balance i, le_occurred_at = oi_occurred_at i\<rparr>) (\<lambda>entry.
          Inr (w\<lparr>w_balance := oi_initial_balance i\<rparr>, Some entry))))"

definition wallet_rehydrate :: "rehydrated_wallet \<Rightarrow> wallet_error + wallet" where
  "wallet_rehydrate i =
     (if rw_id i = '''' \<or> rw_player_id i = '''' \<or> rw_version i <s 1 \<or>
         is_zero_time (rw_created_at i) \<or> is_zero_time (rw_updated_at i)
      then Inl ErrInvalidWallet
      else bindE (require_currency (rw_balance i) (rw_currency i)) (\<lambda>_.
        if compare_fails (rw_balance i) (zero_of (rw_currency i)) (\<lambda>k. k < 0) then Inl ErrInvalidWallet
        else Inr \<lparr>w_id = rw_id i, w_player_id = rw_player_id i, w_currency = rw_currency i,
                  w_balance = rw_balance i, w_version = rw_version i,
                  w_created_at = utc (rw_created_at i), w_updated_at = utc (rw_updated_at i)\<rparr>))"

definition wallet_move ::
    "direction \<Rightarrow> wallet ptr \<Rightarrow> movement_input \<Rightarrow> wallet_error + (ledger_entry \<times> wallet)" where
  "wallet_move d p i =
     (case p of None \<Rightarrow> Inl ErrInvalidWallet | Some w \<Rightarrow>
      if mi_ledger_entry_id i = '''' \<or> mi_transaction_id i = '''' \<or> is_zero_time (mi_occurred_at i)
      then Inl ErrInvalidWallet
      else bindE (require_currency (mi_money i) (w_currency w)) (\<lambda>_.
        if compare_fails (mi_money i) (zero_of (w_currency w)) (\<lambda>k. k \<le> 0) then Inl ErrInvalidLedgerEntry
        else bindE
          (if d = Debit then
             (if compare_fails (w_balance w) (mi_money i) (\<lambda>k. k < 0) then Inl ErrInsufficientFunds
              else map_err WMoney (money_subtract (w_balance w) (mi_money i)))
           else map_err WMoney (money_add (w_balance w) (mi_money i))) (\<lambda>after.
        bindE (new_wallet_ledger_entry
            \<lparr>le_id = mi_ledger_entry_id i, le_wallet_id = w_id w, le_transaction_id = mi_transaction_id i,
             le_direction = d, le_money = mi_money i, le_balance_before = w_balance w,
             le_balance_after = after, le_occurred_at = mi_occurred_at i\<rparr>) (\<lambda>entry.
        Inr (entry, w\<lparr>w_balance := after, w_version := w_version w + 1,
                      w_updated_at := utc (mi_occurred_at i)\<rparr>)))))"

definition wallet_debit :: "wallet ptr \<Rightarrow> movement_input \<Rightarrow> wallet_error + (ledger_entry \<times> wallet)" where
  "wallet_debit p i = wallet_move Debit p i"

definition wallet_credit :: "wallet ptr \<Rightarrow> movement_input \<Rightarrow> wallet_error + (ledger_entry \<times> wallet)" where
  "wallet_credit p i = wallet_move Credit p i"

section \<open>When the operations succeed\<close>

text \<open>What a movement in direction \<open>d\<close> adds to a balance.\<close>

definition signed_amount :: "direction \<Rightarrow> money \<Rightarrow> int" where
  "signed_amount d m = (if d = Debit then - amount m else amount m)"

lemma money_ok_nonneg: "is_supported (currency_of m) \<Longrightarrow> 0 \<le> amount m \<Longrightarrow> money_ok m"
  by (simp add: money_ok_iff)

lemma require_currency_ok [ok_iff]:
  "require_currency m c = Inr u \<longleftrightarrow> is_supported c \<and> currency_of m = c"
  by (auto simp: require_currency_def money_currency_def money_validate_def split: sum.splits if_splits)

lemma is_ok_require_currency: "is_ok (require_currency m c) \<longleftrightarrow> is_supported c \<and> currency_of m = c"
  by (simp add: is_ok_iff require_currency_ok)

lemma zero_of_supported [simp]: "is_supported c \<Longrightarrow> zero_of c = \<lparr>minor_units = 0, currency_of = c\<rparr>"
  by (simp add: zero_of_def money_zero_def money_new_def min_int64_def)

lemma money_compare_comparable:
  "is_supported (currency_of m) \<Longrightarrow> currency_of n = currency_of m \<Longrightarrow>
     money_compare m n = Inr (sgn (amount m - amount n))"
  by (simp add: money_compare_ok)

lemma compare_fails_comparable [simp]:
  "is_supported (currency_of m) \<Longrightarrow> currency_of n = currency_of m \<Longrightarrow>
     compare_fails m n P = P (sgn (amount m - amount n))"
  by (simp add: compare_fails_def money_compare_comparable)

lemma expected_entry_balance:
  assumes "is_supported (currency_of b)" "0 \<le> amount b" "currency_of m = currency_of b" "0 < amount m"
    and "currency_of a = currency_of b" "0 \<le> amount a"
  shows "(case (if d = Debit then money_subtract b m else money_add b m) of
        Inl _ \<Rightarrow> Inl e | Inr x \<Rightarrow> if compare_fails x a (\<lambda>k. k \<noteq> 0) then Inl e else Inr y) =
      (if amount a = amount b + signed_amount d m then Inr y else Inl e)"
proof -
  let ?x = "if d = Debit then money_subtract b m else money_add b m"
  have ok: "money_ok b" using assms by (simp add: money_ok_nonneg)
  have eq: "?x = Inr r \<longleftrightarrow> - (2 ^ 63) < amount b + signed_amount d m \<and>
      amount b + signed_amount d m < 2 ^ 63 \<and>
      amount r = amount b + signed_amount d m \<and> currency_of r = currency_of b" for r
    using assms(3) by (auto simp: money_subtract_ok [OF ok] money_add_ok [OF ok] signed_amount_def)
  show ?thesis
  proof (cases ?x)
    case (Inl f)
    have "amount a \<noteq> amount b + signed_amount d m"
      using eq [of a] Inl assms(5,6) sint64_upper [of "minor_units a"] by auto
    with Inl show ?thesis by simp
  next
    case (Inr r)
    with eq [of r] assms show ?thesis by (auto simp: sgn_if)
  qed
qed

lemma new_wallet_ledger_entry_ok [ok_iff]:
  "new_wallet_ledger_entry i = Inr e \<longleftrightarrow>
     le_id i \<noteq> '''' \<and> le_wallet_id i \<noteq> '''' \<and> le_transaction_id i \<noteq> '''' \<and>
     \<not> is_zero_time (le_occurred_at i) \<and> (le_direction i = Debit \<or> le_direction i = Credit) \<and>
     is_supported (currency_of (le_money i)) \<and>
     currency_of (le_balance_before i) = currency_of (le_money i) \<and>
     currency_of (le_balance_after i) = currency_of (le_money i) \<and>
     0 < amount (le_money i) \<and> 0 \<le> amount (le_balance_before i) \<and> 0 \<le> amount (le_balance_after i) \<and>
     amount (le_balance_after i) =
       amount (le_balance_before i) + signed_amount (le_direction i) (le_money i) \<and>
     e = i\<lparr>le_occurred_at := utc (le_occurred_at i)\<rparr>"
proof (cases "is_supported (currency_of (le_money i)) \<and>
     currency_of (le_balance_before i) = currency_of (le_money i) \<and>
     currency_of (le_balance_after i) = currency_of (le_money i) \<and>
     0 < amount (le_money i) \<and> 0 \<le> amount (le_balance_before i) \<and> 0 \<le> amount (le_balance_after i)")
  case True
  then have "money_currency (le_money i) = Inr (currency_of (le_money i))"
    by (simp add: money_currency_ok)
  with True show ?thesis
    by (auto simp: new_wallet_ledger_entry_def is_ok_require_currency expected_entry_balance)
next
  case False
  then show ?thesis
    by (auto simp: new_wallet_ledger_entry_def is_ok_require_currency money_currency_def
      money_validate_def ok_iff split: sum.splits if_splits)
qed

section \<open>Well-formed wallets\<close>

text \<open>
  What \<open>New\<close>, \<open>Open\<close> and \<open>Rehydrate\<close> guarantee, and every movement keeps: an identity, a balance in
  the wallet's own supported currency that is never negative. The version is the number of
  movements plus one.
\<close>

definition wallet_ok :: "wallet \<Rightarrow> bool" where
  "wallet_ok w \<longleftrightarrow> w_id w \<noteq> '''' \<and> w_player_id w \<noteq> '''' \<and> is_supported (w_currency w) \<and>
     currency_of (w_balance w) = w_currency w \<and> 0 \<le> amount (w_balance w)"

lemma wallet_new_ok [ok_iff]:
  "wallet_new i = Inr w \<longleftrightarrow>
     ni_id i \<noteq> '''' \<and> ni_player_id i \<noteq> '''' \<and> \<not> is_zero_time (ni_occurred_at i) \<and>
     is_supported (ni_currency i) \<and>
     w = \<lparr>w_id = ni_id i, w_player_id = ni_player_id i, w_currency = ni_currency i,
          w_balance = \<lparr>minor_units = 0, currency_of = ni_currency i\<rparr>, w_version = 1,
          w_created_at = utc (ni_occurred_at i), w_updated_at = utc (ni_occurred_at i)\<rparr>"
  by (auto simp: wallet_new_def money_zero_def money_new_def min_int64_def Let_def)

lemma wallet_rehydrate_ok [ok_iff]:
  "wallet_rehydrate i = Inr w \<longleftrightarrow>
     rw_id i \<noteq> '''' \<and> rw_player_id i \<noteq> '''' \<and> 1 \<le> sint (rw_version i) \<and>
     \<not> is_zero_time (rw_created_at i) \<and> \<not> is_zero_time (rw_updated_at i) \<and>
     is_supported (rw_currency i) \<and> currency_of (rw_balance i) = rw_currency i \<and>
     0 \<le> amount (rw_balance i) \<and>
     w = \<lparr>w_id = rw_id i, w_player_id = rw_player_id i, w_currency = rw_currency i,
          w_balance = rw_balance i, w_version = rw_version i,
          w_created_at = utc (rw_created_at i), w_updated_at = utc (rw_updated_at i)\<rparr>"
  by (auto simp: wallet_rehydrate_def ok_iff word_sless_alt split: if_splits)

lemma wallet_open_ok [ok_iff]:
  "wallet_open i = Inr (w, oe) \<longleftrightarrow>
     oi_id i \<noteq> '''' \<and> oi_player_id i \<noteq> '''' \<and> \<not> is_zero_time (oi_occurred_at i) \<and>
     is_supported (oi_currency i) \<and> currency_of (oi_initial_balance i) = oi_currency i \<and>
     0 \<le> amount (oi_initial_balance i) \<and>
     (0 < amount (oi_initial_balance i) \<longrightarrow> oi_opening_transaction_id i \<noteq> '''' \<and> oi_ledger_entry_id i \<noteq> '''') \<and>
     w = \<lparr>w_id = oi_id i, w_player_id = oi_player_id i, w_currency = oi_currency i,
          w_balance = oi_initial_balance i, w_version = 1,
          w_created_at = utc (oi_occurred_at i), w_updated_at = utc (oi_occurred_at i)\<rparr> \<and>
     oe = (if amount (oi_initial_balance i) = 0 then None
           else Some \<lparr>le_id = oi_ledger_entry_id i, le_wallet_id = oi_id i,
             le_transaction_id = oi_opening_transaction_id i, le_direction = Credit,
             le_money = oi_initial_balance i,
             le_balance_before = \<lparr>minor_units = 0, currency_of = oi_currency i\<rparr>,
             le_balance_after = oi_initial_balance i, le_occurred_at = utc (oi_occurred_at i)\<rparr>)"
proof (cases "is_supported (oi_currency i) \<and> currency_of (oi_initial_balance i) = oi_currency i")
  case True
  let ?b = "amount (oi_initial_balance i)"
  have cmp: "money_compare (oi_initial_balance i) \<lparr>minor_units = 0, currency_of = oi_currency i\<rparr> = Inr (sgn ?b)"
    using True money_compare_comparable [of "oi_initial_balance i" "\<lparr>minor_units = 0, currency_of = oi_currency i\<rparr>"]
    by simp
  consider "?b < 0" | "?b = 0" | "0 < ?b" by linarith
  then show ?thesis
  proof cases
    case 1
    then show ?thesis using True by (auto simp: wallet_open_def ok_iff Let_def cmp)
  next
    case 2
    then have "oi_initial_balance i = \<lparr>minor_units = 0, currency_of = oi_currency i\<rparr>"
      using True by (cases "oi_initial_balance i") (simp add: sint64_eq_iff)
    then show ?thesis using True 2
      by (auto simp: wallet_open_def ok_iff Let_def money_compare_comparable)
  next
    case 3
    then show ?thesis using True by (auto simp: wallet_open_def ok_iff Let_def cmp signed_amount_def)
  qed
next
  case False
  then show ?thesis by (auto simp: wallet_open_def ok_iff Let_def split: if_splits)
qed

text \<open>The balance, the entry and the wallet a movement leads to.\<close>

definition moved_balance :: "direction \<Rightarrow> money \<Rightarrow> money \<Rightarrow> money" where
  "moved_balance d b m =
     \<lparr>minor_units = (if d = Debit then minor_units b - minor_units m else minor_units b + minor_units m),
      currency_of = currency_of b\<rparr>"

definition movement_entry :: "direction \<Rightarrow> wallet \<Rightarrow> movement_input \<Rightarrow> ledger_entry" where
  "movement_entry d w i =
     \<lparr>le_id = mi_ledger_entry_id i, le_wallet_id = w_id w, le_transaction_id = mi_transaction_id i,
      le_direction = d, le_money = mi_money i, le_balance_before = w_balance w,
      le_balance_after = moved_balance d (w_balance w) (mi_money i),
      le_occurred_at = utc (mi_occurred_at i)\<rparr>"

definition moved_wallet :: "direction \<Rightarrow> wallet \<Rightarrow> movement_input \<Rightarrow> wallet" where
  "moved_wallet d w i =
     w\<lparr>w_balance := moved_balance d (w_balance w) (mi_money i), w_version := w_version w + 1,
       w_updated_at := utc (mi_occurred_at i)\<rparr>"

text \<open>When a wallet can pay or receive an amount.\<close>

definition can_move :: "direction \<Rightarrow> wallet \<Rightarrow> movement_input \<Rightarrow> bool" where
  "can_move d w i \<longleftrightarrow>
     mi_ledger_entry_id i \<noteq> '''' \<and> mi_transaction_id i \<noteq> '''' \<and> \<not> is_zero_time (mi_occurred_at i) \<and>
     currency_of (mi_money i) = w_currency w \<and> 0 < amount (mi_money i) \<and>
     0 \<le> amount (w_balance w) + signed_amount d (mi_money i) \<and>
     amount (w_balance w) + signed_amount d (mi_money i) < 2 ^ 63"

lemma currency_moved_balance [simp]: "currency_of (moved_balance d b m) = currency_of b"
  by (simp add: moved_balance_def)

lemma amount_moved_balance:
  "0 \<le> amount b + signed_amount d m \<Longrightarrow> amount b + signed_amount d m < 2 ^ 63 \<Longrightarrow>
     amount (moved_balance d b m) = amount b + signed_amount d m"
  by (auto simp: moved_balance_def signed_amount_def sint64_add sint64_sub)

lemma money_eq_iff: "m = n \<longleftrightarrow> amount m = amount n \<and> currency_of m = currency_of n"
  by (cases m; cases n) (auto simp: sint64_eq_iff)

lemma money_debit_ok:
  assumes "is_supported (currency_of b)" "0 \<le> amount b" "currency_of m = currency_of b"
    "0 < amount m" "amount m \<le> amount b"
  shows "money_subtract b m = Inr (moved_balance Debit b m)"
proof -
  have ok: "money_ok b" using assms by (simp add: money_ok_nonneg)
  have "0 \<le> amount b + signed_amount Debit m" "amount b + signed_amount Debit m < 2 ^ 63"
    using assms sint64_upper [of "minor_units b"] by (simp_all add: signed_amount_def)
  from amount_moved_balance [OF this]
  show ?thesis using assms sint64_upper [of "minor_units b"]
    by (simp add: money_subtract_ok [OF ok] signed_amount_def)
qed

lemma money_credit_ok:
  assumes "is_supported (currency_of b)" "0 \<le> amount b" "currency_of m = currency_of b"
    "0 < amount m"
  shows "money_add b m = Inr r \<longleftrightarrow> amount b + amount m < 2 ^ 63 \<and> r = moved_balance Credit b m"
proof -
  have ok: "money_ok b" using assms by (simp add: money_ok_nonneg)
  have "amount b + amount m < 2 ^ 63 \<Longrightarrow> amount (moved_balance Credit b m) = amount b + amount m"
    using amount_moved_balance [of b Credit m] assms by (simp add: signed_amount_def)
  then show ?thesis using assms
    by (auto simp: money_add_ok [OF ok] money_eq_iff)
qed

lemma money_credit_overflow:
  assumes "is_supported (currency_of b)" "0 \<le> amount b" "currency_of m = currency_of b"
    "0 < amount m" "2 ^ 63 \<le> amount b + amount m"
  shows "money_add b m = Inl ErrOverflow"
proof -
  have ok: "money_ok b" "money_ok m" using assms by (simp_all add: money_ok_nonneg)
  have no: "money_add b m \<noteq> Inr r" for r
    using money_credit_ok [OF assms(1-4)] assms(5) by simp
  have "require_comparable b m = Inr ()"
    using ok assms(3) by (simp add: ok_iff money_ok_iff)
  then have "money_add b m = Inl ErrOverflow \<or> (\<exists>r. money_add b m = Inr r)"
    by (simp add: money_add_def Let_def)
  with no show ?thesis by blast
qed

lemma new_movement_entry_ok:
  assumes "wallet_ok w" "can_move d w i" "d = Debit \<or> d = Credit"
  shows "new_wallet_ledger_entry
      \<lparr>le_id = mi_ledger_entry_id i, le_wallet_id = w_id w, le_transaction_id = mi_transaction_id i,
       le_direction = d, le_money = mi_money i, le_balance_before = w_balance w,
       le_balance_after = moved_balance d (w_balance w) (mi_money i),
       le_occurred_at = mi_occurred_at i\<rparr> = Inr (movement_entry d w i)"
  using assms amount_moved_balance [of "w_balance w" d "mi_money i"]
  by (simp add: new_wallet_ledger_entry_ok wallet_ok_def can_move_def movement_entry_def)

lemma wallet_move_ok:
  assumes "wallet_ok w" and d: "d = Debit \<or> d = Credit"
  shows "wallet_move d (Some w) i = Inr (e, w') \<longleftrightarrow>
     can_move d w i \<and> e = movement_entry d w i \<and> w' = moved_wallet d w i"
proof (cases "can_move d w i")
  case True
  note entry = new_movement_entry_ok [OF assms(1) True d]
  have w: "is_supported (w_currency w)" "currency_of (w_balance w) = w_currency w"
    "0 \<le> amount (w_balance w)"
    using assms(1) by (auto simp: wallet_ok_def)
  have req: "require_currency (mi_money i) (w_currency w) = Inr ()"
    using True w by (simp add: ok_iff can_move_def)
  from d show ?thesis
  proof
    assume [simp]: "d = Debit"
    have "money_subtract (w_balance w) (mi_money i) = Inr (moved_balance Debit (w_balance w) (mi_money i))"
      using True w by (intro money_debit_ok) (simp_all add: can_move_def signed_amount_def)
    with True w req entry show ?thesis
      by (auto simp: wallet_move_def can_move_def signed_amount_def moved_wallet_def)
  next
    assume [simp]: "d = Credit"
    have "money_add (w_balance w) (mi_money i) = Inr (moved_balance Credit (w_balance w) (mi_money i))"
      using True w money_credit_ok [of "w_balance w" "mi_money i"]
      by (simp add: can_move_def signed_amount_def)
    with True w req entry show ?thesis
      by (auto simp: wallet_move_def can_move_def signed_amount_def moved_wallet_def)
  qed
next
  case False
  have w: "is_supported (w_currency w)" "currency_of (w_balance w) = w_currency w"
    "0 \<le> amount (w_balance w)"
    using assms(1) by (auto simp: wallet_ok_def)
  have "wallet_move d (Some w) i \<noteq> Inr (e, w')"
  proof
    assume *: "wallet_move d (Some w) i = Inr (e, w')"
    then have ids: "mi_ledger_entry_id i \<noteq> ''''" "mi_transaction_id i \<noteq> ''''"
        "\<not> is_zero_time (mi_occurred_at i)" "currency_of (mi_money i) = w_currency w"
        "0 < amount (mi_money i)"
      using w by (auto simp: wallet_move_def ok_iff split: if_splits)
    with * w d False show False
      using money_credit_ok [of "w_balance w" "mi_money i"] sint64_upper [of "minor_units (w_balance w)"]
      by (auto simp: wallet_move_def can_move_def signed_amount_def ok_iff split: if_splits)
  qed
  with False show ?thesis by simp
qed

lemmas wallet_debit_ok = wallet_move_ok [where d = Debit, folded wallet_debit_def]
lemmas wallet_credit_ok = wallet_move_ok [where d = Credit, folded wallet_credit_def]

lemma wallet_new_keeps_ok: "wallet_new i = Inr w \<Longrightarrow> wallet_ok w"
  by (auto simp: wallet_new_ok wallet_ok_def)

lemma wallet_rehydrate_keeps_ok: "wallet_rehydrate i = Inr w \<Longrightarrow> wallet_ok w"
  by (auto simp: wallet_rehydrate_ok wallet_ok_def)

lemma wallet_open_keeps_ok: "wallet_open i = Inr (w, oe) \<Longrightarrow> wallet_ok w"
  by (auto simp: wallet_open_ok wallet_ok_def)

lemma moved_wallet_keeps_ok: "wallet_ok w \<Longrightarrow> can_move d w i \<Longrightarrow> wallet_ok (moved_wallet d w i)"
  using amount_moved_balance [of "w_balance w" d "mi_money i"]
  by (simp add: wallet_ok_def can_move_def moved_wallet_def)

text \<open>An entry whose balances add up, whichever aggregate it came from.\<close>

definition entry_ok :: "ledger_entry \<Rightarrow> bool" where
  "entry_ok e \<longleftrightarrow> (le_direction e = Debit \<or> le_direction e = Credit) \<and> 0 < amount (le_money e) \<and>
     0 \<le> amount (le_balance_before e) \<and> 0 \<le> amount (le_balance_after e) \<and>
     is_supported (currency_of (le_money e)) \<and>
     currency_of (le_balance_before e) = currency_of (le_money e) \<and>
     currency_of (le_balance_after e) = currency_of (le_money e) \<and>
     amount (le_balance_after e) = amount (le_balance_before e) + signed_amount (le_direction e) (le_money e)"

lemma new_wallet_ledger_entry_keeps_ok: "new_wallet_ledger_entry i = Inr e \<Longrightarrow> entry_ok e"
  by (auto simp: new_wallet_ledger_entry_ok entry_ok_def)

lemma movement_entry_ok:
  "wallet_ok w \<Longrightarrow> can_move d w i \<Longrightarrow> d = Debit \<or> d = Credit \<Longrightarrow> entry_ok (movement_entry d w i)"
  using new_movement_entry_ok new_wallet_ledger_entry_keeps_ok by blast

section \<open>When the operations fail\<close>

lemma wallet_debit_poor:
  assumes "wallet_ok w"
  shows "wallet_debit (Some w) i = Inl ErrInsufficientFunds \<longleftrightarrow>
     mi_ledger_entry_id i \<noteq> '''' \<and> mi_transaction_id i \<noteq> '''' \<and> \<not> is_zero_time (mi_occurred_at i) \<and>
     currency_of (mi_money i) = w_currency w \<and> amount (w_balance w) < amount (mi_money i)"
proof -
  have w: "is_supported (w_currency w)" "currency_of (w_balance w) = w_currency w"
    "0 \<le> amount (w_balance w)"
    using assms by (auto simp: wallet_ok_def)
  let ?ids = "mi_ledger_entry_id i \<noteq> '''' \<and> mi_transaction_id i \<noteq> '''' \<and> \<not> is_zero_time (mi_occurred_at i)"
  consider (bad) "\<not> ?ids \<or> currency_of (mi_money i) \<noteq> w_currency w"
    | (zero) "?ids" "currency_of (mi_money i) = w_currency w" "amount (mi_money i) \<le> 0"
    | (poor) "?ids" "currency_of (mi_money i) = w_currency w" "0 < amount (mi_money i)"
        "amount (w_balance w) < amount (mi_money i)"
    | (paid) "?ids" "currency_of (mi_money i) = w_currency w" "0 < amount (mi_money i)"
        "amount (mi_money i) \<le> amount (w_balance w)"
    by linarith
  then show ?thesis
  proof cases
    case bad
    then show ?thesis
      by (auto simp: wallet_debit_def wallet_move_def require_currency_def money_currency_def bindE_def
        split: sum.splits)
  next
    case zero
    then have "require_currency (mi_money i) (w_currency w) = Inr ()" using w by (simp add: ok_iff)
    with zero w show ?thesis by (simp add: wallet_debit_def wallet_move_def)
  next
    case poor
    then have "require_currency (mi_money i) (w_currency w) = Inr ()" using w by (simp add: ok_iff)
    with poor w show ?thesis by (simp add: wallet_debit_def wallet_move_def)
  next
    case paid
    then have "can_move Debit w i"
      using w sint64_upper [of "minor_units (w_balance w)"] by (simp add: can_move_def signed_amount_def)
    then have "wallet_debit (Some w) i = Inr (movement_entry Debit w i, moved_wallet Debit w i)"
      by (simp add: wallet_debit_ok [OF assms])
    with paid show ?thesis by simp
  qed
qed

section \<open>Getters\<close>

definition wallet_id_of :: "wallet ptr \<Rightarrow> string" where "wallet_id_of = deref '''' w_id"
definition wallet_player_of :: "wallet ptr \<Rightarrow> string" where "wallet_player_of = deref '''' w_player_id"
definition wallet_currency_of :: "wallet ptr \<Rightarrow> currency" where "wallet_currency_of = deref '''' w_currency"
definition wallet_balance_of :: "wallet ptr \<Rightarrow> money" where "wallet_balance_of = deref zero_money w_balance"
definition wallet_version_of :: "wallet ptr \<Rightarrow> int64" where "wallet_version_of = deref 0 w_version"
definition wallet_created_of :: "wallet ptr \<Rightarrow> gotime" where "wallet_created_of = deref zero_time w_created_at"
definition wallet_updated_of :: "wallet ptr \<Rightarrow> gotime" where "wallet_updated_of = deref zero_time w_updated_at"

definition entry_id_of :: "ledger_entry ptr \<Rightarrow> string" where "entry_id_of = deref '''' le_id"
definition entry_wallet_of :: "ledger_entry ptr \<Rightarrow> string" where "entry_wallet_of = deref '''' le_wallet_id"
definition entry_transaction_of :: "ledger_entry ptr \<Rightarrow> string" where "entry_transaction_of = deref '''' le_transaction_id"
definition entry_direction_of :: "ledger_entry ptr \<Rightarrow> direction" where "entry_direction_of = deref '''' le_direction"
definition entry_money_of :: "ledger_entry ptr \<Rightarrow> money" where "entry_money_of = deref zero_money le_money"
definition entry_before_of :: "ledger_entry ptr \<Rightarrow> money" where "entry_before_of = deref zero_money le_balance_before"
definition entry_after_of :: "ledger_entry ptr \<Rightarrow> money" where "entry_after_of = deref zero_money le_balance_after"
definition entry_time_of :: "ledger_entry ptr \<Rightarrow> gotime" where "entry_time_of = deref zero_time le_occurred_at"

lemmas wallet_getter_defs [simp] =
  wallet_id_of_def wallet_player_of_def wallet_currency_of_def wallet_balance_of_def
  wallet_version_of_def wallet_created_of_def wallet_updated_of_def
  entry_id_of_def entry_wallet_of_def entry_transaction_of_def entry_direction_of_def
  entry_money_of_def entry_before_of_def entry_after_of_def entry_time_of_def

section \<open>Sequences of movements\<close>

text \<open>
  What any sequence of debits and credits does to a wallet: a movement that fails leaves the
  aggregate as it was and writes no entry, one that succeeds is one entry more.
\<close>

type_synonym movement = "direction \<times> movement_input"

definition step_movement :: "wallet \<times> ledger_entry list \<Rightarrow> movement \<Rightarrow> wallet \<times> ledger_entry list" where
  "step_movement s m =
     (case (if fst m = Debit then wallet_debit (Some (fst s)) (snd m) else wallet_credit (Some (fst s)) (snd m)) of
        Inl _ \<Rightarrow> s
      | Inr (e, w) \<Rightarrow> (w, snd s @ [e]))"

definition run_movements :: "wallet \<Rightarrow> movement list \<Rightarrow> wallet \<times> ledger_entry list" where
  "run_movements w ms = foldl step_movement (w, []) ms"

text \<open>Entries that start at balance \<open>b\<close>, each at the balance the one before it left.\<close>

fun chained :: "int \<Rightarrow> ledger_entry list \<Rightarrow> bool" where
  "chained b [] = True"
| "chained b (e # es) = (amount (le_balance_before e) = b \<and> chained (amount (le_balance_after e)) es)"

definition entry_sum :: "ledger_entry list \<Rightarrow> int" where
  "entry_sum es = (\<Sum>e\<leftarrow>es. signed_amount (le_direction e) (le_money e))"

lemma entry_sum_simps [simp]:
  "entry_sum [] = 0"
  "entry_sum (e # es) = signed_amount (le_direction e) (le_money e) + entry_sum es"
  "entry_sum (es @ fs) = entry_sum es + entry_sum fs"
  by (simp_all add: entry_sum_def)

lemma entry_ok_step:
  "entry_ok e \<Longrightarrow> amount (le_balance_after e) =
     amount (le_balance_before e) + signed_amount (le_direction e) (le_money e)"
  by (simp add: entry_ok_def)

lemma chained_end:
  "chained b es \<Longrightarrow> (\<forall>e \<in> set es. entry_ok e) \<Longrightarrow>
     chained b (es @ [e]) \<longleftrightarrow> amount (le_balance_before e) = b + entry_sum es"
proof (induction es arbitrary: b)
  case (Cons a es)
  have "chained (amount (le_balance_after a)) (es @ [e]) \<longleftrightarrow>
      amount (le_balance_before e) = amount (le_balance_after a) + entry_sum es"
    using Cons.prems by (intro Cons.IH) simp_all
  then show ?case using Cons.prems entry_ok_step [of a] by (simp add: add.assoc)
qed simp

definition movements_inv :: "wallet \<Rightarrow> wallet \<times> ledger_entry list \<Rightarrow> bool" where
  "movements_inv w s \<longleftrightarrow> wallet_ok (fst s) \<and> (\<forall>e \<in> set (snd s). entry_ok e \<and> le_wallet_id e = w_id w) \<and>
     chained (amount (w_balance w)) (snd s) \<and>
     amount (w_balance (fst s)) = amount (w_balance w) + entry_sum (snd s) \<and>
     w_version (fst s) = w_version w + of_nat (length (snd s)) \<and>
     w_id (fst s) = w_id w \<and> w_player_id (fst s) = w_player_id w \<and> w_currency (fst s) = w_currency w"

lemma step_movement_cases:
  assumes "wallet_ok (fst s)"
  obtains "step_movement s m = s"
  | d where "d = Debit \<or> d = Credit" "can_move d (fst s) (snd m)"
      "step_movement s m = (moved_wallet d (fst s) (snd m), snd s @ [movement_entry d (fst s) (snd m)])"
proof -
  define d where "d = (if fst m = Debit then Debit else Credit)"
  have d: "d = Debit \<or> d = Credit" by (simp add: d_def)
  have step: "step_movement s m = (case wallet_move d (Some (fst s)) (snd m) of
      Inl _ \<Rightarrow> s | Inr (e, w) \<Rightarrow> (w, snd s @ [e]))"
    by (simp add: step_movement_def d_def wallet_debit_def wallet_credit_def)
  show thesis
  proof (cases "can_move d (fst s) (snd m)")
    case True
    then have "wallet_move d (Some (fst s)) (snd m) =
        Inr (movement_entry d (fst s) (snd m), moved_wallet d (fst s) (snd m))"
      by (simp add: wallet_move_ok [OF assms d])
    with step True d that(2) show thesis by simp
  next
    case False
    then have "\<not> (\<exists>r. wallet_move d (Some (fst s)) (snd m) = Inr r)"
      by (auto simp: wallet_move_ok [OF assms d])
    then obtain f where "wallet_move d (Some (fst s)) (snd m) = Inl f"
      by (cases "wallet_move d (Some (fst s)) (snd m)") auto
    with step that(1) show thesis by simp
  qed
qed

lemma movements_inv_step:
  assumes "movements_inv w s"
  shows "movements_inv w (step_movement s m)"
proof -
  have ok: "wallet_ok (fst s)" using assms by (simp add: movements_inv_def)
  from ok show ?thesis
  proof (rule step_movement_cases [of s m])
    assume "step_movement s m = s"
    with assms show ?thesis by simp
  next
    fix d assume d: "d = Debit \<or> d = Credit" and can: "can_move d (fst s) (snd m)"
      and step: "step_movement s m =
        (moved_wallet d (fst s) (snd m), snd s @ [movement_entry d (fst s) (snd m)])"
    let ?e = "movement_entry d (fst s) (snd m)"
    have e: "entry_ok ?e" by (rule movement_entry_ok [OF ok can d])
    have new: "amount (moved_balance d (w_balance (fst s)) (mi_money (snd m))) =
        amount (w_balance (fst s)) + signed_amount d (mi_money (snd m))"
      using can by (intro amount_moved_balance) (simp_all add: can_move_def)
    have "chained (amount (w_balance w)) (snd s @ [?e])"
      using assms chained_end [of "amount (w_balance w)" "snd s" ?e]
      by (auto simp: movements_inv_def movement_entry_def)
    moreover have "wallet_ok (moved_wallet d (fst s) (snd m))"
      by (rule moved_wallet_keeps_ok [OF ok can])
    ultimately show ?thesis using assms e new
      by (auto simp: movements_inv_def step) (auto simp: movement_entry_def moved_wallet_def)
  qed
qed

lemma movements_inv_run: "wallet_ok w \<Longrightarrow> movements_inv w (run_movements w ms)"
proof -
  assume "wallet_ok w"
  then have "movements_inv w (w, [])" by (simp add: movements_inv_def)
  then have "movements_inv w (foldl step_movement (w, es) ms)" if "movements_inv w (w, es)" for es
    by (induction ms rule: rev_induct) (simp_all add: that movements_inv_step)
  then show ?thesis using \<open>movements_inv w (w, [])\<close> by (simp add: run_movements_def)
qed

section \<open>Properties\<close>

text \<open>
  C33: However many debits and credits are applied to a well-formed wallet, in whatever order and
  however many of them fail, the balance never goes negative, it equals the first balance plus the
  signed amounts of the entries written, every entry starts at the balance the previous one left
  and satisfies its own balance equation, and the version counts the entries.
\<close>
theorem wallet_movements_audit:
  assumes "wallet_ok w" and "run_movements w ms = (w', es)"
  shows "wallet_ok w' \<and> 0 \<le> amount (w_balance w') \<and>
     amount (w_balance w') = amount (w_balance w) + entry_sum es \<and>
     chained (amount (w_balance w)) es \<and> (\<forall>e \<in> set es. entry_ok e \<and> le_wallet_id e = w_id w) \<and>
     w_version w' = w_version w + of_nat (length es)"
proof -
  have "movements_inv w (w', es)"
    using movements_inv_run [OF assms(1), of ms] assms(2) by simp
  moreover from this have "0 \<le> amount (w_balance w')"
    by (simp add: movements_inv_def wallet_ok_def)
  ultimately show ?thesis by (simp add: movements_inv_def)
qed

definition sample_time :: gotime where
  "sample_time = \<lparr>instant = 63000000000000000000, location = ''UTC''\<rparr>"

definition sample_wallet :: wallet where
  "sample_wallet = \<lparr>w_id = ''w'', w_player_id = ''p'', w_currency = BRL,
     w_balance = \<lparr>minor_units = 100, currency_of = BRL\<rparr>, w_version = 1,
     w_created_at = sample_time, w_updated_at = sample_time\<rparr>"

definition sample_movement :: "string \<Rightarrow> int64 \<Rightarrow> movement_input" where
  "sample_movement n x = \<lparr>mi_ledger_entry_id = ''l'' @ n, mi_transaction_id = ''t'' @ n,
     mi_money = \<lparr>minor_units = x, currency_of = BRL\<rparr>, mi_occurred_at = sample_time\<rparr>"

lemmas sample_defs = sample_wallet_def sample_movement_def sample_time_def is_zero_time_def

lemma sample_wallet_ok: "wallet_ok sample_wallet"
  by (simp add: wallet_ok_def sample_defs is_supported_def)

theorem wallet_movements_audit_witness:
  "0 \<le> amount (w_balance (fst (run_movements sample_wallet
     [(Debit, sample_movement ''1'' 70), (Debit, sample_movement ''2'' 50), (Credit, sample_movement ''3'' 5)])))"
  using wallet_movements_audit [OF sample_wallet_ok,
      of "[(Debit, sample_movement ''1'' 70), (Debit, sample_movement ''2'' 50), (Credit, sample_movement ''3'' 5)]"]
  by (metis prod.collapse)

text \<open>
  C36: What a debit answers, in every case and in the order of the code: no wallet, a missing id or time, or money in
  no supported currency is \<open>ErrInvalidWallet\<close>, another currency than the wallet's is \<open>ErrCurrencyMismatch\<close>, an
  amount that is not positive is \<open>ErrInvalidLedgerEntry\<close>, and more than the balance is \<open>ErrInsufficientFunds\<close>.
  Otherwise it succeeds: the new balance is the exact difference, the version grows by one, nothing else of the wallet
  but its update time changes, and the well-formed entry records the ids, the amount and both balances.
\<close>
theorem wallet_debit_outcome:
  assumes "wallet_ok w"
  shows "wallet_debit None i = Inl ErrInvalidWallet \<and>
    (if mi_ledger_entry_id i = '''' \<or> mi_transaction_id i = '''' \<or> is_zero_time (mi_occurred_at i) \<or>
        \<not> is_supported (currency_of (mi_money i)) then wallet_debit (Some w) i = Inl ErrInvalidWallet
     else if currency_of (mi_money i) \<noteq> w_currency w then wallet_debit (Some w) i = Inl ErrCurrencyMismatch
     else if amount (mi_money i) \<le> 0 then wallet_debit (Some w) i = Inl ErrInvalidLedgerEntry
     else if amount (w_balance w) < amount (mi_money i) then wallet_debit (Some w) i = Inl ErrInsufficientFunds
     else \<exists>e w'. wallet_debit (Some w) i = Inr (e, w') \<and>
       amount (w_balance w') = amount (w_balance w) - amount (mi_money i) \<and>
       w_version w' = w_version w + 1 \<and> w_updated_at w' = utc (mi_occurred_at i) \<and>
       w' = w\<lparr>w_balance := w_balance w', w_version := w_version w', w_updated_at := w_updated_at w'\<rparr> \<and>
       le_id e = mi_ledger_entry_id i \<and> le_transaction_id e = mi_transaction_id i \<and> le_wallet_id e = w_id w \<and>
       le_direction e = Debit \<and> le_money e = mi_money i \<and> le_occurred_at e = utc (mi_occurred_at i) \<and>
       le_balance_before e = w_balance w \<and> le_balance_after e = w_balance w' \<and> entry_ok e)"
proof -
  have w: "is_supported (w_currency w)" "currency_of (w_balance w) = w_currency w" "0 \<le> amount (w_balance w)"
    using assms by (auto simp: wallet_ok_def)
  have none: "wallet_debit None i = Inl ErrInvalidWallet" by (simp add: wallet_debit_def wallet_move_def)
  let ?valid = "mi_ledger_entry_id i \<noteq> '''' \<and> mi_transaction_id i \<noteq> '''' \<and> \<not> is_zero_time (mi_occurred_at i) \<and>
    is_supported (currency_of (mi_money i))"
  consider (invalid) "\<not> ?valid \<or> currency_of (mi_money i) \<noteq> w_currency w \<or> amount (mi_money i) \<le> 0"
    | (poor) "?valid" "currency_of (mi_money i) = w_currency w" "0 < amount (mi_money i)" "amount (w_balance w) < amount (mi_money i)"
    | (paid) "?valid" "currency_of (mi_money i) = w_currency w" "0 < amount (mi_money i)" "amount (mi_money i) \<le> amount (w_balance w)"
    by linarith
  then show ?thesis
  proof cases
    case invalid
    then show ?thesis using w
      by (auto simp: wallet_debit_def wallet_move_def require_currency_def money_currency_def money_validate_def bindE_def)
  next
    case poor
    then have "wallet_debit (Some w) i = Inl ErrInsufficientFunds" using wallet_debit_poor [OF assms] by blast
    then show ?thesis using poor none by simp
  next
    case paid
    then have can: "can_move Debit w i"
      using w sint64_upper [of "minor_units (w_balance w)"] by (simp add: can_move_def signed_amount_def)
    then have "amount (moved_balance Debit (w_balance w) (mi_money i)) = amount (w_balance w) - amount (mi_money i)"
      using amount_moved_balance [of "w_balance w" Debit "mi_money i"] by (simp add: can_move_def signed_amount_def)
    then show ?thesis using paid none movement_entry_ok [OF assms can]
      by (simp add: wallet_debit_ok [OF assms] can) (simp add: movement_entry_def moved_wallet_def)
  qed
qed

theorem wallet_debit_outcome_witness:
  "wallet_debit (Some sample_wallet) (sample_movement ''1'' 101) = Inl ErrInsufficientFunds \<and>
   wallet_debit (Some sample_wallet) (sample_movement ''1'' 0) = Inl ErrInvalidLedgerEntry \<and>
   (\<exists>e w'. wallet_debit (Some sample_wallet) (sample_movement ''1'' 100) = Inr (e, w') \<and> amount (w_balance w') = 0)"
  using wallet_debit_outcome [OF sample_wallet_ok, of "sample_movement ''1'' 101"]
    wallet_debit_outcome [OF sample_wallet_ok, of "sample_movement ''1'' 0"]
    wallet_debit_outcome [OF sample_wallet_ok, of "sample_movement ''1'' 100"]
  by (auto simp: sample_defs is_supported_def)

text \<open>
  A credit in the wallet's currency succeeds exactly when the sum still fits an \<open>int64\<close>, and
  then adds exactly; a sum that would wrap around is the overflow error and leaves no entry.
\<close>
theorem wallet_credit_outcome:
  assumes "wallet_ok w"
    and "mi_ledger_entry_id i \<noteq> ''''" "mi_transaction_id i \<noteq> ''''" "\<not> is_zero_time (mi_occurred_at i)"
    and "currency_of (mi_money i) = w_currency w" "0 < amount (mi_money i)"
  shows "if 2 ^ 63 \<le> amount (w_balance w) + amount (mi_money i)
     then wallet_credit (Some w) i = Inl (WMoney ErrOverflow)
     else \<exists>e w'. wallet_credit (Some w) i = Inr (e, w') \<and>
       amount (w_balance w') = amount (w_balance w) + amount (mi_money i) \<and>
       w_version w' = w_version w + 1 \<and> le_direction e = Credit \<and> le_money e = mi_money i \<and>
       le_balance_before e = w_balance w \<and> le_balance_after e = w_balance w' \<and> entry_ok e"
proof (cases "2 ^ 63 \<le> amount (w_balance w) + amount (mi_money i)")
  case True
  have w: "is_supported (w_currency w)" "currency_of (w_balance w) = w_currency w"
    using assms(1) by (auto simp: wallet_ok_def)
  have "require_currency (mi_money i) (w_currency w) = Inr ()" using w assms by (simp add: ok_iff)
  moreover have "money_add (w_balance w) (mi_money i) = Inl ErrOverflow"
    using w assms True by (intro money_credit_overflow) (simp_all add: wallet_ok_def)
  ultimately show ?thesis using True assms w
    by (simp add: wallet_credit_def wallet_move_def)
next
  case False
  then have can: "can_move Credit w i"
    using assms by (simp add: can_move_def signed_amount_def wallet_ok_def)
  then have "amount (moved_balance Credit (w_balance w) (mi_money i)) = amount (w_balance w) + amount (mi_money i)"
    using amount_moved_balance [of "w_balance w" Credit "mi_money i"]
    by (simp add: can_move_def signed_amount_def)
  then show ?thesis using False movement_entry_ok [OF assms(1) can]
    by (simp add: wallet_credit_ok [OF assms(1)] can) (simp add: movement_entry_def moved_wallet_def)
qed

theorem wallet_credit_outcome_witness:
  "wallet_credit (Some sample_wallet) (sample_movement ''1'' max_int64) = Inl (WMoney ErrOverflow)"
  using wallet_credit_outcome [OF sample_wallet_ok, of "sample_movement ''1'' max_int64"]
  by (simp add: sample_defs)

text \<open>
  An opened wallet is well formed, at version 1, and its balance is what its ledger adds up to
  from zero: no entry for a zero balance, one credit of the whole amount otherwise.
\<close>
theorem wallet_open_audited:
  assumes "wallet_open i = Inr (w, oe)"
  shows "wallet_ok w \<and> w_version w = 1 \<and> w_balance w = oi_initial_balance i \<and>
     (let es = (case oe of None \<Rightarrow> [] | Some e \<Rightarrow> [e]) in
        chained 0 es \<and> amount (w_balance w) = entry_sum es \<and>
        (\<forall>e \<in> set es. entry_ok e \<and> le_wallet_id e = w_id w \<and> le_transaction_id e = oi_opening_transaction_id i))"
  using assms wallet_open_keeps_ok [OF assms]
  by (auto simp: wallet_open_ok entry_ok_def signed_amount_def)

definition sample_open :: open_input where
  "sample_open = \<lparr>oi_id = ''w'', oi_player_id = ''p'', oi_currency = BRL,
     oi_initial_balance = \<lparr>minor_units = 100, currency_of = BRL\<rparr>,
     oi_opening_transaction_id = ''t'', oi_ledger_entry_id = ''l'', oi_occurred_at = sample_time\<rparr>"

text \<open>What a store keeps of a wallet.\<close>

definition persisted_wallet :: "wallet \<Rightarrow> rehydrated_wallet" where
  "persisted_wallet w = \<lparr>rw_id = w_id w, rw_player_id = w_player_id w, rw_currency = w_currency w,
     rw_balance = w_balance w, rw_version = w_version w,
     rw_created_at = w_created_at w, rw_updated_at = w_updated_at w\<rparr>"

lemma rehydrate_persisted:
  "wallet_ok w \<Longrightarrow> 1 \<le> sint (w_version w) \<Longrightarrow> utc (w_created_at w) = w_created_at w \<Longrightarrow>
     utc (w_updated_at w) = w_updated_at w \<Longrightarrow> \<not> is_zero_time (w_created_at w) \<Longrightarrow>
     \<not> is_zero_time (w_updated_at w) \<Longrightarrow> wallet_rehydrate (persisted_wallet w) = Inr w"
  by (simp add: wallet_rehydrate_ok wallet_ok_def persisted_wallet_def)

text \<open>
  Storing a wallet after a successful movement and rehydrating it gives back the same wallet.
\<close>
theorem wallet_rehydrate_after_move:
  assumes "wallet_rehydrate i = Inr w" and "d = Debit \<or> d = Credit"
    and "wallet_move d (Some w) mi = Inr (e, w')" and "sint (w_version w) < 2 ^ 63 - 1"
  shows "wallet_rehydrate (persisted_wallet w') = Inr w'"
proof (rule rehydrate_persisted)
  have ok: "wallet_ok w" by (rule wallet_rehydrate_keeps_ok [OF assms(1)])
  have move: "can_move d w mi" "w' = moved_wallet d w mi"
    using assms(3) by (simp_all add: wallet_move_ok [OF ok assms(2)])
  then show "wallet_ok w'" using moved_wallet_keeps_ok [OF ok] by simp
  have "sint (w_version w + 1) = sint (w_version w) + 1"
    using sint64_add [of "w_version w" 1] assms(4) sint64_lower [of "w_version w"] by simp
  then show "1 \<le> sint (w_version w')"
    using assms(1) by (simp add: wallet_rehydrate_ok move(2) moved_wallet_def)
  show "utc (w_created_at w') = w_created_at w'" "utc (w_updated_at w') = w_updated_at w'"
    "\<not> is_zero_time (w_created_at w')" "\<not> is_zero_time (w_updated_at w')"
    using assms(1) move by (auto simp: wallet_rehydrate_ok moved_wallet_def can_move_def)
qed

end
