(* ===== verification/WagerTransaction.thy ===== *)
theory WagerTransaction
  imports Wallet
begin

text \<open>
  The wager transaction and its lifecycle, \<open>internal/domain/wallet/wager_transaction.go\<close>. Kinds,
  origins and statuses are Go strings; the constants keep their names. A method on
  \<open>*WagerTransaction\<close> takes the pointer, and the new value of the transaction is its result.
\<close>

section \<open>Types\<close>

type_synonym wager_kind = string
type_synonym transaction_origin = string
type_synonym transaction_status = string

abbreviation Opening :: wager_kind where "Opening \<equiv> ''OPENING''"
abbreviation Bet :: wager_kind where "Bet \<equiv> ''BET''"
abbreviation Win :: wager_kind where "Win \<equiv> ''WIN''"
abbreviation Loss :: wager_kind where "Loss \<equiv> ''LOSS''"
abbreviation Refund :: wager_kind where "Refund \<equiv> ''REFUND''"
abbreviation Rollback :: wager_kind where "Rollback \<equiv> ''ROLLBACK''"

abbreviation Internal :: transaction_origin where "Internal \<equiv> ''INTERNAL''"
abbreviation External :: transaction_origin where "External \<equiv> ''EXTERNAL''"

abbreviation Pending :: transaction_status where "Pending \<equiv> ''PENDING''"
abbreviation Processed :: transaction_status where "Processed \<equiv> ''PROCESSED''"
abbreviation Rejected :: transaction_status where "Rejected \<equiv> ''REJECTED''"
abbreviation Failed :: transaction_status where "Failed \<equiv> ''FAILED''"
abbreviation PendingReference :: transaction_status where "PendingReference \<equiv> ''PENDING_REFERENCE''"

record external_input =
  xi_id :: string
  xi_external_id :: string
  xi_provider_id :: string
  xi_key :: string
  xi_hash :: string
  xi_wallet_id :: string
  xi_player_id :: string
  xi_round_id :: string
  xi_game_id :: string
  xi_kind :: wager_kind
  xi_money :: money
  xi_ref_external :: string
  xi_ref_id :: string
  xi_created_at :: gotime

record opening_input =
  pi_id :: string
  pi_wallet_id :: string
  pi_player_id :: string
  pi_money :: money
  pi_created_at :: gotime

record wager_transaction =
  wt_id :: string
  wt_external_id :: string
  wt_provider_id :: string
  wt_key :: string
  wt_hash :: string
  wt_wallet_id :: string
  wt_player_id :: string
  wt_round_id :: string
  wt_game_id :: string
  wt_kind :: wager_kind
  wt_origin :: transaction_origin
  wt_money :: money
  wt_ref_external :: string
  wt_ref_id :: string
  wt_status :: transaction_status
  wt_failure :: string
  wt_created_at :: gotime
  wt_updated_at :: gotime

text \<open>\<open>RehydratedTransaction\<close> has the fields of \<open>WagerTransaction\<close>, exported.\<close>

type_synonym rehydrated_transaction = wager_transaction

section \<open>Validation\<close>

definition is_kind :: "string \<Rightarrow> bool" where
  "is_kind k \<longleftrightarrow> k = Opening \<or> k = Bet \<or> k = Win \<or> k = Loss \<or> k = Refund \<or> k = Rollback"

definition is_status :: "string \<Rightarrow> bool" where
  "is_status s \<longleftrightarrow> s = Pending \<or> s = Processed \<or> s = Rejected \<or> s = Failed \<or> s = PendingReference"

definition validate_non_negative_money :: "money \<Rightarrow> wallet_error + unit" where
  "validate_non_negative_money m =
     (case money_currency m of Inl _ \<Rightarrow> Inl ErrInvalidTransaction | Inr c \<Rightarrow>
      case money_compare m (zero_of c) of Inl _ \<Rightarrow> Inl ErrInvalidTransaction | Inr k \<Rightarrow>
      if k < 0 then Inl ErrInvalidTransaction else Inr ())"

definition tx_validate :: "wager_transaction ptr \<Rightarrow> wallet_error + unit" where
  "tx_validate p = (case p of None \<Rightarrow> Inl ErrInvalidTransaction | Some t \<Rightarrow>
     if wt_id t = '''' \<or> wt_wallet_id t = '''' \<or> wt_player_id t = '''' \<or> is_zero_time (wt_created_at t) \<or>
        is_zero_time (wt_updated_at t) \<or> \<not> is_kind (wt_kind t) \<or> \<not> is_status (wt_status t)
     then Inl ErrInvalidTransaction
     else bindE (validate_non_negative_money (wt_money t)) (\<lambda>_.
     bindE
       (if wt_origin t = Internal then
          (if wt_kind t \<noteq> Opening \<or> wt_external_id t \<noteq> '''' \<or> wt_provider_id t \<noteq> '''' \<or> wt_key t \<noteq> '''' \<or>
              wt_hash t \<noteq> '''' \<or> wt_round_id t \<noteq> '''' \<or> wt_game_id t \<noteq> '''' \<or>
              wt_ref_external t \<noteq> '''' \<or> wt_ref_id t \<noteq> ''''
           then Inl ErrInvalidTransaction else Inr ())
        else if wt_origin t = External then
          (if wt_kind t = Opening \<or> wt_external_id t = '''' \<or> wt_provider_id t = '''' \<or> wt_key t = '''' \<or>
              wt_hash t = '''' \<or> wt_round_id t = '''' \<or> wt_game_id t = ''''
           then Inl ErrInvalidTransaction else Inr ())
        else Inl ErrInvalidTransaction) (\<lambda>_.
     if (wt_kind t = Refund \<or> wt_kind t = Rollback) \<and> wt_ref_external t = ''''
     then Inl ErrInvalidTransaction
     else if (wt_status t = Rejected \<or> wt_status t = Failed) \<noteq> (wt_failure t \<noteq> '''')
     then Inl ErrInvalidTransaction
     else if (wt_status t = Pending \<or> wt_status t = PendingReference \<or> wt_status t = Processed) \<and> wt_failure t \<noteq> ''''
     then Inl ErrInvalidTransaction
     else Inr ())))"

section \<open>Constructors\<close>

definition new_external_transaction :: "external_input \<Rightarrow> wallet_error + wager_transaction" where
  "new_external_transaction i =
     (let t = \<lparr>wt_id = xi_id i, wt_external_id = xi_external_id i, wt_provider_id = xi_provider_id i,
        wt_key = xi_key i, wt_hash = xi_hash i, wt_wallet_id = xi_wallet_id i,
        wt_player_id = xi_player_id i, wt_round_id = xi_round_id i, wt_game_id = xi_game_id i,
        wt_kind = xi_kind i, wt_origin = External, wt_money = xi_money i,
        wt_ref_external = xi_ref_external i, wt_ref_id = xi_ref_id i, wt_status = Pending,
        wt_failure = '''', wt_created_at = utc (xi_created_at i), wt_updated_at = utc (xi_created_at i)\<rparr>
      in bindE (tx_validate (Some t)) (\<lambda>_. Inr t))"

definition new_opening_transaction :: "opening_input \<Rightarrow> wallet_error + wager_transaction" where
  "new_opening_transaction i =
     (let t = \<lparr>wt_id = pi_id i, wt_external_id = '''', wt_provider_id = '''',
        wt_key = '''', wt_hash = '''', wt_wallet_id = pi_wallet_id i,
        wt_player_id = pi_player_id i, wt_round_id = '''', wt_game_id = '''',
        wt_kind = Opening, wt_origin = Internal, wt_money = pi_money i,
        wt_ref_external = '''', wt_ref_id = '''', wt_status = Pending,
        wt_failure = '''', wt_created_at = utc (pi_created_at i), wt_updated_at = utc (pi_created_at i)\<rparr>
      in bindE (tx_validate (Some t)) (\<lambda>_. Inr t))"

definition rehydrate_transaction :: "rehydrated_transaction \<Rightarrow> wallet_error + wager_transaction" where
  "rehydrate_transaction i =
     (let t = i\<lparr>wt_created_at := utc (wt_created_at i), wt_updated_at := utc (wt_updated_at i)\<rparr>
      in bindE (tx_validate (Some t)) (\<lambda>_. Inr t))"

section \<open>Transitions\<close>

definition is_allowed_transition :: "transaction_status \<Rightarrow> transaction_status \<Rightarrow> bool" where
  "is_allowed_transition f t =
     (if f = Pending then t = Processed \<or> t = Rejected \<or> t = Failed \<or> t = PendingReference
      else f = PendingReference \<and> (t = Processed \<or> t = Rejected \<or> t = Failed))"

definition tx_transition ::
    "wager_transaction ptr \<Rightarrow> transaction_status \<Rightarrow> string \<Rightarrow> gotime \<Rightarrow> wallet_error + wager_transaction" where
  "tx_transition p next code at =
     (case p of None \<Rightarrow> Inl ErrInvalidTransition | Some t \<Rightarrow>
      if is_zero_time at then Inl ErrInvalidTransition
      else if \<not> is_allowed_transition (wt_status t) next then Inl ErrInvalidTransition
      else if (next = Rejected \<or> next = Failed) \<and> code = '''' then Inl ErrInvalidTransaction
      else if (next = Processed \<or> next = PendingReference) \<and> code \<noteq> '''' then Inl ErrInvalidTransaction
      else Inr (t\<lparr>wt_status := next, wt_failure := code, wt_updated_at := utc at\<rparr>))"

definition mark_processed :: "wager_transaction ptr \<Rightarrow> gotime \<Rightarrow> wallet_error + wager_transaction" where
  "mark_processed p at = tx_transition p Processed '''' at"

definition mark_rejected :: "wager_transaction ptr \<Rightarrow> string \<Rightarrow> gotime \<Rightarrow> wallet_error + wager_transaction" where
  "mark_rejected p code at = tx_transition p Rejected code at"

definition mark_failed :: "wager_transaction ptr \<Rightarrow> string \<Rightarrow> gotime \<Rightarrow> wallet_error + wager_transaction" where
  "mark_failed p code at = tx_transition p Failed code at"

definition mark_pending_reference :: "wager_transaction ptr \<Rightarrow> gotime \<Rightarrow> wallet_error + wager_transaction" where
  "mark_pending_reference p at = tx_transition p PendingReference '''' at"

definition resolve_reference :: "wager_transaction ptr \<Rightarrow> string \<Rightarrow> wallet_error + wager_transaction" where
  "resolve_reference p ref =
     (case p of None \<Rightarrow> Inl ErrInvalidTransition | Some t \<Rightarrow>
      if wt_status t \<noteq> PendingReference \<or> ref = '''' \<or> wt_ref_id t \<noteq> '''' then Inl ErrInvalidTransition
      else Inr (t\<lparr>wt_ref_id := ref\<rparr>))"

section \<open>Getters\<close>

definition tx_id_of :: "wager_transaction ptr \<Rightarrow> string" where "tx_id_of = deref '''' wt_id"
definition tx_external_of :: "wager_transaction ptr \<Rightarrow> string" where "tx_external_of = deref '''' wt_external_id"
definition tx_provider_of :: "wager_transaction ptr \<Rightarrow> string" where "tx_provider_of = deref '''' wt_provider_id"
definition tx_key_of :: "wager_transaction ptr \<Rightarrow> string" where "tx_key_of = deref '''' wt_key"
definition tx_hash_of :: "wager_transaction ptr \<Rightarrow> string" where "tx_hash_of = deref '''' wt_hash"
definition tx_wallet_of :: "wager_transaction ptr \<Rightarrow> string" where "tx_wallet_of = deref '''' wt_wallet_id"
definition tx_player_of :: "wager_transaction ptr \<Rightarrow> string" where "tx_player_of = deref '''' wt_player_id"
definition tx_round_of :: "wager_transaction ptr \<Rightarrow> string" where "tx_round_of = deref '''' wt_round_id"
definition tx_game_of :: "wager_transaction ptr \<Rightarrow> string" where "tx_game_of = deref '''' wt_game_id"
definition tx_kind_of :: "wager_transaction ptr \<Rightarrow> string" where "tx_kind_of = deref '''' wt_kind"
definition tx_origin_of :: "wager_transaction ptr \<Rightarrow> string" where "tx_origin_of = deref '''' wt_origin"
definition tx_money_of :: "wager_transaction ptr \<Rightarrow> money" where "tx_money_of = deref zero_money wt_money"
definition tx_ref_external_of :: "wager_transaction ptr \<Rightarrow> string" where "tx_ref_external_of = deref '''' wt_ref_external"
definition tx_ref_of :: "wager_transaction ptr \<Rightarrow> string" where "tx_ref_of = deref '''' wt_ref_id"
definition tx_status_of :: "wager_transaction ptr \<Rightarrow> string" where "tx_status_of = deref '''' wt_status"
definition tx_failure_of :: "wager_transaction ptr \<Rightarrow> string" where "tx_failure_of = deref '''' wt_failure"
definition tx_created_of :: "wager_transaction ptr \<Rightarrow> gotime" where "tx_created_of = deref zero_time wt_created_at"
definition tx_updated_of :: "wager_transaction ptr \<Rightarrow> gotime" where "tx_updated_of = deref zero_time wt_updated_at"

lemmas tx_getter_defs [simp] =
  tx_id_of_def tx_external_of_def tx_provider_of_def tx_key_of_def tx_hash_of_def tx_wallet_of_def
  tx_player_of_def tx_round_of_def tx_game_of_def tx_kind_of_def tx_origin_of_def tx_money_of_def
  tx_ref_external_of_def tx_ref_of_def tx_status_of_def tx_failure_of_def tx_created_of_def
  tx_updated_of_def

section \<open>When the operations succeed\<close>

text \<open>The invariant \<open>validate\<close> checks, with the two redundant status tests merged.\<close>

definition tx_ok :: "wager_transaction \<Rightarrow> bool" where
  "tx_ok t \<longleftrightarrow> wt_id t \<noteq> '''' \<and> wt_wallet_id t \<noteq> '''' \<and> wt_player_id t \<noteq> '''' \<and>
     \<not> is_zero_time (wt_created_at t) \<and> \<not> is_zero_time (wt_updated_at t) \<and>
     is_kind (wt_kind t) \<and> is_status (wt_status t) \<and>
     is_supported (currency_of (wt_money t)) \<and> 0 \<le> amount (wt_money t) \<and>
     ((wt_origin t = Internal \<and> wt_kind t = Opening \<and> wt_external_id t = '''' \<and> wt_provider_id t = '''' \<and>
       wt_key t = '''' \<and> wt_hash t = '''' \<and> wt_round_id t = '''' \<and> wt_game_id t = '''' \<and>
       wt_ref_external t = '''' \<and> wt_ref_id t = '''') \<or>
      (wt_origin t = External \<and> wt_kind t \<noteq> Opening \<and> wt_external_id t \<noteq> '''' \<and> wt_provider_id t \<noteq> '''' \<and>
       wt_key t \<noteq> '''' \<and> wt_hash t \<noteq> '''' \<and> wt_round_id t \<noteq> '''' \<and> wt_game_id t \<noteq> '''')) \<and>
     (wt_kind t = Refund \<or> wt_kind t = Rollback \<longrightarrow> wt_ref_external t \<noteq> '''') \<and>
     (wt_status t = Rejected \<or> wt_status t = Failed \<longleftrightarrow> wt_failure t \<noteq> '''')"

lemma validate_non_negative_money_ok [ok_iff]:
  "validate_non_negative_money m = Inr u \<longleftrightarrow> is_supported (currency_of m) \<and> 0 \<le> amount m"
proof (cases "is_supported (currency_of m) \<and> 0 \<le> amount m")
  case True
  then have "money_currency m = Inr (currency_of m)"
    by (simp add: money_currency_ok money_ok_nonneg)
  with True show ?thesis by (simp add: validate_non_negative_money_def money_compare_comparable)
next
  case False
  then show ?thesis
    by (auto simp: validate_non_negative_money_def money_currency_def money_validate_def
        money_compare_comparable split: sum.splits if_splits)
qed

lemma tx_validate_ok [ok_iff]: "tx_validate (Some t) = Inr u \<longleftrightarrow> tx_ok t"
  by (auto simp: tx_validate_def tx_ok_def is_status_def ok_iff split: if_splits)

lemma new_external_transaction_ok [ok_iff]:
  "new_external_transaction i = Inr t \<longleftrightarrow> tx_ok t \<and>
     t = \<lparr>wt_id = xi_id i, wt_external_id = xi_external_id i, wt_provider_id = xi_provider_id i,
        wt_key = xi_key i, wt_hash = xi_hash i, wt_wallet_id = xi_wallet_id i,
        wt_player_id = xi_player_id i, wt_round_id = xi_round_id i, wt_game_id = xi_game_id i,
        wt_kind = xi_kind i, wt_origin = External, wt_money = xi_money i,
        wt_ref_external = xi_ref_external i, wt_ref_id = xi_ref_id i, wt_status = Pending,
        wt_failure = '''', wt_created_at = utc (xi_created_at i), wt_updated_at = utc (xi_created_at i)\<rparr>"
  by (auto simp: new_external_transaction_def Let_def ok_iff)

lemma new_opening_transaction_ok [ok_iff]:
  "new_opening_transaction i = Inr t \<longleftrightarrow> tx_ok t \<and>
     t = \<lparr>wt_id = pi_id i, wt_external_id = '''', wt_provider_id = '''',
        wt_key = '''', wt_hash = '''', wt_wallet_id = pi_wallet_id i,
        wt_player_id = pi_player_id i, wt_round_id = '''', wt_game_id = '''',
        wt_kind = Opening, wt_origin = Internal, wt_money = pi_money i,
        wt_ref_external = '''', wt_ref_id = '''', wt_status = Pending,
        wt_failure = '''', wt_created_at = utc (pi_created_at i), wt_updated_at = utc (pi_created_at i)\<rparr>"
  by (auto simp: new_opening_transaction_def Let_def ok_iff)

lemma rehydrate_transaction_ok [ok_iff]:
  "rehydrate_transaction i = Inr t \<longleftrightarrow> tx_ok t \<and>
     t = i\<lparr>wt_created_at := utc (wt_created_at i), wt_updated_at := utc (wt_updated_at i)\<rparr>"
  by (auto simp: rehydrate_transaction_def Let_def ok_iff)

lemma tx_transition_ok [ok_iff]:
  "tx_transition (Some t) next code at = Inr t' \<longleftrightarrow>
     \<not> is_zero_time at \<and> is_allowed_transition (wt_status t) next \<and>
     (next = Rejected \<or> next = Failed \<longleftrightarrow> code \<noteq> '''') \<and>
     t' = t\<lparr>wt_status := next, wt_failure := code, wt_updated_at := utc at\<rparr>"
  by (auto simp: tx_transition_def is_allowed_transition_def split: if_splits)

lemma resolve_reference_ok [ok_iff]:
  "resolve_reference (Some t) ref = Inr t' \<longleftrightarrow>
     wt_status t = PendingReference \<and> ref \<noteq> '''' \<and> wt_ref_id t = '''' \<and> t' = t\<lparr>wt_ref_id := ref\<rparr>"
  by (auto simp: resolve_reference_def split: if_splits)

lemmas mark_defs = mark_processed_def mark_rejected_def mark_failed_def mark_pending_reference_def

section \<open>The lifecycle\<close>

text \<open>One successful call of a mutating method; no other code writes a field of a transaction.\<close>

inductive tx_step :: "wager_transaction \<Rightarrow> wager_transaction \<Rightarrow> bool" where
  processed: "mark_processed (Some t) at = Inr t' \<Longrightarrow> tx_step t t'"
| rejected: "mark_rejected (Some t) code at = Inr t' \<Longrightarrow> tx_step t t'"
| failed: "mark_failed (Some t) code at = Inr t' \<Longrightarrow> tx_step t t'"
| pending_reference: "mark_pending_reference (Some t) at = Inr t' \<Longrightarrow> tx_step t t'"
| resolved: "resolve_reference (Some t) ref = Inr t' \<Longrightarrow> tx_step t t'"

inductive_cases tx_stepE: "tx_step t t'"

definition is_terminal :: "transaction_status \<Rightarrow> bool" where
  "is_terminal s \<longleftrightarrow> s = Processed \<or> s = Rejected \<or> s = Failed"

text \<open>The request's own data, which no step may touch.\<close>

definition same_request :: "wager_transaction \<Rightarrow> wager_transaction \<Rightarrow> bool" where
  "same_request t u \<longleftrightarrow>
     u = t\<lparr>wt_ref_id := wt_ref_id u, wt_status := wt_status u, wt_failure := wt_failure u,
           wt_updated_at := wt_updated_at u\<rparr>"

lemma same_request_refl [simp]: "same_request t t"
  by (simp add: same_request_def)

lemma same_request_trans: "same_request t u \<Longrightarrow> same_request u v \<Longrightarrow> same_request t v"
  by (cases t; cases u; cases v) (simp add: same_request_def)

text \<open>How many steps a transaction can still take.\<close>

definition tx_fuel :: "wager_transaction \<Rightarrow> nat" where
  "tx_fuel t = (if wt_status t = Pending then (if wt_ref_id t = '''' then 3 else 2)
                else if wt_status t = PendingReference then (if wt_ref_id t = '''' then 2 else 1)
                else 0)"

lemmas tx_step_simps = mark_defs tx_transition_ok resolve_reference_ok is_allowed_transition_def

lemma tx_step_same_request: "tx_step t u \<Longrightarrow> same_request t u"
  by (erule tx_stepE) (auto simp: tx_step_simps same_request_def)

lemma tx_step_fuel: "tx_step t u \<Longrightarrow> tx_fuel u < tx_fuel t"
  by (erule tx_stepE) (auto simp: tx_step_simps tx_fuel_def split: if_splits)

lemma tx_ok_update:
  "tx_ok t \<Longrightarrow> is_status s \<Longrightarrow> (s = Rejected \<or> s = Failed \<longleftrightarrow> code \<noteq> '''') \<Longrightarrow> \<not> is_zero_time at \<Longrightarrow>
     tx_ok (t\<lparr>wt_status := s, wt_failure := code, wt_updated_at := utc at\<rparr>)"
  by (auto simp: tx_ok_def)

lemma allowed_is_status: "is_allowed_transition s s' \<Longrightarrow> is_status s'"
  by (auto simp: is_allowed_transition_def is_status_def split: if_splits)

lemma tx_transition_keeps_ok:
  "tx_ok t \<Longrightarrow> tx_transition (Some t) s code at = Inr u \<Longrightarrow> tx_ok u"
  using tx_ok_update [of t s code at] by (auto simp: tx_transition_ok allowed_is_status)

text \<open>
  An internal transaction cannot wait for a reference: the code never marks an opening pending, and
  the domain model does not forbid it. Its invariant is therefore kept by the steps of an external
  one, and by those of an internal one that is not waiting.
\<close>

lemma tx_step_keeps_ok:
  assumes "tx_ok t" "tx_step t u" "wt_origin t = External \<or> wt_status t \<noteq> PendingReference"
  shows "tx_ok u"
  using assms(2)
proof (rule tx_stepE)
  fix ref assume "resolve_reference (Some t) ref = Inr u"
  then show ?thesis using assms(1,3) by (auto simp: resolve_reference_ok tx_ok_def)
qed (use assms(1) tx_transition_keeps_ok in \<open>auto simp: mark_defs\<close>)

lemma tx_steps_external:
  "tx_step\<^sup>*\<^sup>* t u \<Longrightarrow> tx_ok t \<Longrightarrow> wt_origin t = External \<Longrightarrow> tx_ok u \<and> same_request t u \<and> wt_origin u = External"
proof (induction rule: rtranclp_induct)
  case (step u v)
  have "same_request u v" by (rule tx_step_same_request [OF step.hyps(2)])
  moreover from this have "wt_origin v = wt_origin u" by (cases u; cases v) (simp add: same_request_def)
  ultimately show ?case using step tx_step_keeps_ok [of u v] same_request_trans by auto
qed simp

lemma tx_steps_fuel: "(tx_step ^^ n) t u \<Longrightarrow> n + tx_fuel u \<le> tx_fuel t"
proof (induction n arbitrary: u)
  case (Suc n)
  then obtain v where v: "(tx_step ^^ n) t v" "tx_step v u" by auto
  from Suc.IH [OF v(1)] tx_step_fuel [OF v(2)] show ?case by simp
qed simp

lemma tx_terminal_stuck: "is_terminal (wt_status t) \<Longrightarrow> \<not> tx_step t u"
  using tx_step_fuel [of t u] by (auto simp: tx_fuel_def is_terminal_def)

lemma tx_terminal_final: "tx_step\<^sup>*\<^sup>* t u \<Longrightarrow> is_terminal (wt_status t) \<Longrightarrow> u = t"
  by (induction rule: converse_rtranclp_induct) (auto dest: tx_terminal_stuck)

section \<open>Properties\<close>

text \<open>
  C37: From a valid provider transaction every sequence of status changes keeps it valid and never
  touches the request it records (ids, key, hash, kind, money, reference name, creation time).
\<close>
theorem tx_lifecycle_keeps_request:
  assumes "new_external_transaction i = Inr t" and "tx_step\<^sup>*\<^sup>* t u"
  shows "tx_ok u \<and> same_request t u"
  using assms tx_steps_external [of t u] by (auto simp: new_external_transaction_ok)

definition sample_external :: external_input where
  "sample_external = \<lparr>xi_id = ''t'', xi_external_id = ''x'', xi_provider_id = ''pr'', xi_key = ''k'',
     xi_hash = ''h'', xi_wallet_id = ''w'', xi_player_id = ''p'', xi_round_id = ''r'', xi_game_id = ''g'',
     xi_kind = Refund, xi_money = \<lparr>minor_units = 30, currency_of = BRL\<rparr>, xi_ref_external = ''b'',
     xi_ref_id = '''', xi_created_at = sample_time\<rparr>"

lemma sample_external_ok: "\<exists>t. new_external_transaction sample_external = Inr t \<and> wt_status t = Pending \<and> wt_ref_id t = ''''"
  by (simp add: new_external_transaction_ok sample_external_def tx_ok_def is_kind_def is_status_def
      is_supported_def sample_time_def is_zero_time_def)

theorem tx_lifecycle_keeps_request_witness:
  "\<exists>t u. new_external_transaction sample_external = Inr t \<and> tx_step\<^sup>*\<^sup>* t u \<and> wt_status u = PendingReference \<and>
     tx_ok u \<and> same_request t u"
proof -
  obtain t where t: "new_external_transaction sample_external = Inr t" "wt_status t = Pending"
    using sample_external_ok by blast
  define u where "u = t\<lparr>wt_status := PendingReference, wt_failure := '''', wt_updated_at := utc sample_time\<rparr>"
  have "mark_pending_reference (Some t) sample_time = Inr u"
    using t by (simp add: tx_step_simps u_def sample_time_def is_zero_time_def)
  then have step: "tx_step\<^sup>*\<^sup>* t u" by (auto intro: tx_step.pending_reference)
  from tx_lifecycle_keeps_request [OF t(1) step] t(1) step show ?thesis
    by (auto simp: u_def)
qed

text \<open>
  A lifecycle ends: no sequence of status changes and reference resolutions is longer than three.
\<close>
theorem tx_lifecycle_ends:
  assumes "(tx_step ^^ n) t u"
  shows "n \<le> 3"
  using tx_steps_fuel [OF assms] by (simp add: tx_fuel_def split: if_splits)

theorem tx_lifecycle_ends_witness:
  "\<exists>t u. new_external_transaction sample_external = Inr t \<and> (tx_step ^^ 3) t u \<and> (3 :: nat) \<le> 3"
proof -
  obtain t where t: "new_external_transaction sample_external = Inr t" "wt_status t = Pending" "wt_ref_id t = ''''"
    using sample_external_ok by blast
  define u where "u = t\<lparr>wt_status := PendingReference, wt_failure := '''', wt_updated_at := utc sample_time\<rparr>"
  define v where "v = u\<lparr>wt_ref_id := ''b''\<rparr>"
  define x where "x = v\<lparr>wt_status := Processed, wt_failure := '''', wt_updated_at := utc sample_time\<rparr>"
  have "mark_pending_reference (Some t) sample_time = Inr u"
    using t by (simp add: tx_step_simps u_def sample_time_def is_zero_time_def)
  then have tu: "tx_step t u" by (rule tx_step.pending_reference)
  have "resolve_reference (Some u) ''b'' = Inr v"
    using t by (simp add: tx_step_simps u_def v_def)
  then have uv: "tx_step u v" by (rule tx_step.resolved)
  have "mark_processed (Some v) sample_time = Inr x"
    by (simp add: tx_step_simps u_def v_def x_def sample_time_def is_zero_time_def)
  then have vx: "tx_step v x" by (rule tx_step.processed)
  from tu uv vx have "(tx_step ^^ 3) t x" by (auto simp: numeral_3_eq_3)
  from tx_lifecycle_ends [OF this] t(1) \<open>(tx_step ^^ 3) t x\<close> show ?thesis by blast
qed

text \<open>
  A processed, rejected or failed transaction refuses every method with the transition error,
  so a terminal audit record cannot change.
\<close>
theorem tx_terminal_refuses:
  assumes "is_terminal (wt_status t)"
  shows "mark_processed (Some t) at = Inl ErrInvalidTransition \<and>
     mark_rejected (Some t) code at = Inl ErrInvalidTransition \<and>
     mark_failed (Some t) code at = Inl ErrInvalidTransition \<and>
     mark_pending_reference (Some t) at = Inl ErrInvalidTransition \<and>
     resolve_reference (Some t) ref = Inl ErrInvalidTransition"
  using assms
  by (auto simp: mark_defs tx_transition_def is_allowed_transition_def is_terminal_def resolve_reference_def)

lemma rehydrate_stored:
  "tx_ok t \<Longrightarrow> utc (wt_created_at t) = wt_created_at t \<Longrightarrow> utc (wt_updated_at t) = wt_updated_at t \<Longrightarrow>
     rehydrate_transaction t = Inr t"
  by (cases t) (simp add: rehydrate_transaction_ok)

lemma tx_transition_utc: "tx_transition (Some t) s code at = Inr u \<Longrightarrow> utc (wt_updated_at u) = wt_updated_at u"
  by (auto simp: tx_transition_ok)

text \<open>
  What was rehydrated and then moved by any of the four status changes can be stored and
  rehydrated again, unchanged.
\<close>
theorem tx_rehydrate_after_transition:
  assumes "rehydrate_transaction i = Inr t" and "tx_transition (Some t) s code at = Inr u"
  shows "rehydrate_transaction u = Inr u"
proof (rule rehydrate_stored)
  have "tx_ok t" using assms(1) unfolding rehydrate_transaction_ok by blast
  then show "tx_ok u" by (rule tx_transition_keeps_ok [OF _ assms(2)])
  show "utc (wt_created_at u) = wt_created_at u" "utc (wt_updated_at u) = wt_updated_at u"
    using assms by (auto simp: rehydrate_transaction_ok tx_transition_ok)
qed

end
