(* ===== verification/Json.thy ===== *)
theory Json
  imports Money
begin

text \<open>
  The part of \<open>encoding/json\<close> the program writes with: objects of strings, integers and objects in
  field order, and the escaping of strings, with and without HTML escaping. A string is its UTF-8
  bytes. \<open>Money.MarshalJSON\<close> of \<open>internal/domain/money/money.go\<close> is here too.
\<close>

section \<open>Values\<close>

datatype json = JStr string | JNum int | JObj "(string \<times> json) list"

section \<open>UTF-8\<close>

definition in_range :: "nat \<Rightarrow> nat \<Rightarrow> char \<Rightarrow> bool" where
  "in_range lo hi c \<longleftrightarrow> lo \<le> byte_of c \<and> byte_of c \<le> hi"

definition second_of_three :: "char \<Rightarrow> char \<Rightarrow> bool" where
  "second_of_three a b \<longleftrightarrow> in_range (if byte_of a = 224 then 160 else 128) (if byte_of a = 237 then 159 else 191) b"

definition second_of_four :: "char \<Rightarrow> char \<Rightarrow> bool" where
  "second_of_four a b \<longleftrightarrow> in_range (if byte_of a = 240 then 144 else 128) (if byte_of a = 244 then 143 else 191) b"

text \<open>The size of the rune a string starts with, \<open>None\<close> when the bytes are not valid UTF-8.\<close>

fun rune_size :: "string \<Rightarrow> nat option" where
  "rune_size [] = None"
| "rune_size (a # r) =
     (if byte_of a < 128 then Some 1
      else if in_range 194 223 a then
        (case r of b # _ \<Rightarrow> if in_range 128 191 b then Some 2 else None | _ \<Rightarrow> None)
      else if in_range 224 239 a then
        (case r of b # c # _ \<Rightarrow> if second_of_three a b \<and> in_range 128 191 c then Some 3 else None | _ \<Rightarrow> None)
      else if in_range 240 244 a then
        (case r of b # c # d # _ \<Rightarrow>
           if second_of_four a b \<and> in_range 128 191 c \<and> in_range 128 191 d then Some 4 else None
         | _ \<Rightarrow> None)
      else None)"

declare rune_size.simps [simp del]

lemma rune_size_cases:
  assumes "rune_size s = Some n"
  obtains a r where "s = a # r" "byte_of a < 128" "n = 1"
  | a b r where "s = a # b # r" "128 \<le> byte_of a" "in_range 194 223 a" "in_range 128 191 b" "n = 2"
  | a b c r where "s = a # b # c # r" "128 \<le> byte_of a" "\<not> in_range 194 223 a" "in_range 224 239 a"
      "second_of_three a b" "in_range 128 191 c" "n = 3"
  | a b c d r where "s = a # b # c # d # r" "128 \<le> byte_of a" "\<not> in_range 194 223 a" "\<not> in_range 224 239 a"
      "in_range 240 244 a" "second_of_four a b" "in_range 128 191 c" "in_range 128 191 d" "n = 4"
proof (cases s)
  case (Cons a r)
  show thesis
  proof (cases "byte_of a < 128")
    case True
    with assms Cons that(1) show thesis by (simp add: rune_size.simps)
  next
    case False
    consider "in_range 194 223 a" | "\<not> in_range 194 223 a" "in_range 224 239 a"
      | "\<not> in_range 194 223 a" "\<not> in_range 224 239 a" "in_range 240 244 a"
      using assms Cons False by (force simp: rune_size.simps split: if_splits)
    then show thesis
    proof cases
      case 1
      with assms Cons False that(2) show thesis
        by (simp add: rune_size.simps split: list.splits if_splits)
    next
      case 2
      with assms Cons False that(3) show thesis
        by (simp add: rune_size.simps split: list.splits if_splits)
    next
      case 3
      with assms Cons False that(4) show thesis
        by (simp add: rune_size.simps split: list.splits if_splits)
    qed
  qed
qed (use assms in \<open>simp add: rune_size.simps\<close>)

lemma rune_size_pos: "rune_size s = Some n \<Longrightarrow> 0 < n \<and> n \<le> length s"
  by (erule rune_size_cases) simp_all

text \<open>The bytes of one rune at the front, and the rest.\<close>

function utf8_valid :: "string \<Rightarrow> bool" where
  "utf8_valid s = (s = [] \<or> (case rune_size s of None \<Rightarrow> False | Some n \<Rightarrow> utf8_valid (drop n s)))"
  by auto
termination
  by (relation "measure length") (auto dest: rune_size_pos)

declare utf8_valid.simps [simp del]

text \<open>\<open>for i := range s\<close>: the index of each rune with the byte found there.\<close>

function rune_heads :: "nat \<Rightarrow> string \<Rightarrow> (nat \<times> char) list" where
  "rune_heads i s = (if s = [] then [] else (i, hd s) #
     (case rune_size s of None \<Rightarrow> rune_heads (i + 1) (tl s) | Some n \<Rightarrow> rune_heads (i + n) (drop n s)))"
  by auto
termination
  by (relation "measure (\<lambda>(_, s). length s)") (auto dest: rune_size_pos)

declare rune_heads.simps [simp del]

lemma rune_size_ascii: "byte_of c < 128 \<Longrightarrow> rune_size (c # s) = Some 1"
  by (simp add: rune_size.simps)

text \<open>A test that only ASCII bytes pass sees the same bytes through \<open>range\<close> as through an index loop.\<close>

lemma all_rune_heads_ascii:
  assumes "\<And>i c. R i c \<Longrightarrow> byte_of c < 128"
  shows "list_all (\<lambda>(i, c). R i c) (rune_heads k s) \<longleftrightarrow> list_all (\<lambda>(i, c). R i c) (List.enumerate k s)"
proof (induction s arbitrary: k)
  case Nil
  then show ?case by (simp add: rune_heads.simps [of k "[]"])
next
  case (Cons c s)
  show ?case
  proof (cases "R k c")
    case True
    then have "rune_size (c # s) = Some 1" by (intro rune_size_ascii assms)
    then show ?thesis using Cons by (simp add: rune_heads.simps [of k "c # s"])
  next
    case False
    then show ?thesis by (simp add: rune_heads.simps [of k "c # s"])
  qed
qed

section \<open>Strings\<close>

abbreviation quote_char :: char where "quote_char \<equiv> CHR 0x22"
abbreviation backslash :: char where "backslash \<equiv> CHR 0x5C"

definition hex_digit :: "nat \<Rightarrow> char" where
  "hex_digit d = (if d < 10 then char_of (48 + d) else char_of (87 + d))"

definition escape_ascii :: "bool \<Rightarrow> char \<Rightarrow> string" where
  "escape_ascii html c =
     (if c = quote_char \<or> c = backslash then [backslash, c]
      else if c = CHR 0x08 then [backslash, CHR ''b'']
      else if c = CHR 0x0C then [backslash, CHR ''f'']
      else if c = CHR 0x0A then [backslash, CHR ''n'']
      else if c = CHR 0x0D then [backslash, CHR ''r'']
      else if c = CHR 0x09 then [backslash, CHR ''t'']
      else if byte_of c < 32 \<or> (html \<and> (c = CHR ''<'' \<or> c = CHR ''>'' \<or> c = CHR ''&''))
      then [backslash] @ ''u00'' @ [hex_digit (byte_of c div 16), hex_digit (byte_of c mod 16)]
      else [c])"

text \<open>
  A rune above ASCII is copied, but for the line separators U+2028 and U+2029, which are always
  escaped; a byte that starts no rune becomes an escaped U+FFFD.
\<close>

definition escape_rune :: "bool \<Rightarrow> string \<Rightarrow> string" where
  "escape_rune html r =
     (if length r = 1 then escape_ascii html (hd r)
      else if r = [CHR 0xE2, CHR 0x80, CHR 0xA8] then [backslash] @ ''u2028''
      else if r = [CHR 0xE2, CHR 0x80, CHR 0xA9] then [backslash] @ ''u2029''
      else r)"

function json_body :: "bool \<Rightarrow> string \<Rightarrow> string" where
  "json_body html s =
     (if s = [] then []
      else case rune_size s of
        None \<Rightarrow> [backslash] @ ''ufffd'' @ json_body html (tl s)
      | Some n \<Rightarrow> escape_rune html (take n s) @ json_body html (drop n s))"
  by auto
termination
  by (relation "measure (\<lambda>(_, s). length s)") (auto dest: rune_size_pos)

declare json_body.simps [simp del]

definition json_string :: "bool \<Rightarrow> string \<Rightarrow> string" where
  "json_string html s = [quote_char] @ json_body html s @ [quote_char]"

section \<open>Texts\<close>

definition json_int :: "int \<Rightarrow> string" where
  "json_int i = (if i < 0 then ''-'' @ dec (nat (- i)) else dec (nat i))"

fun join :: "string \<Rightarrow> string list \<Rightarrow> string" where
  "join sep [] = []"
| "join sep [x] = x"
| "join sep (x # y # zs) = x @ sep @ join sep (y # zs)"

fun json_text :: "bool \<Rightarrow> json \<Rightarrow> string" where
  "json_text html (JStr s) = json_string html s"
| "json_text html (JNum i) = json_int i"
| "json_text html (JObj fs) =
     ''{'' @ join '','' (map (\<lambda>(k, v). json_string html k @ '':'' @ json_text html v) fs) @ ''}''"

text \<open>A field tagged \<open>omitempty\<close>.\<close>

definition omit_empty :: "string \<Rightarrow> string \<Rightarrow> (string \<times> json) list" where
  "omit_empty k s = (if s = '''' then [] else [(k, JStr s)])"

section \<open>Money\<close>

definition money_json :: "money \<Rightarrow> money_error + json" where
  "money_json m = bindE (money_decimal m) (\<lambda>a.
     Inr (JObj [(''amount'', JStr a), (''currency'', JStr (currency_of m))]))"

lemma money_json_ok [ok_iff]:
  "money_json m = Inr j \<longleftrightarrow>
     (\<exists>a. money_decimal m = Inr a \<and> j = JObj [(''amount'', JStr a), (''currency'', JStr (currency_of m))])"
  by (auto simp: money_json_def ok_iff)

section \<open>Escaping is reversible\<close>

text \<open>Reads the rune an escaped string starts with; used in the proofs only.\<close>

definition hex_val :: "char \<Rightarrow> nat" where
  "hex_val c = (if byte_of c < 58 then byte_of c - 48 else byte_of c - 87)"

definition short_escape :: "char \<Rightarrow> char" where
  "short_escape c = (if c = CHR ''b'' then CHR 0x08 else if c = CHR ''f'' then CHR 0x0C
     else if c = CHR ''n'' then CHR 0x0A else if c = CHR ''r'' then CHR 0x0D
     else if c = CHR ''t'' then CHR 0x09 else c)"

definition read_rune :: "string \<Rightarrow> string" where
  "read_rune s =
     (if hd s \<noteq> backslash then (case rune_size s of None \<Rightarrow> [] | Some n \<Rightarrow> take n s)
      else if s ! 1 \<noteq> CHR ''u'' then [short_escape (s ! 1)]
      else if s ! 2 = CHR ''2'' then [CHR 0xE2, CHR 0x80, if s ! 5 = CHR ''8'' then CHR 0xA8 else CHR 0xA9]
      else [char_of (16 * hex_val (s ! 4) + hex_val (s ! 5))])"

lemma hex_val_digit: "d < 16 \<Longrightarrow> hex_val (hex_digit d) = d"
  by (auto simp: hex_val_def hex_digit_def byte_of_def of_char_of)

lemma char_of_byte [simp]: "char_of (byte_of c) = c"
  by (simp add: byte_of_def)

lemma read_escape_ascii:
  assumes "byte_of c < 128"
  shows "read_rune (escape_ascii False c @ x) = [c]"
proof -
  consider "c = quote_char \<or> c = backslash" | "c = CHR 0x08 \<or> c = CHR 0x0C \<or> c = CHR 0x0A \<or> c = CHR 0x0D \<or> c = CHR 0x09"
    | (ctrl) "c \<notin> {quote_char, backslash, CHR 0x08, CHR 0x0C, CHR 0x0A, CHR 0x0D, CHR 0x09}" "byte_of c < 32"
    | (plain) "c \<notin> {quote_char, backslash, CHR 0x08, CHR 0x0C, CHR 0x0A, CHR 0x0D, CHR 0x09}" "32 \<le> byte_of c"
    by fastforce
  then show ?thesis
  proof cases
    case ctrl
    have "char_of (16 * hex_val (hex_digit (byte_of c div 16)) + hex_val (hex_digit (byte_of c mod 16))) = c"
      using ctrl(2) by (simp add: hex_val_digit)
    moreover have "escape_ascii False c =
        [backslash, CHR ''u'', CHR ''0'', CHR ''0'', hex_digit (byte_of c div 16), hex_digit (byte_of c mod 16)]"
      using ctrl by (simp add: escape_ascii_def)
    ultimately show ?thesis by (simp add: read_rune_def)
  next
    case plain
    then show ?thesis using assms rune_size_ascii [of c x] by (simp add: escape_ascii_def read_rune_def)
  qed (auto simp: escape_ascii_def read_rune_def short_escape_def)
qed

lemma rune_size_append: "rune_size s = Some n \<Longrightarrow> rune_size (s @ x) = Some n"
  by (erule rune_size_cases) (simp_all add: rune_size.simps)

lemma rune_size_take: "rune_size s = Some n \<Longrightarrow> rune_size (take n s) = Some n"
  by (erule rune_size_cases) (simp_all add: rune_size.simps)

lemma rune_size_one: "rune_size [c] = Some n \<Longrightarrow> byte_of c < 128"
  by (erule rune_size_cases) simp_all

lemma rune_size_long: "rune_size s = Some n \<Longrightarrow> 1 < n \<Longrightarrow> 128 \<le> byte_of (hd s)"
  by (erule rune_size_cases) simp_all

lemma read_escape_rune:
  assumes "rune_size u = Some (length u)"
  shows "read_rune (escape_rune False u @ x) = u"
proof (cases "length u = 1")
  case True
  then obtain c where u: "u = [c]" by (auto simp: length_Suc_conv)
  then have "byte_of c < 128" using assms rune_size_one by simp
  then show ?thesis using u read_escape_ascii by (simp add: escape_rune_def)
next
  case False
  then have "1 < length u" using rune_size_pos [OF assms] by (cases u) auto
  then have "128 \<le> byte_of (hd u)" by (rule rune_size_long [OF assms])
  then have "hd u \<noteq> backslash" by (auto simp: byte_of_def)
  moreover have "u \<noteq> []" using rune_size_pos [OF assms] by auto
  ultimately show ?thesis using False rune_size_append [OF assms, of x]
    by (auto simp: escape_rune_def read_rune_def numeral_eq_Suc)
qed

lemma escape_rune_head:
  "rune_size u = Some (length u) \<Longrightarrow> escape_rune html u \<noteq> [] \<and> hd (escape_rune html u) \<noteq> quote_char"
proof -
  assume u: "rune_size u = Some (length u)"
  have "hd u \<noteq> quote_char" if "1 < length u"
    using rune_size_long [OF u that] by (auto simp: byte_of_def)
  moreover have "u \<noteq> []" using rune_size_pos [OF u] by auto
  moreover from this have "length u = 1 \<or> 1 < length u" by (cases u) auto
  ultimately show ?thesis by (auto simp: escape_rune_def escape_ascii_def)
qed

lemma utf8_valid_unit:
  assumes "utf8_valid s" "s \<noteq> []"
  obtains n where "rune_size s = Some n" "utf8_valid (drop n s)" "0 < n" "n \<le> length s"
    "rune_size (take n s) = Some (length (take n s))"
    "json_body html s = escape_rune html (take n s) @ json_body html (drop n s)"
proof -
  obtain n where n: "rune_size s = Some n" "utf8_valid (drop n s)"
    using assms by (auto simp: utf8_valid.simps [of s] split: option.splits)
  with rune_size_pos [OF n(1)] rune_size_take [OF n(1)] assms(2) that show thesis
    by (simp add: json_body.simps [of html s])
qed

lemma json_body_Nil [simp]: "json_body html [] = []"
  by (simp add: json_body.simps [of html "[]"])

lemma json_body_head:
  assumes "utf8_valid s"
  shows "(json_body html s = [] \<longleftrightarrow> s = []) \<and> (s \<noteq> [] \<longrightarrow> hd (json_body html s) \<noteq> quote_char)"
proof (cases "s = []")
  case False
  obtain n where "rune_size (take n s) = Some (length (take n s))"
      "json_body html s = escape_rune html (take n s) @ json_body html (drop n s)"
    using utf8_valid_unit [OF assms False, of html] by blast
  with escape_rune_head [of "take n s" html] show ?thesis using False by simp
qed simp

lemma json_body_inject:
  "utf8_valid s \<Longrightarrow> utf8_valid t \<Longrightarrow>
     json_body False s @ quote_char # x = json_body False t @ quote_char # y \<Longrightarrow> s = t \<and> x = y"
proof (induction s arbitrary: t rule: length_induct)
  case (1 s)
  show ?case
  proof (cases "s = [] \<or> t = []")
    case True
    with 1(4) json_body_head [OF 1(2), of False] json_body_head [OF 1(3), of False] show ?thesis
      by (cases "json_body False s"; cases "json_body False t") auto
  next
    case False
    obtain n where n: "rune_size s = Some n" "utf8_valid (drop n s)" "0 < n" "n \<le> length s"
        "rune_size (take n s) = Some (length (take n s))"
        "json_body False s = escape_rune False (take n s) @ json_body False (drop n s)"
      using utf8_valid_unit [OF 1(2), of False] False by blast
    obtain m where m: "rune_size t = Some m" "utf8_valid (drop m t)" "0 < m" "m \<le> length t"
        "rune_size (take m t) = Some (length (take m t))"
        "json_body False t = escape_rune False (take m t) @ json_body False (drop m t)"
      using utf8_valid_unit [OF 1(3), of False] False by blast
    have "take n s = take m t"
      using 1(4) n(6) m(6) read_escape_rune [OF n(5)] read_escape_rune [OF m(5)]
      by (metis append.assoc)
    moreover from this have "json_body False (drop n s) @ quote_char # x = json_body False (drop m t) @ quote_char # y"
      using 1(4) n(6) m(6) by simp
    moreover have "length (drop n s) < length s" using n False by simp
    ultimately have "drop n s = drop m t \<and> x = y" using 1(1) n(2) m(2) by blast
    with \<open>take n s = take m t\<close> show ?thesis by (metis append_take_drop_id)
  qed
qed

lemma json_string_peel:
  "utf8_valid s \<Longrightarrow> utf8_valid t \<Longrightarrow>
     json_string False s @ x = json_string False t @ y \<longleftrightarrow> s = t \<and> x = y"
  using json_body_inject [of s t x y] by (auto simp: json_string_def)

lemma json_string_eq:
  "utf8_valid s \<Longrightarrow> utf8_valid t \<Longrightarrow> json_string False s = json_string False t \<longleftrightarrow> s = t"
  using json_string_peel [of s t "[]" "[]"] by simp

lemma utf8_valid_ascii: "list_all (\<lambda>c. byte_of c < 128) s \<Longrightarrow> utf8_valid s"
  by (induction s) (simp_all add: utf8_valid.simps rune_size_ascii)
end
