(* ===== verification/Operation.thy ===== *)
theory Operation
  imports WagerTransaction Json
begin

text \<open>
  The evaluation of external operations without I/O: the catalogue of codes of
  \<open>internal/domain/operation/errors.go\<close>, the kind table, request validation and decisions of
  \<open>rules.go\<close>, and the classification of attempts of \<open>idempotency.go\<close>.
\<close>

section \<open>Codes\<close>

type_synonym code = string
type_synonym classification = string

abbreviation Correctable :: classification where "Correctable \<equiv> ''CORRECTABLE''"
abbreviation Definitive :: classification where "Definitive \<equiv> ''DEFINITIVE_REJECTION''"
abbreviation PermanentFailure :: classification where "PermanentFailure \<equiv> ''PERMANENT_FAILURE''"
abbreviation Conflict :: classification where "Conflict \<equiv> ''CONFLICT''"
abbreviation Unavailable :: classification where "Unavailable \<equiv> ''UNAVAILABLE''"

text \<open>The sentinels, one constructor each, named after the Go variable without its \<open>Err\<close>.\<close>

datatype op_error =
    InvalidRequest | InvalidMoney | UnsupportedCurrency | InvalidAmountForKind | KindNotAllowed
  | MissingIdempotencyKey | ReferenceRequired | ReferenceNotAllowed | WalletNotFound
  | TransactionNotFound | WalletPlayerMismatch | WalletCurrencyMismatch | InsufficientFunds
  | ReversalInsufficientFunds | ReferenceNotFound | ReferenceNotProcessed | ReferenceAlreadyReversed
  | ReferenceKindNotReversible | ReferenceMismatch | ReferenceAmountMismatch
  | PermanentProcessingFailure | IdempotencyKeyReused | ExternalTransactionIDConflict
  | WalletAlreadyExists | TemporarilyUnavailable

definition all_op_errors :: "op_error list" where
  "all_op_errors = [InvalidRequest, InvalidMoney, UnsupportedCurrency, InvalidAmountForKind, KindNotAllowed,
     MissingIdempotencyKey, ReferenceRequired, ReferenceNotAllowed, WalletNotFound, TransactionNotFound,
     WalletPlayerMismatch, WalletCurrencyMismatch, InsufficientFunds, ReversalInsufficientFunds,
     ReferenceNotFound, ReferenceNotProcessed, ReferenceAlreadyReversed, ReferenceKindNotReversible,
     ReferenceMismatch, ReferenceAmountMismatch, PermanentProcessingFailure, IdempotencyKeyReused,
     ExternalTransactionIDConflict, WalletAlreadyExists, TemporarilyUnavailable]"

fun err_code :: "op_error \<Rightarrow> code" where
  "err_code InvalidRequest = ''INVALID_REQUEST''"
| "err_code InvalidMoney = ''INVALID_MONEY''"
| "err_code UnsupportedCurrency = ''UNSUPPORTED_CURRENCY''"
| "err_code InvalidAmountForKind = ''INVALID_AMOUNT_FOR_KIND''"
| "err_code KindNotAllowed = ''KIND_NOT_ALLOWED''"
| "err_code MissingIdempotencyKey = ''MISSING_IDEMPOTENCY_KEY''"
| "err_code ReferenceRequired = ''REFERENCE_REQUIRED''"
| "err_code ReferenceNotAllowed = ''REFERENCE_NOT_ALLOWED''"
| "err_code WalletNotFound = ''WALLET_NOT_FOUND''"
| "err_code TransactionNotFound = ''TRANSACTION_NOT_FOUND''"
| "err_code WalletPlayerMismatch = ''WALLET_PLAYER_MISMATCH''"
| "err_code WalletCurrencyMismatch = ''WALLET_CURRENCY_MISMATCH''"
| "err_code InsufficientFunds = ''INSUFFICIENT_FUNDS''"
| "err_code ReversalInsufficientFunds = ''REVERSAL_INSUFFICIENT_FUNDS''"
| "err_code ReferenceNotFound = ''REFERENCE_NOT_FOUND''"
| "err_code ReferenceNotProcessed = ''REFERENCE_NOT_PROCESSED''"
| "err_code ReferenceAlreadyReversed = ''REFERENCE_ALREADY_REVERSED''"
| "err_code ReferenceKindNotReversible = ''REFERENCE_KIND_NOT_REVERSIBLE''"
| "err_code ReferenceMismatch = ''REFERENCE_MISMATCH''"
| "err_code ReferenceAmountMismatch = ''REFERENCE_AMOUNT_MISMATCH''"
| "err_code PermanentProcessingFailure = ''PERMANENT_PROCESSING_FAILURE''"
| "err_code IdempotencyKeyReused = ''IDEMPOTENCY_KEY_REUSED''"
| "err_code ExternalTransactionIDConflict = ''EXTERNAL_TRANSACTION_ID_CONFLICT''"
| "err_code WalletAlreadyExists = ''WALLET_ALREADY_EXISTS''"
| "err_code TemporarilyUnavailable = ''TEMPORARILY_UNAVAILABLE''"

text \<open>\<open>ClassificationFor\<close>, \<open>None\<close> for its second result false.\<close>

definition classification_for :: "code \<Rightarrow> classification option" where
  "classification_for c =
     (if c \<in> set (map err_code [InvalidRequest, InvalidMoney, UnsupportedCurrency, InvalidAmountForKind,
          KindNotAllowed, MissingIdempotencyKey, ReferenceRequired, ReferenceNotAllowed, WalletNotFound,
          TransactionNotFound, WalletPlayerMismatch, WalletCurrencyMismatch]) then Some Correctable
      else if c \<in> set (map err_code [InsufficientFunds, ReversalInsufficientFunds, ReferenceNotFound,
          ReferenceNotProcessed, ReferenceAlreadyReversed, ReferenceKindNotReversible, ReferenceMismatch,
          ReferenceAmountMismatch]) then Some Definitive
      else if c = err_code PermanentProcessingFailure then Some PermanentFailure
      else if c \<in> set (map err_code [IdempotencyKeyReused, ExternalTransactionIDConflict, WalletAlreadyExists])
      then Some Conflict
      else if c = err_code TemporarilyUnavailable then Some Unavailable
      else None)"

text \<open>\<open>newError\<close> panics (\<open>None\<close>) on a code it cannot classify.\<close>

record error_value =
  ee_code :: code
  ee_classification :: classification

definition new_error :: "code \<Rightarrow> error_value option" where
  "new_error c = (case classification_for c of None \<Rightarrow> None
     | Some k \<Rightarrow> Some \<lparr>ee_code = c, ee_classification = k\<rparr>)"

definition error_is :: "error_value ptr \<Rightarrow> error_value ptr \<Rightarrow> bool" where
  "error_is e target = (case (e, target) of (Some a, Some b) \<Rightarrow> ee_code a = ee_code b | _ \<Rightarrow> False)"

section \<open>Requests and decisions\<close>

type_synonym action = string

abbreviation Process :: action where "Process \<equiv> ''PROCESS''"
abbreviation WaitForReference :: action where "WaitForReference \<equiv> ''WAIT_FOR_REFERENCE''"
abbreviation Reject :: action where "Reject \<equiv> ''REJECT''"

record decision =
  dc_action :: action
  dc_direction :: direction
  dc_error :: "op_error ptr"

record request =
  rq_provider_id :: string
  rq_external_id :: string
  rq_player_id :: string
  rq_wallet_id :: string
  rq_round_id :: string
  rq_game_id :: string
  rq_kind :: wager_kind
  rq_money :: money
  rq_reference :: "string ptr"

datatype reference_policy = ReferenceForbidden | ReferenceOptional | ReferenceRequiredPolicy
datatype amount_policy = PositiveAmount | ZeroAmount

record kind_rule =
  kr_direction :: direction
  kr_reference :: reference_policy
  kr_amount :: amount_policy
  kr_reversal :: bool
  kr_reference_kinds :: "wager_kind set"

definition kind_rules :: "wager_kind \<Rightarrow> kind_rule option" where
  "kind_rules = Map.empty(
     Bet \<mapsto> \<lparr>kr_direction = Debit, kr_reference = ReferenceForbidden, kr_amount = PositiveAmount,
       kr_reversal = False, kr_reference_kinds = {}\<rparr>,
     Win \<mapsto> \<lparr>kr_direction = Credit, kr_reference = ReferenceOptional, kr_amount = PositiveAmount,
       kr_reversal = False, kr_reference_kinds = {Bet}\<rparr>,
     Loss \<mapsto> \<lparr>kr_direction = '''', kr_reference = ReferenceForbidden, kr_amount = ZeroAmount,
       kr_reversal = False, kr_reference_kinds = {}\<rparr>,
     Refund \<mapsto> \<lparr>kr_direction = Credit, kr_reference = ReferenceRequiredPolicy, kr_amount = PositiveAmount,
       kr_reversal = True, kr_reference_kinds = {Bet}\<rparr>,
     Rollback \<mapsto> \<lparr>kr_direction = '''', kr_reference = ReferenceRequiredPolicy, kr_amount = PositiveAmount,
       kr_reversal = True, kr_reference_kinds = {Bet, Win, Refund}\<rparr>)"

text \<open>\<open>kindRules[kind]\<close> without the \<open>ok\<close>: Go's zero rule for a missing key.\<close>

definition kind_rule_of :: "wager_kind \<Rightarrow> kind_rule" where
  "kind_rule_of k = (case kind_rules k of Some r \<Rightarrow> r
     | None \<Rightarrow> \<lparr>kr_direction = '''', kr_reference = ReferenceForbidden, kr_amount = PositiveAmount,
         kr_reversal = False, kr_reference_kinds = {}\<rparr>)"

section \<open>Validation\<close>

definition is_opaque_identifier :: "string \<Rightarrow> bool" where
  "is_opaque_identifier s \<longleftrightarrow> 0 < length s \<and> length s \<le> 255"

definition is_lower_hex :: "char \<Rightarrow> bool" where
  "is_lower_hex c \<longleftrightarrow> (48 \<le> byte_of c \<and> byte_of c \<le> 57) \<or> (97 \<le> byte_of c \<and> byte_of c \<le> 102)"

text \<open>The loop ranges over runes and looks at the byte at each one's index.\<close>

definition uuid_byte :: "nat \<Rightarrow> char \<Rightarrow> bool" where
  "uuid_byte i c = (if i = 8 \<or> i = 13 \<or> i = 18 \<or> i = 23 then c = CHR ''-'' else is_lower_hex c)"

definition is_canonical_uuid :: "string \<Rightarrow> bool" where
  "is_canonical_uuid s \<longleftrightarrow> length s = 36 \<and> list_all (\<lambda>(i, c). uuid_byte i c) (rune_heads 0 s)"

definition validate_input :: "request \<Rightarrow> op_error + unit" where
  "validate_input r =
     (if \<not> is_canonical_uuid (rq_player_id r) \<or> \<not> is_canonical_uuid (rq_wallet_id r) \<or>
         \<not> is_opaque_identifier (rq_provider_id r) \<or> \<not> is_opaque_identifier (rq_external_id r) \<or>
         \<not> is_opaque_identifier (rq_round_id r) \<or> \<not> is_opaque_identifier (rq_game_id r) \<or>
         (case rq_reference r of None \<Rightarrow> False | Some x \<Rightarrow> \<not> is_opaque_identifier x)
      then Inl InvalidRequest else Inr ())"

definition validate_request :: "request \<Rightarrow> op_error + kind_rule" where
  "validate_request r = bindE (validate_input r) (\<lambda>_.
     case kind_rules (rq_kind r) of
       None \<Rightarrow> Inl (if rq_kind r = Opening then KindNotAllowed else InvalidRequest)
     | Some rule \<Rightarrow>
     (case money_currency (rq_money r) of
       Inl e \<Rightarrow> Inl (if e = ErrUnsupportedMoneyCurrency then UnsupportedCurrency else InvalidMoney)
     | Inr c \<Rightarrow>
     (case money_zero c of Inl _ \<Rightarrow> Inl UnsupportedCurrency | Inr zero \<Rightarrow>
     (case money_compare (rq_money r) zero of Inl _ \<Rightarrow> Inl InvalidMoney | Inr k \<Rightarrow>
        if (kr_amount rule = ZeroAmount \<and> k \<noteq> 0) \<or> (kr_amount rule = PositiveAmount \<and> k \<le> 0)
        then Inl InvalidAmountForKind else Inr rule))))"

section \<open>Decisions\<close>

definition rejection :: "op_error \<Rightarrow> decision" where
  "rejection e = \<lparr>dc_action = Reject, dc_direction = '''', dc_error = Some e\<rparr>"

definition wait_decision :: decision where
  "wait_decision = \<lparr>dc_action = WaitForReference, dc_direction = '''', dc_error = None\<rparr>"

definition movement_decision :: "wager_kind \<Rightarrow> wager_transaction ptr \<Rightarrow> decision" where
  "movement_decision k p =
     \<lparr>dc_action = Process,
      dc_direction = (if k = Rollback then (if p \<noteq> None \<and> tx_kind_of p = Bet then Credit else Debit)
                      else kr_direction (kind_rule_of k)),
      dc_error = None\<rparr>"

definition validate_reference :: "request \<Rightarrow> kind_rule \<Rightarrow> wager_transaction \<Rightarrow> op_error + unit" where
  "validate_reference r rule t =
     (if rq_provider_id r \<noteq> wt_provider_id t \<or> rq_player_id r \<noteq> wt_player_id t \<or>
         rq_wallet_id r \<noteq> wt_wallet_id t \<or> rq_round_id r \<noteq> wt_round_id t
      then Inl ReferenceMismatch
      else case (money_currency (rq_money r), money_currency (wt_money t)) of
        (Inr c, Inr c') \<Rightarrow>
          if c \<noteq> c' then Inl ReferenceMismatch
          else if wt_kind t \<notin> kr_reference_kinds rule then Inl ReferenceKindNotReversible
          else if kr_reversal rule \<and> compare_fails (rq_money r) (wt_money t) (\<lambda>k. k \<noteq> 0)
          then Inl ReferenceAmountMismatch
          else Inr ()
      | _ \<Rightarrow> Inl ReferenceMismatch)"

definition evaluate :: "request \<Rightarrow> wager_transaction ptr \<Rightarrow> bool \<Rightarrow> op_error + decision" where
  "evaluate r reference already_reversed =
     bindE (validate_request r) (\<lambda>rule.
     if rq_reference r = None then
       (if kr_reference rule = ReferenceRequiredPolicy then Inl ReferenceRequired
        else Inr (movement_decision (rq_kind r) None))
     else if kr_reference rule = ReferenceForbidden then Inl ReferenceNotAllowed
     else case reference of None \<Rightarrow> Inr wait_decision | Some t \<Rightarrow>
       if wt_status t = PendingReference then Inr wait_decision
       else if wt_status t = Pending \<or> wt_status t = Rejected \<or> wt_status t = Failed
       then Inr (rejection ReferenceNotProcessed)
       else case validate_reference r rule t of
         Inl e \<Rightarrow> Inr (rejection e)
       | Inr _ \<Rightarrow>
         if kr_reversal rule \<and> already_reversed then Inr (rejection ReferenceAlreadyReversed)
         else Inr (movement_decision (rq_kind r) (Some t)))"

definition expire_pending_reference :: "request \<Rightarrow> wager_transaction ptr \<Rightarrow> bool \<Rightarrow> op_error + decision" where
  "expire_pending_reference r reference already_reversed =
     (if reference = None then Inr (rejection ReferenceNotFound)
      else if tx_status_of reference \<noteq> Processed then Inr (rejection ReferenceNotProcessed)
      else evaluate r reference already_reversed)"

definition insufficient_funds_for :: "wager_kind \<Rightarrow> op_error" where
  "insufficient_funds_for k = (case kind_rules k of
     Some rule \<Rightarrow> if kr_reversal rule then ReversalInsufficientFunds else InsufficientFunds
   | None \<Rightarrow> InsufficientFunds)"

section \<open>Attempts\<close>

record attempt_identity =
  at_key :: string
  at_hash :: string
  at_external_id :: string

type_synonym attempt_kind = string

abbreviation NewAttempt :: attempt_kind where "NewAttempt \<equiv> ''NEW''"
abbreviation Replay :: attempt_kind where "Replay \<equiv> ''REPLAY''"
abbreviation AttemptConflict :: attempt_kind where "AttemptConflict \<equiv> ''CONFLICT''"

record attempt_decision =
  ad_kind :: attempt_kind
  ad_error :: "op_error ptr"

definition classify_attempt ::
    "attempt_identity \<Rightarrow> attempt_identity ptr \<Rightarrow> attempt_identity ptr \<Rightarrow> attempt_decision" where
  "classify_attempt incoming by_key by_external =
     (case by_key of
        Some k \<Rightarrow>
          if at_hash k = at_hash incoming then \<lparr>ad_kind = Replay, ad_error = None\<rparr>
          else \<lparr>ad_kind = AttemptConflict, ad_error = Some IdempotencyKeyReused\<rparr>
      | None \<Rightarrow>
        (case by_external of
           Some x \<Rightarrow>
             if at_key x \<noteq> at_key incoming
             then \<lparr>ad_kind = AttemptConflict, ad_error = Some ExternalTransactionIDConflict\<rparr>
             else \<lparr>ad_kind = NewAttempt, ad_error = None\<rparr>
         | None \<Rightarrow> \<lparr>ad_kind = NewAttempt, ad_error = None\<rparr>))"

section \<open>What validation accepts\<close>

lemma uuid_byte_ascii: "uuid_byte i c \<Longrightarrow> byte_of c < 128"
  by (auto simp: uuid_byte_def is_lower_hex_def byte_of_def split: if_splits)

lemma is_canonical_uuid_bytes:
  "is_canonical_uuid s \<longleftrightarrow> length s = 36 \<and> list_all (\<lambda>(i, c). uuid_byte i c) (List.enumerate 0 s)"
  unfolding is_canonical_uuid_def using all_rune_heads_ascii [OF uuid_byte_ascii] by simp

lemma canonical_uuid_nonempty: "is_canonical_uuid s \<Longrightarrow> s \<noteq> ''''"
  by (auto simp: is_canonical_uuid_def)

lemma opaque_nonempty: "is_opaque_identifier s \<Longrightarrow> s \<noteq> ''''"
  by (auto simp: is_opaque_identifier_def)

definition valid_ids :: "request \<Rightarrow> bool" where
  "valid_ids r \<longleftrightarrow> is_canonical_uuid (rq_player_id r) \<and> is_canonical_uuid (rq_wallet_id r) \<and>
     is_opaque_identifier (rq_provider_id r) \<and> is_opaque_identifier (rq_external_id r) \<and>
     is_opaque_identifier (rq_round_id r) \<and> is_opaque_identifier (rq_game_id r) \<and>
     (\<forall>x. rq_reference r = Some x \<longrightarrow> is_opaque_identifier x)"

lemma validate_input_ok [ok_iff]: "validate_input r = Inr u \<longleftrightarrow> valid_ids r"
  by (auto simp: validate_input_def valid_ids_def split: option.splits)

lemma validate_input_err: "validate_input r = Inl e \<Longrightarrow> e = InvalidRequest"
  by (auto simp: validate_input_def split: if_splits)

definition valid_amount :: "kind_rule \<Rightarrow> money \<Rightarrow> bool" where
  "valid_amount rule m \<longleftrightarrow> is_supported (currency_of m) \<and>
     (case kr_amount rule of PositiveAmount \<Rightarrow> 0 < amount m | ZeroAmount \<Rightarrow> amount m = 0)"

lemma kind_rules_simps [simp]:
  "kind_rules Bet = Some \<lparr>kr_direction = Debit, kr_reference = ReferenceForbidden, kr_amount = PositiveAmount,
       kr_reversal = False, kr_reference_kinds = {}\<rparr>"
  "kind_rules Win = Some \<lparr>kr_direction = Credit, kr_reference = ReferenceOptional, kr_amount = PositiveAmount,
       kr_reversal = False, kr_reference_kinds = {Bet}\<rparr>"
  "kind_rules Loss = Some \<lparr>kr_direction = '''', kr_reference = ReferenceForbidden, kr_amount = ZeroAmount,
       kr_reversal = False, kr_reference_kinds = {}\<rparr>"
  "kind_rules Refund = Some \<lparr>kr_direction = Credit, kr_reference = ReferenceRequiredPolicy, kr_amount = PositiveAmount,
       kr_reversal = True, kr_reference_kinds = {Bet}\<rparr>"
  "kind_rules Rollback = Some \<lparr>kr_direction = '''', kr_reference = ReferenceRequiredPolicy, kr_amount = PositiveAmount,
       kr_reversal = True, kr_reference_kinds = {Bet, Win, Refund}\<rparr>"
  "kind_rules Opening = None"
  by (simp_all add: kind_rules_def)

lemma kind_rules_Some_cases:
  assumes "kind_rules k = Some rule"
  obtains "k = Bet" | "k = Win" | "k = Loss" | "k = Refund" | "k = Rollback"
  using assms by (auto simp: kind_rules_def split: if_splits)

lemma kind_rule_of_Some: "kind_rules k = Some rule \<Longrightarrow> kind_rule_of k = rule"
  by (simp add: kind_rule_of_def)

lemma validate_request_ok [ok_iff]:
  "validate_request r = Inr rule \<longleftrightarrow>
     valid_ids r \<and> kind_rules (rq_kind r) = Some rule \<and> valid_amount rule (rq_money r)"
proof (cases "is_supported (currency_of (rq_money r))")
  case True
  then have cur: "money_currency (rq_money r) = Inr (currency_of (rq_money r))"
    by (simp add: money_currency_ok)
  have zero: "money_zero (currency_of (rq_money r)) = Inr \<lparr>minor_units = 0, currency_of = currency_of (rq_money r)\<rparr>"
    using True by (simp add: money_zero_def money_new_def min_int64_def)
  show ?thesis using True
    by (auto simp: validate_request_def bindE_ok validate_input_ok cur zero valid_amount_def
        money_compare_comparable split: option.splits amount_policy.splits if_splits)
next
  case False
  then show ?thesis
    by (auto simp: validate_request_def ok_iff valid_amount_def money_currency_def money_validate_def
        split: option.splits sum.splits if_splits amount_policy.splits)
qed

text \<open>What a resolved reference must share with the request.\<close>

definition reference_matches :: "request \<Rightarrow> kind_rule \<Rightarrow> wager_transaction \<Rightarrow> bool" where
  "reference_matches r rule t \<longleftrightarrow>
     rq_provider_id r = wt_provider_id t \<and> rq_player_id r = wt_player_id t \<and>
     rq_wallet_id r = wt_wallet_id t \<and> rq_round_id r = wt_round_id t \<and>
     is_supported (currency_of (rq_money r)) \<and> currency_of (wt_money t) = currency_of (rq_money r) \<and>
     wt_kind t \<in> kr_reference_kinds rule \<and>
     (kr_reversal rule \<longrightarrow> amount (wt_money t) = amount (rq_money r))"

lemma validate_reference_ok [ok_iff]: "validate_reference r rule t = Inr u \<longleftrightarrow> reference_matches r rule t"
proof (cases "is_supported (currency_of (rq_money r)) \<and> is_supported (currency_of (wt_money t))")
  case True
  then have "money_currency (rq_money r) = Inr (currency_of (rq_money r))"
      "money_currency (wt_money t) = Inr (currency_of (wt_money t))"
    by (simp_all add: money_currency_ok)
  then show ?thesis using True
    by (auto simp: validate_reference_def reference_matches_def split: if_splits)
next
  case False
  then have "\<not> reference_matches r rule t" by (auto simp: reference_matches_def)
  moreover have "validate_reference r rule t \<noteq> Inr u"
    using False by (auto simp: validate_reference_def money_currency_def money_validate_def split: sum.splits if_splits)
  ultimately show ?thesis by simp
qed

lemma validate_reference_err: "validate_reference r rule t = Inl e \<Longrightarrow>
    e \<in> {ReferenceMismatch, ReferenceKindNotReversible, ReferenceAmountMismatch}"
  by (auto simp: validate_reference_def split: if_splits sum.splits)

lemma validate_request_err: "validate_request r = Inl e \<Longrightarrow>
    e \<in> {InvalidRequest, KindNotAllowed, UnsupportedCurrency, InvalidMoney, InvalidAmountForKind}"
  by (auto simp: validate_request_def bindE_def dest: validate_input_err
      split: sum.splits option.splits if_splits)

lemma evaluate_err: "evaluate r p b = Inl e \<Longrightarrow>
    e \<in> {InvalidRequest, KindNotAllowed, UnsupportedCurrency, InvalidMoney, InvalidAmountForKind,
         ReferenceRequired, ReferenceNotAllowed}"
  by (auto simp: evaluate_def bindE_def dest: validate_request_err
      split: sum.splits option.splits if_splits)

lemma decision_simps [simp]:
  "dc_action (rejection e) = Reject" "dc_error (rejection e) = Some e" "dc_direction (rejection e) = ''''"
  "dc_action wait_decision = WaitForReference" "dc_error wait_decision = None" "dc_direction wait_decision = ''''"
  "dc_action (movement_decision k p) = Process" "dc_error (movement_decision k p) = None"
  by (simp_all add: rejection_def wait_decision_def movement_decision_def)

lemma rejection_eq_iff [simp]: "rejection e = rejection f \<longleftrightarrow> e = f"
  by (simp add: rejection_def)

lemma evaluate_cases:
  assumes "evaluate r p b = Inr d"
  obtains rule where "kind_rules (rq_kind r) = Some rule" "valid_ids r" "valid_amount rule (rq_money r)"
      "rq_reference r = None" "kr_reference rule \<noteq> ReferenceRequiredPolicy" "d = movement_decision (rq_kind r) None"
  | rule where "kind_rules (rq_kind r) = Some rule" "valid_ids r" "valid_amount rule (rq_money r)"
      "rq_reference r \<noteq> None" "kr_reference rule \<noteq> ReferenceForbidden"
      "p = None \<or> (\<exists>t. p = Some t \<and> wt_status t = PendingReference)" "d = wait_decision"
  | rule e where "kind_rules (rq_kind r) = Some rule" "valid_ids r" "valid_amount rule (rq_money r)"
      "rq_reference r \<noteq> None" "kr_reference rule \<noteq> ReferenceForbidden" "p \<noteq> None" "d = rejection e"
      "e \<in> {ReferenceNotProcessed, ReferenceMismatch, ReferenceKindNotReversible, ReferenceAmountMismatch,
            ReferenceAlreadyReversed}"
  | rule t where "kind_rules (rq_kind r) = Some rule" "valid_ids r" "valid_amount rule (rq_money r)"
      "rq_reference r \<noteq> None" "kr_reference rule \<noteq> ReferenceForbidden" "p = Some t"
      "wt_status t \<notin> {Pending, Rejected, Failed, PendingReference}" "reference_matches r rule t"
      "\<not> (kr_reversal rule \<and> b)" "d = movement_decision (rq_kind r) (Some t)"
proof -
  obtain rule where rule: "kind_rules (rq_kind r) = Some rule" "valid_ids r" "valid_amount rule (rq_money r)"
    and v: "validate_request r = Inr rule"
    using assms by (auto simp: evaluate_def bindE_ok validate_request_ok)
  show thesis
  proof (cases "rq_reference r")
    case None
    with assms v rule that(1) show thesis by (auto simp: evaluate_def split: if_splits)
  next
    case (Some x)
    then have ref: "rq_reference r \<noteq> None" "kr_reference rule \<noteq> ReferenceForbidden"
      using assms v by (auto simp: evaluate_def split: if_splits)
    show thesis
    proof (cases p)
      case None
      with assms v rule ref that(2) [OF rule ref] Some show thesis by (simp add: evaluate_def)
    next
      case p: (Some t)
      show thesis
      proof (cases "wt_status t = PendingReference")
        case True
        with assms v p ref Some that(2) [OF rule ref] show thesis by (simp add: evaluate_def)
      next
        case wait: False
        show thesis
        proof (cases "wt_status t = Pending \<or> wt_status t = Rejected \<or> wt_status t = Failed")
          case True
          with assms v p ref Some wait have "d = rejection ReferenceNotProcessed" by (simp add: evaluate_def)
          with that(3) [OF rule ref, of ReferenceNotProcessed] p show thesis by simp
        next
          case settled: False
          show thesis
          proof (cases "validate_reference r rule t")
            case (Inl e)
            then have "d = rejection e" using assms v p ref Some wait settled by (simp add: evaluate_def)
            with that(3) [OF rule ref, of e] p validate_reference_err [OF Inl] show thesis by auto
          next
            case (Inr u)
            then have m: "reference_matches r rule t" by (simp add: validate_reference_ok)
            have "d = (if kr_reversal rule \<and> b then rejection ReferenceAlreadyReversed
                else movement_decision (rq_kind r) (Some t))"
              using assms v p ref Some wait settled Inr by (auto simp: evaluate_def split: if_splits)
            with that(3) [OF rule ref, of ReferenceAlreadyReversed] that(4) [OF rule ref p _ m]
              p wait settled show thesis by (simp split: if_splits)
          qed
        qed
      qed
    qed
  qed
qed

section \<open>Properties\<close>

lemma all_op_errors_complete: "e \<in> set all_op_errors"
  by (cases e) (simp_all add: all_op_errors_def)

text \<open>
  Every sentinel of the catalogue is built without the panic of \<open>newError\<close>, and
  \<open>errors.Is\<close> tells any two of them apart: their codes are pairwise different.
\<close>
theorem error_catalogue:
  "\<exists>v. new_error (err_code e) = Some v \<and> (error_is (Some v) (new_error (err_code f)) \<longleftrightarrow> e = f)"
proof -
  have code: "\<exists>k. classification_for (err_code g) = Some k" for g
    by (cases g) (simp_all add: classification_for_def)
  obtain k where k: "classification_for (err_code e) = Some k" using code by blast
  obtain l where l: "classification_for (err_code f) = Some l" using code by blast
  have "err_code e = err_code f \<longleftrightarrow> e = f"
    by (cases e; simp; cases f; simp)
  with k l show ?thesis by (simp add: new_error_def error_is_def)
qed

text \<open>
  An error of \<open>Evaluate\<close> is always correctable, so nothing about it is persisted, and every
  rejection it decides is definitive; a decision is a rejection exactly when it carries an error.
\<close>
theorem evaluate_classified:
  "(case evaluate r p b of
      Inl e \<Rightarrow> classification_for (err_code e) = Some Correctable
    | Inr d \<Rightarrow> (case dc_error d of None \<Rightarrow> dc_action d \<noteq> Reject
        | Some e \<Rightarrow> dc_action d = Reject \<and> classification_for (err_code e) = Some Definitive))"
proof (cases "evaluate r p b")
  case (Inl e)
  from evaluate_err [OF this] show ?thesis using Inl by (auto simp: classification_for_def)
next
  case (Inr d)
  from this have "dc_error d = None \<and> dc_action d \<noteq> Reject \<or>
      (\<exists>e. d = rejection e \<and> classification_for (err_code e) = Some Definitive)"
    by (rule evaluate_cases) (auto simp: classification_for_def)
  with Inr show ?thesis by auto
qed

lemma reference_kinds_reversible:
  "kind_rules k = Some rule \<Longrightarrow> k' \<in> kr_reference_kinds rule \<Longrightarrow> k' = Bet \<or> k' = Win \<or> k' = Refund"
  by (auto simp: kind_rules_def split: if_splits)


definition sample_uuid :: string where
  "sample_uuid = ''01900000-0000-7000-8000-00000000000a''"

definition sample_request :: "wager_kind \<Rightarrow> string ptr \<Rightarrow> request" where
  "sample_request k ref = \<lparr>rq_provider_id = ''pr'', rq_external_id = ''x1'', rq_player_id = sample_uuid,
     rq_wallet_id = sample_uuid, rq_round_id = ''r'', rq_game_id = ''g'', rq_kind = k,
     rq_money = \<lparr>minor_units = 30, currency_of = BRL\<rparr>, rq_reference = ref\<rparr>"

definition sample_bet :: wager_transaction where
  "sample_bet = \<lparr>wt_id = ''t0'', wt_external_id = ''b1'', wt_provider_id = ''pr'', wt_key = ''k0'',
     wt_hash = ''h0'', wt_wallet_id = sample_uuid, wt_player_id = sample_uuid, wt_round_id = ''r'',
     wt_game_id = ''g'', wt_kind = Bet, wt_origin = External,
     wt_money = \<lparr>minor_units = 30, currency_of = BRL\<rparr>, wt_ref_external = '''', wt_ref_id = '''',
     wt_status = Processed, wt_failure = '''', wt_created_at = sample_time, wt_updated_at = sample_time\<rparr>"

lemma sample_uuid_canonical: "is_canonical_uuid sample_uuid"
  by (simp add: is_canonical_uuid_bytes sample_uuid_def uuid_byte_def is_lower_hex_def byte_of_def)

lemma sample_request_valid: "ref = None \<or> ref = Some ''b1'' \<Longrightarrow> valid_ids (sample_request k ref)"
  by (auto simp: valid_ids_def sample_request_def sample_uuid_canonical is_opaque_identifier_def)

lemma sample_refund_evaluated:
  "evaluate (sample_request Refund (Some ''b1'')) (Some sample_bet) False =
     Inr (movement_decision Refund (Some sample_bet))"
proof -
  have "validate_request (sample_request Refund (Some ''b1'')) = Inr (the (kind_rules Refund))"
    using sample_request_valid [of "Some ''b1''" Refund]
    by (simp add: validate_request_ok valid_amount_def) (simp add: sample_request_def is_supported_def)
  moreover have "validate_reference (sample_request Refund (Some ''b1'')) (the (kind_rules Refund)) sample_bet = Inr ()"
    by (simp add: validate_reference_ok reference_matches_def) (simp add: sample_request_def sample_bet_def is_supported_def)
  moreover have "rq_reference (sample_request Refund (Some ''b1'')) = Some ''b1''"
      "rq_kind (sample_request Refund (Some ''b1'')) = Refund" "wt_status sample_bet = Processed"
    by (simp_all add: sample_request_def sample_bet_def)
  ultimately show ?thesis by (simp add: evaluate_def)
qed


text \<open>
  The expiry of a pending operation agrees with its evaluation: a reference that was processed
  gets the decision it would have got in time, any other one a definitive rejection, and the
  operation never goes on waiting.
\<close>
theorem expire_never_waits:
  assumes "expire_pending_reference r p b = Inr d" and "p = Some t \<longrightarrow> is_status (wt_status t)"
  shows "dc_action d \<noteq> WaitForReference \<and>
     (p = None \<longrightarrow> d = rejection ReferenceNotFound) \<and>
     (\<forall>t. p = Some t \<longrightarrow> (if wt_status t = Processed then evaluate r p b = Inr d
        else d = rejection ReferenceNotProcessed))"
proof (cases "\<exists>t. p = Some t \<and> wt_status t = Processed")
  case True
  then obtain u where u: "p = Some u" "wt_status u = Processed" by blast
  then have "evaluate r p b = Inr d" using assms(1) by (simp add: expire_pending_reference_def)
  moreover from this have "dc_action d \<noteq> WaitForReference"
    by (rule evaluate_cases) (use u in auto)
  ultimately show ?thesis using u by simp
next
  case False
  then show ?thesis using assms(1)
    by (cases p) (auto simp: expire_pending_reference_def)
qed

text \<open>
  \<open>IsCanonicalUUID\<close>, which ranges over runes, accepts exactly the strings made of groups of 8, 4,
  4, 4 and 12 lowercase hexadecimal digits joined by hyphens.
\<close>
theorem canonical_uuid_layout:
  "is_canonical_uuid s \<longleftrightarrow> (\<exists>a b c d e. s = a @ ''-'' @ b @ ''-'' @ c @ ''-'' @ d @ ''-'' @ e \<and>
     map length [a, b, c, d, e] = [8, 4, 4, 4, 12] \<and> list_all is_lower_hex (a @ b @ c @ d @ e))"
  (is "_ \<longleftrightarrow> ?rhs")
proof
  assume l: "is_canonical_uuid s"
  then have len: "length s = 36" and all: "list_all (\<lambda>(i, c). uuid_byte i c) (List.enumerate 0 s)"
    by (auto simp: is_canonical_uuid_bytes)
  have at: "uuid_byte i (s ! i)" if "i < 36" for i
    using all that len by (simp add: list_all_length nth_enumerate_eq)
  define seg where "seg i n = map (\<lambda>k. s ! k) [i..<i + n]" for i n
  have "s = map (\<lambda>k. s ! k) [0..<36]" using len map_nth [of s] by simp
  also have "[0..<36] = [0..<8] @ [8] @ [9..<13] @ [13] @ [14..<18] @ [18] @ [19..<23] @ [23] @ [24..<36]"
    by (simp add: upt_rec)
  finally have "s = seg 0 8 @ ''-'' @ seg 9 4 @ ''-'' @ seg 14 4 @ ''-'' @ seg 19 4 @ ''-'' @ seg 24 12"
    using at [of 8] at [of 13] at [of 18] at [of 23] by (simp add: uuid_byte_def seg_def)
  moreover have "list_all is_lower_hex (seg 0 8 @ seg 9 4 @ seg 14 4 @ seg 19 4 @ seg 24 12)"
    using at by (auto simp: list_all_iff seg_def uuid_byte_def)
  moreover have "map length [seg 0 8, seg 9 4, seg 14 4, seg 19 4, seg 24 12] = [8, 4, 4, 4, 12]"
    by (simp add: seg_def)
  ultimately show ?rhs
    by (intro exI [of _ "seg 0 8"] exI [of _ "seg 9 4"] exI [of _ "seg 14 4"] exI [of _ "seg 19 4"]
        exI [of _ "seg 24 12"] conjI)
next
  assume ?rhs
  then obtain a b c d e where s: "s = a @ ''-'' @ b @ ''-'' @ c @ ''-'' @ d @ ''-'' @ e"
    and len: "length a = 8" "length b = 4" "length c = 4" "length d = 4" "length e = 12"
    and hex: "list_all is_lower_hex (a @ b @ c @ d @ e)" by auto
  have seg: "list_all (\<lambda>(i, x). uuid_byte i x) (List.enumerate k xs)"
    if "list_all is_lower_hex xs" "\<And>i. k \<le> i \<Longrightarrow> i < k + length xs \<Longrightarrow> i \<notin> {8, 13, 18, 23}" for k xs
    using that by (auto simp: list_all_length nth_enumerate_eq uuid_byte_def)
  show "is_canonical_uuid s"
    using seg [of a 0] seg [of b 9] seg [of c 14] seg [of d 19] seg [of e 24] hex len
    by (simp add: is_canonical_uuid_bytes s enumerate_append_eq uuid_byte_def)
qed
end
