(* ===== verification/PayloadHash.thy ===== *)
theory PayloadHash
  imports Operation
begin

text \<open>
  The canonical payload hash of \<open>internal/domain/operation/hash.go\<close>: the JSON text with its keys in
  order, SHA-256 as \<open>crypto/sha256\<close> computes it (FIPS 180-4), and hexadecimal output.
\<close>

unbundle bit_operations_syntax

section \<open>SHA-256\<close>

type_synonym word32 = "32 word"

text \<open>
  The constants of the standard: the first 32 bits of the fractional parts of the cube roots of the
  first 64 primes, and of the square roots of the first eight.
\<close>

definition small_primes :: "nat list" where
  "small_primes = filter (\<lambda>p. list_all (\<lambda>d. p mod d \<noteq> 0) [2..<p]) [2..<312]"

definition root_bits :: "nat \<Rightarrow> nat \<Rightarrow> nat" where
  "root_bits k n = foldr (\<lambda>b r. if (r + 2 ^ b) ^ k \<le> n then r + 2 ^ b else r) [0..<40] 0"

definition root_fraction :: "nat \<Rightarrow> nat \<Rightarrow> word32" where
  "root_fraction k p = of_nat (root_bits k (p * 2 ^ (32 * k)))"

definition sha_k :: "word32 list" where
  "sha_k = map (root_fraction 3) small_primes"

definition sha_init :: "word32 list" where
  "sha_init = map (root_fraction 2) (take 8 small_primes)"

definition rotr :: "nat \<Rightarrow> word32 \<Rightarrow> word32" where
  "rotr n x = drop_bit n x OR push_bit (32 - n) x"

definition sha_ch :: "word32 \<Rightarrow> word32 \<Rightarrow> word32 \<Rightarrow> word32" where
  "sha_ch x y z = ((x AND y) XOR (NOT x AND z))"

definition sha_maj :: "word32 \<Rightarrow> word32 \<Rightarrow> word32 \<Rightarrow> word32" where
  "sha_maj x y z = ((x AND y) XOR (x AND z) XOR (y AND z))"

definition big_sigma0 :: "word32 \<Rightarrow> word32" where
  "big_sigma0 x = (rotr 2 x XOR rotr 13 x XOR rotr 22 x)"

definition big_sigma1 :: "word32 \<Rightarrow> word32" where
  "big_sigma1 x = (rotr 6 x XOR rotr 11 x XOR rotr 25 x)"

definition small_sigma0 :: "word32 \<Rightarrow> word32" where
  "small_sigma0 x = (rotr 7 x XOR rotr 18 x XOR drop_bit 3 x)"

definition small_sigma1 :: "word32 \<Rightarrow> word32" where
  "small_sigma1 x = (rotr 17 x XOR rotr 19 x XOR drop_bit 10 x)"

text \<open>The message schedule, extended one word at a time to 64 words.\<close>

fun sha_extend :: "nat \<Rightarrow> word32 list \<Rightarrow> word32 list" where
  "sha_extend 0 w = w"
| "sha_extend (Suc n) w = (let t = length w in
     sha_extend n (w @ [small_sigma1 (w ! (t - 2)) + w ! (t - 7) + small_sigma0 (w ! (t - 15)) + w ! (t - 16)]))"

fun sha_round :: "word32 list \<Rightarrow> word32 \<times> word32 \<Rightarrow> word32 list" where
  "sha_round [a, b, c, d, e, f, g, h] (k, w) =
     (let t1 = h + big_sigma1 e + sha_ch e f g + k + w;
          t2 = big_sigma0 a + sha_maj a b c
      in [t1 + t2, a, b, c, d + t1, e, f, g])"
| "sha_round st _ = st"

definition be_word :: "nat list \<Rightarrow> word32" where
  "be_word bs = word_of_nat (foldl (\<lambda>v b. v * 256 + b) 0 bs)"

fun chunks :: "nat \<Rightarrow> nat \<Rightarrow> 'a list \<Rightarrow> 'a list list" where
  "chunks 0 n xs = []"
| "chunks (Suc k) n xs = take n xs # chunks k n (drop n xs)"

definition sha_block :: "word32 list \<Rightarrow> nat list \<Rightarrow> word32 list" where
  "sha_block st block =
     (let w = sha_extend 48 (map be_word (chunks 16 4 block))
      in map2 (+) st (foldl sha_round st (zip sha_k w)))"

definition be_bytes :: "nat \<Rightarrow> nat \<Rightarrow> nat list" where
  "be_bytes n v = map (\<lambda>i. v div 256 ^ (n - 1 - i) mod 256) [0..<n]"

definition sha_pad :: "nat list \<Rightarrow> nat list" where
  "sha_pad bs = (let l = length bs; z = (119 - l mod 64) mod 64 in
     bs @ [128] @ replicate z 0 @ be_bytes 8 (8 * l))"

definition sha256 :: "nat list \<Rightarrow> nat list" where
  "sha256 bs = (let p = sha_pad bs; st = foldl sha_block sha_init (chunks (length p div 64) 64 p)
     in concat (map (\<lambda>w. be_bytes 4 (unat w)) st))"

definition hex_of :: "nat list \<Rightarrow> string" where
  "hex_of bs = concat (map (\<lambda>b. [hex_digit (b div 16), hex_digit (b mod 16)]) bs)"

section \<open>The canonical payload\<close>

definition canonical_payload :: "request \<Rightarrow> json \<Rightarrow> json" where
  "canonical_payload r money = JObj (
     [(''externalTransactionId'', JStr (rq_external_id r)), (''gameId'', JStr (rq_game_id r)),
      (''kind'', JStr (rq_kind r)), (''money'', money), (''playerId'', JStr (rq_player_id r)),
      (''providerId'', JStr (rq_provider_id r))] @
     (case rq_reference r of None \<Rightarrow> [] | Some x \<Rightarrow> [(''referenceExternalTransactionId'', JStr x)]) @
     [(''roundId'', JStr (rq_round_id r)), (''walletId'', JStr (rq_wallet_id r))])"

text \<open>
  \<open>PayloadHash\<close>. Its error is an \<open>*operation.Error\<close> or the encoder's, which wraps the money error
  and is no \<open>*operation.Error\<close>.
\<close>

datatype hash_error = HashOp op_error | HashEncode money_error

definition canonical_json :: "request \<Rightarrow> money_error + string" where
  "canonical_json r = bindE (money_json (rq_money r)) (\<lambda>m. Inr (json_text False (canonical_payload r m)))"

definition payload_hash :: "request \<Rightarrow> hash_error + string" where
  "payload_hash r =
     bindE (map_err HashOp (validate_input r)) (\<lambda>_.
     bindE (map_err HashEncode (canonical_json r)) (\<lambda>text.
     Inr (hex_of (sha256 (map byte_of text)))))"

section \<open>What the hash covers\<close>

definition request_strings :: "request \<Rightarrow> string list" where
  "request_strings r = [rq_external_id r, rq_game_id r, rq_kind r, rq_player_id r, rq_provider_id r,
     rq_round_id r, rq_wallet_id r] @ (case rq_reference r of None \<Rightarrow> [] | Some x \<Rightarrow> [x])"

text \<open>A request the service can hold: UTF-8 text and a non-negative amount in a supported currency.\<close>

definition hashable :: "request \<Rightarrow> bool" where
  "hashable r \<longleftrightarrow> list_all utf8_valid (request_strings r) \<and>
     is_supported (currency_of (rq_money r)) \<and> 0 \<le> amount (rq_money r)"

lemma digits_ascii: "\<forall>c \<in> set s. is_digit c \<Longrightarrow> list_all (\<lambda>c. byte_of c < 128) s"
  by (auto simp: list_all_iff is_digit_def)

lemma money_decimal_utf8:
  assumes "is_supported (currency_of m)" "0 \<le> amount m" "money_decimal m = Inr s"
  shows "utf8_valid s"
proof (rule utf8_valid_ascii)
  obtain a b where ab: "dec2 (nat (amount m) mod 100) = [a, b]" "is_digit a" "is_digit b"
    using dec2_digits [of "nat (amount m) mod 100"] by auto
  have "list_all (\<lambda>c. byte_of c < 128) (dec (nat (amount m) div 100))"
    using dec_digits digits_ascii by blast
  then show "list_all (\<lambda>c. byte_of c < 128) s"
    using assms ab by (auto simp: money_decimal_nonneg is_digit_def) (simp add: byte_of_def)
qed

lemma supported_utf8: "is_supported c \<Longrightarrow> utf8_valid c"
  by (auto simp: is_supported_def byte_of_def intro!: utf8_valid_ascii)

lemma money_decimal_inject:
  assumes "is_supported (currency_of m)" "0 \<le> amount m" "is_supported (currency_of n)" "0 \<le> amount n"
    and "money_decimal m = Inr s" "money_decimal n = Inr s" "currency_of m = currency_of n"
  shows "m = n"
  using money_decimal_parses [OF assms(1,2)] money_decimal_parses [OF assms(3,4)] assms(5-7) by auto

lemma key_utf8:
  "utf8_valid ''referenceExternalTransactionId''" "utf8_valid ''roundId''"
  by (auto simp: byte_of_def intro!: utf8_valid_ascii)

text \<open>The text of the payload, field by field.\<close>

lemma canonical_text:
  "json_text False (canonical_payload r (JObj [(''amount'', JStr a), (''currency'', JStr c)])) =
     ''{'' @ json_string False ''externalTransactionId'' @ '':'' @ json_string False (rq_external_id r) @
     '','' @ json_string False ''gameId'' @ '':'' @ json_string False (rq_game_id r) @
     '','' @ json_string False ''kind'' @ '':'' @ json_string False (rq_kind r) @
     '','' @ json_string False ''money'' @ '':'' @
     ''{'' @ json_string False ''amount'' @ '':'' @ json_string False a @
     '','' @ json_string False ''currency'' @ '':'' @ json_string False c @ ''}'' @
     '','' @ json_string False ''playerId'' @ '':'' @ json_string False (rq_player_id r) @
     '','' @ json_string False ''providerId'' @ '':'' @ json_string False (rq_provider_id r) @ '','' @
     (case rq_reference r of None \<Rightarrow> [] | Some x \<Rightarrow>
        json_string False ''referenceExternalTransactionId'' @ '':'' @ json_string False x @ '','') @
     json_string False ''roundId'' @ '':'' @ json_string False (rq_round_id r) @
     '','' @ json_string False ''walletId'' @ '':'' @ json_string False (rq_wallet_id r) @ ''}''"
  by (simp add: canonical_payload_def split: option.splits)

lemma canonical_fields:
  assumes eq: "json_text False (canonical_payload r (JObj [(''amount'', JStr a), (''currency'', JStr c)])) =
      json_text False (canonical_payload q (JObj [(''amount'', JStr b), (''currency'', JStr d)]))"
    and "utf8_valid a" "utf8_valid b" "utf8_valid c" "utf8_valid d"
    and "list_all utf8_valid (request_strings r)" "list_all utf8_valid (request_strings q)"
  shows "a = b \<and> c = d \<and>
      rq_external_id r = rq_external_id q \<and> rq_game_id r = rq_game_id q \<and> rq_kind r = rq_kind q \<and>
      rq_player_id r = rq_player_id q \<and> rq_provider_id r = rq_provider_id q \<and>
      rq_round_id r = rq_round_id q \<and> rq_wallet_id r = rq_wallet_id q \<and> rq_reference r = rq_reference q"
proof (cases "rq_reference r"; cases "rq_reference q")
  assume "rq_reference r = None" "rq_reference q = None"
  then show ?thesis using assms(2-7) eq [unfolded canonical_text]
    by (simp add: json_string_peel json_string_eq request_strings_def)
next
  fix x assume "rq_reference r = None" "rq_reference q = Some x"
  then show ?thesis using assms(2-7) eq [unfolded canonical_text]
    by (simp add: json_string_peel json_string_eq key_utf8 request_strings_def)
next
  fix x assume "rq_reference r = Some x" "rq_reference q = None"
  then show ?thesis using assms(2-7) eq [unfolded canonical_text]
    by (simp add: json_string_peel json_string_eq key_utf8 request_strings_def)
next
  fix x y assume "rq_reference r = Some x" "rq_reference q = Some y"
  then show ?thesis using assms(2-7) eq [unfolded canonical_text]
    by (simp add: json_string_peel json_string_eq request_strings_def)
qed

lemma canonical_json_inject:
  assumes "hashable r" "hashable q" "canonical_json r = Inr s" "canonical_json q = Inr s"
  shows "r = q"
proof -
  obtain a where a: "money_decimal (rq_money r) = Inr a"
      "s = json_text False (canonical_payload r (JObj [(''amount'', JStr a), (''currency'', JStr (currency_of (rq_money r)))]))"
    using assms(3) by (auto simp: canonical_json_def ok_iff)
  obtain b where b: "money_decimal (rq_money q) = Inr b"
      "s = json_text False (canonical_payload q (JObj [(''amount'', JStr b), (''currency'', JStr (currency_of (rq_money q)))]))"
    using assms(4) by (auto simp: canonical_json_def ok_iff)
  have u: "utf8_valid a" "utf8_valid b" "utf8_valid (currency_of (rq_money r))" "utf8_valid (currency_of (rq_money q))"
    using assms(1,2) a(1) b(1) money_decimal_utf8 supported_utf8 by (auto simp: hashable_def)
  have str: "list_all utf8_valid (request_strings r)" "list_all utf8_valid (request_strings q)"
    using assms(1,2) by (auto simp: hashable_def)
  have eqs: "a = b \<and> currency_of (rq_money r) = currency_of (rq_money q) \<and>
      rq_external_id r = rq_external_id q \<and> rq_game_id r = rq_game_id q \<and> rq_kind r = rq_kind q \<and>
      rq_player_id r = rq_player_id q \<and> rq_provider_id r = rq_provider_id q \<and>
      rq_round_id r = rq_round_id q \<and> rq_wallet_id r = rq_wallet_id q \<and> rq_reference r = rq_reference q"
    by (rule canonical_fields [OF _ u str]) (use a(2) b(2) in simp)
  then have "rq_money r = rq_money q"
    using money_decimal_inject [of "rq_money r" "rq_money q" a] a(1) b(1) assms(1,2)
    by (auto simp: hashable_def)
  with eqs show ?thesis by simp
qed

lemma hash_text: "payload_hash r = Inr h \<Longrightarrow>
    \<exists>s. canonical_json r = Inr s \<and> h = hex_of (sha256 (map byte_of s))"
  by (auto simp: payload_hash_def ok_iff)

lemma sha_round_length: "length st = 8 \<Longrightarrow> length (sha_round st kw) = 8"
proof -
  assume "length st = 8"
  then obtain a b c d e f g h where "st = [a, b, c, d, e, f, g, h]"
    by (auto simp: numeral_eq_Suc length_Suc_conv)
  then show ?thesis by (cases kw) (simp add: Let_def)
qed

lemma sha_rounds_length: "length st = 8 \<Longrightarrow> length (foldl sha_round st kws) = 8"
  by (induction kws arbitrary: st) (simp_all add: sha_round_length)

lemma sha_blocks_length: "length st = 8 \<Longrightarrow> length (foldl sha_block st blocks) = 8"
  by (induction blocks arbitrary: st) (simp_all add: sha_block_def Let_def sha_rounds_length)

lemma sha_init_length: "length sha_init = 8"
proof -
  have split: "[2..<312] = [2..<20] @ [20..<(312 :: nat)]"
    using upt_add_eq_append [of 2 20 292] by (simp only: Num.arith_simps Num.rel_simps simp_thms)
  have "length (filter (\<lambda>p. list_all (\<lambda>d. p mod d \<noteq> 0) [2..<p]) [2..<20]) = (8 :: nat)"
    by code_simp
  moreover have "length (map f (take 8 (xs @ ys))) = 8" if "length xs = 8" for f :: "nat \<Rightarrow> word32" and xs ys
    using that by simp
  ultimately show ?thesis unfolding sha_init_def small_primes_def split filter_append by blast
qed

lemma sha256_length: "length (sha256 bs) = 32"
proof -
  have "sum_list (map (length \<circ> (\<lambda>w :: word32. be_bytes 4 (unat w))) st) = 4 * length st" for st
    by (induction st) (simp_all add: be_bytes_def)
  then show ?thesis by (simp add: sha256_def Let_def length_concat sha_blocks_length sha_init_length comp_def)
qed

lemma hex_of_length: "length (hex_of bs) = 2 * length bs"
  by (induction bs) (simp_all add: hex_of_def)

lemma payload_hash_length: "payload_hash r = Inr h \<Longrightarrow> length h = 64"
  using hash_text [of r h] by (auto simp: hex_of_length sha256_length)

lemma validate_input_total: "valid_ids r \<Longrightarrow> validate_input r = Inr ()"
  by (simp add: validate_input_ok)

lemma payload_hash_defined:
  assumes "valid_ids r" "is_supported (currency_of (rq_money r))" "0 \<le> amount (rq_money r)"
  shows "\<exists>h. payload_hash r = Inr h"
  using assms money_decimal_nonneg [of "rq_money r"]
  by (simp add: payload_hash_def canonical_json_def money_json_def validate_input_total)

lemma hex_digit_inject: "a < 16 \<Longrightarrow> b < 16 \<Longrightarrow> hex_digit a = hex_digit b \<Longrightarrow> a = b"
  by (metis hex_val_digit)

lemma hex_pair_inject:
  assumes "a < 256" "b < 256" "hex_digit (a div 16) = hex_digit (b div 16)" "hex_digit (a mod 16) = hex_digit (b mod 16)"
  shows "a = b"
proof -
  have "a div 16 < 16" "b div 16 < 16" using assms(1,2) by (simp_all add: less_mult_imp_div_less)
  then have "a div 16 = b div 16" using assms(3) by (rule hex_digit_inject)
  moreover have "a mod 16 = b mod 16" by (rule hex_digit_inject [OF _ _ assms(4)]) simp_all
  ultimately show ?thesis by (metis div_mult_mod_eq)
qed

lemma hex_of_inject:
  "list_all (\<lambda>b. b < 256) xs \<Longrightarrow> list_all (\<lambda>b. b < 256) ys \<Longrightarrow> hex_of xs = hex_of ys \<Longrightarrow> xs = ys"
proof (induction xs arbitrary: ys)
  case Nil
  then show ?case by (cases ys) (simp_all add: hex_of_def)
next
  case (Cons x xs)
  then show ?case by (cases ys) (auto simp: hex_of_def intro: hex_pair_inject)
qed

lemma sha256_bytes: "list_all (\<lambda>b. b < 256) (sha256 bs)"
  by (auto simp: sha256_def Let_def list_all_iff be_bytes_def)

lemma byte_of_inject: "map byte_of s = map byte_of t \<longleftrightarrow> s = t"
  by (rule inj_map_eq_map) (metis char_of_byte injI)

section \<open>Properties\<close>

text \<open>
  C35: Two requests with the same payload hash are the same request, or their canonical texts are a
  collision of SHA-256: the text covers every field, and no two requests share one.
\<close>
theorem payload_hash_identifies:
  assumes "hashable r" "hashable q" "payload_hash r = Inr h" "payload_hash q = Inr h"
  shows "r = q \<or> (\<exists>s t. canonical_json r = Inr s \<and> canonical_json q = Inr t \<and>
     map byte_of s \<noteq> map byte_of t \<and> sha256 (map byte_of s) = sha256 (map byte_of t))"
proof -
  obtain s where s: "canonical_json r = Inr s" "h = hex_of (sha256 (map byte_of s))"
    using hash_text [OF assms(3)] by blast
  obtain t where t: "canonical_json q = Inr t" "h = hex_of (sha256 (map byte_of t))"
    using hash_text [OF assms(4)] by blast
  have "sha256 (map byte_of s) = sha256 (map byte_of t)"
    using hex_of_inject [OF sha256_bytes sha256_bytes] s(2) t(2) by metis
  moreover have "s = t \<Longrightarrow> r = q"
    using canonical_json_inject [OF assms(1,2)] s(1) t(1) by simp
  ultimately show ?thesis using s(1) t(1) by (auto simp: byte_of_inject)
qed

lemma sample_hashable: "hashable (sample_request Bet None)"
  by (auto simp: hashable_def request_strings_def sample_request_def sample_uuid_def is_supported_def
      byte_of_def intro!: utf8_valid_ascii)

theorem payload_hash_identifies_witness:
  "\<exists>h. payload_hash (sample_request Bet None) = Inr h \<and>
     (sample_request Bet None = sample_request Bet None \<or> False)"
proof -
  obtain h where "payload_hash (sample_request Bet None) = Inr h"
    using payload_hash_defined [of "sample_request Bet None"] sample_request_valid [of None Bet]
    by (auto simp: sample_request_def is_supported_def)
  with payload_hash_identifies [OF sample_hashable sample_hashable this this] show ?thesis by blast
qed

text \<open>
  C39: A request that passes \<open>validateInput\<close> but carries Go's zero \<open>Money\<close> (the JSON body had no
  money) fails to hash with the encoder's error, which is no \<open>*operation.Error\<close>; \<open>Evaluate\<close> would have
  answered it with a correctable code.
\<close>
theorem missing_money_not_classified:
  assumes "valid_ids r" "rq_money r = zero_money" "kind_rules (rq_kind r) = Some rule"
  shows "payload_hash r = Inl (HashEncode ErrInvalidMoneyValue) \<and> evaluate r p b = Inl InvalidMoney"
  using assms
  by (simp add: payload_hash_def canonical_json_def money_json_def money_decimal_def money_validate_def
      validate_input_total evaluate_def validate_request_def money_currency_def zero_money_def is_supported_def)

theorem missing_money_not_classified_witness:
  "payload_hash ((sample_request Bet None)\<lparr>rq_money := zero_money\<rparr>) = Inl (HashEncode ErrInvalidMoneyValue)"
proof -
  have "valid_ids ((sample_request Bet None)\<lparr>rq_money := zero_money\<rparr>)"
    using sample_request_valid [of None Bet] by (simp add: valid_ids_def)
  moreover have "kind_rules (rq_kind ((sample_request Bet None)\<lparr>rq_money := zero_money\<rparr>)) \<noteq> None"
    by (simp add: sample_request_def)
  ultimately show ?thesis using missing_money_not_classified [of "(sample_request Bet None)\<lparr>rq_money := zero_money\<rparr>"]
    by auto
qed
end
