(* ===== verification/Events.thy ===== *)
theory Events
  imports WagerTransaction Json
begin

text \<open>
  The integration events of \<open>internal/domain/wallet/events.go\<close>: their envelope and data, the
  constructors that refuse a snapshot in the wrong state, RFC 3339 times, and the JSON value
  \<open>json.Marshal\<close> gives for each.
\<close>

section \<open>RFC 3339\<close>

text \<open>
  The civil date of a day counted from January 1 of year 1 in the proleptic Gregorian calendar:
  400-year, 100-year, 4-year and 1-year cycles, the last day of a cycle belonging to its last year.
\<close>

definition year_day :: "int \<Rightarrow> int \<times> int" where
  "year_day d =
     (let n400 = d div 146097; d1 = d mod 146097;
          n100 = min 3 (d1 div 36524); d2 = d1 - n100 * 36524;
          n4 = d2 div 1461; d3 = d2 mod 1461;
          n1 = min 3 (d3 div 365)
      in (400 * n400 + 100 * n100 + 4 * n4 + n1 + 1, d3 - n1 * 365))"

definition is_leap :: "int \<Rightarrow> bool" where
  "is_leap y \<longleftrightarrow> y mod 4 = 0 \<and> (y mod 100 \<noteq> 0 \<or> y mod 400 = 0)"

definition month_lengths :: "int \<Rightarrow> int list" where
  "month_lengths y = [31, if is_leap y then 29 else 28, 31, 30, 31, 30, 31, 31, 30, 31, 30, 31]"

fun month_day :: "int list \<Rightarrow> int \<Rightarrow> int \<Rightarrow> int \<times> int" where
  "month_day [] m d = (m, d + 1)"
| "month_day (l # ls) m d = (if d < l then (m, d + 1) else month_day ls (m + 1) (d - l))"

definition pad :: "nat \<Rightarrow> int \<Rightarrow> string" where
  "pad n i = (let s = dec (nat \<bar>i\<bar>) in
     (if i < 0 then ''-'' else '''') @ replicate (n - length s) (CHR ''0'') @ s)"

text \<open>\<open>t.UTC().Format(time.RFC3339)\<close>.\<close>

definition rfc3339_utc :: "gotime \<Rightarrow> string" where
  "rfc3339_utc t =
     (let secs = instant t div 1000000000; days = secs div 86400; s = secs mod 86400;
          (y, yd) = year_day days; (m, d) = month_day (month_lengths y) 1 yd
      in pad 4 y @ ''-'' @ pad 2 m @ ''-'' @ pad 2 d @ ''T'' @
         pad 2 (s div 3600) @ '':'' @ pad 2 (s div 60 mod 60) @ '':'' @ pad 2 (s mod 60) @ ''Z'')"

section \<open>Events\<close>

abbreviation ProcessedEventType :: string where "ProcessedEventType \<equiv> ''WagerTransactionProcessed''"
abbreviation RejectedEventType :: string where "RejectedEventType \<equiv> ''WagerTransactionRejected''"
abbreviation BalanceChangedEventType :: string where "BalanceChangedEventType \<equiv> ''WalletBalanceChanged''"
abbreviation PendingReferenceEventType :: string where
  "PendingReferenceEventType \<equiv> ''WagerTransactionPendingReference''"

record event_metadata =
  em_event_id :: string
  em_correlation_id :: string
  em_causation_id :: string
  em_occurred_at :: gotime

record event_envelope =
  ev_event_id :: string
  ev_event_type :: string
  ev_aggregate_id :: string
  ev_correlation_id :: string
  ev_causation_id :: string
  ev_occurred_at :: string
  ev_version :: int

record processed_data =
  pd_transaction_id :: string
  pd_wallet_id :: string
  pd_player_id :: string
  pd_kind :: wager_kind
  pd_origin :: transaction_origin
  pd_external_id :: string
  pd_provider_id :: string
  pd_key :: string
  pd_hash :: string
  pd_round_id :: string
  pd_game_id :: string
  pd_ref_external :: string
  pd_money :: money
  pd_status :: transaction_status

record rejected_data =
  rd_transaction_id :: string
  rd_wallet_id :: string
  rd_player_id :: string
  rd_kind :: wager_kind
  rd_origin :: transaction_origin
  rd_failure_code :: string
  rd_status :: transaction_status

record balance_data =
  bd_wallet_id :: string
  bd_transaction_id :: string
  bd_direction :: direction
  bd_money :: money
  bd_before :: money
  bd_after :: money
  bd_version :: int64

record pending_data =
  nd_transaction_id :: string
  nd_wallet_id :: string
  nd_ref_external :: string
  nd_expires_at :: string

datatype event =
    ProcessedEvent event_envelope processed_data
  | RejectedEvent event_envelope rejected_data
  | BalanceChangedEvent event_envelope balance_data
  | PendingReferenceEvent event_envelope pending_data

fun event_envelope_of :: "event \<Rightarrow> event_envelope" where
  "event_envelope_of (ProcessedEvent e _) = e"
| "event_envelope_of (RejectedEvent e _) = e"
| "event_envelope_of (BalanceChangedEvent e _) = e"
| "event_envelope_of (PendingReferenceEvent e _) = e"

text \<open>The wallet an event is about, \<open>data.walletId\<close> of every event.\<close>

fun event_wallet :: "event \<Rightarrow> string" where
  "event_wallet (ProcessedEvent _ d) = pd_wallet_id d"
| "event_wallet (RejectedEvent _ d) = rd_wallet_id d"
| "event_wallet (BalanceChangedEvent _ d) = bd_wallet_id d"
| "event_wallet (PendingReferenceEvent _ d) = nd_wallet_id d"

definition event_version :: int where
  "event_version = 1"

definition new_event_envelope :: "event_metadata \<Rightarrow> string \<Rightarrow> string \<Rightarrow> wallet_error + event_envelope" where
  "new_event_envelope m type aggregate =
     (if em_event_id m = '''' \<or> em_correlation_id m = '''' \<or> is_zero_time (em_occurred_at m) \<or>
         type = '''' \<or> aggregate = ''''
      then Inl ErrInvalidEvent
      else Inr \<lparr>ev_event_id = em_event_id m, ev_event_type = type, ev_aggregate_id = aggregate,
        ev_correlation_id = em_correlation_id m, ev_causation_id = em_causation_id m,
        ev_occurred_at = rfc3339_utc (em_occurred_at m), ev_version = event_version\<rparr>)"

definition new_processed_event :: "event_metadata \<Rightarrow> wager_transaction ptr \<Rightarrow> wallet_error + event" where
  "new_processed_event m p =
     (if p = None \<or> tx_status_of p \<noteq> Processed then Inl ErrInvalidEvent
      else bindE (new_event_envelope m ProcessedEventType (tx_id_of p)) (\<lambda>env.
        Inr (ProcessedEvent env \<lparr>pd_transaction_id = tx_id_of p, pd_wallet_id = tx_wallet_of p,
          pd_player_id = tx_player_of p, pd_kind = tx_kind_of p, pd_origin = tx_origin_of p,
          pd_external_id = tx_external_of p, pd_provider_id = tx_provider_of p, pd_key = tx_key_of p,
          pd_hash = tx_hash_of p, pd_round_id = tx_round_of p, pd_game_id = tx_game_of p,
          pd_ref_external = tx_ref_external_of p, pd_money = tx_money_of p, pd_status = tx_status_of p\<rparr>)))"

definition new_rejected_event :: "event_metadata \<Rightarrow> wager_transaction ptr \<Rightarrow> wallet_error + event" where
  "new_rejected_event m p =
     (if p = None \<or> tx_status_of p \<noteq> Rejected \<or> tx_failure_of p = '''' then Inl ErrInvalidEvent
      else bindE (new_event_envelope m RejectedEventType (tx_id_of p)) (\<lambda>env.
        Inr (RejectedEvent env \<lparr>rd_transaction_id = tx_id_of p, rd_wallet_id = tx_wallet_of p,
          rd_player_id = tx_player_of p, rd_kind = tx_kind_of p, rd_origin = tx_origin_of p,
          rd_failure_code = tx_failure_of p, rd_status = tx_status_of p\<rparr>)))"

definition new_balance_event :: "event_metadata \<Rightarrow> wallet ptr \<Rightarrow> ledger_entry ptr \<Rightarrow> wallet_error + event" where
  "new_balance_event m w e =
     (if w = None \<or> e = None \<or> wallet_id_of w \<noteq> entry_wallet_of e \<or> wallet_version_of w <s 1
      then Inl ErrInvalidEvent
      else bindE (new_event_envelope m BalanceChangedEventType (wallet_id_of w)) (\<lambda>env.
        Inr (BalanceChangedEvent env \<lparr>bd_wallet_id = wallet_id_of w, bd_transaction_id = entry_transaction_of e,
          bd_direction = entry_direction_of e, bd_money = entry_money_of e, bd_before = entry_before_of e,
          bd_after = entry_after_of e, bd_version = wallet_version_of w\<rparr>)))"

definition new_pending_event :: "event_metadata \<Rightarrow> wager_transaction ptr \<Rightarrow> gotime \<Rightarrow> wallet_error + event" where
  "new_pending_event m p expires =
     (if p = None \<or> tx_status_of p \<noteq> PendingReference \<or> tx_ref_external_of p = '''' \<or> is_zero_time expires
      then Inl ErrInvalidEvent
      else bindE (new_event_envelope m PendingReferenceEventType (tx_id_of p)) (\<lambda>env.
        Inr (PendingReferenceEvent env \<lparr>nd_transaction_id = tx_id_of p, nd_wallet_id = tx_wallet_of p,
          nd_ref_external = tx_ref_external_of p, nd_expires_at = rfc3339_utc expires\<rparr>)))"

section \<open>Encoding\<close>

definition envelope_fields :: "event_envelope \<Rightarrow> (string \<times> json) list" where
  "envelope_fields e =
     [(''eventId'', JStr (ev_event_id e)), (''eventType'', JStr (ev_event_type e)),
      (''aggregateId'', JStr (ev_aggregate_id e)), (''correlationId'', JStr (ev_correlation_id e))] @
     omit_empty ''causationId'' (ev_causation_id e) @
     [(''occurredAt'', JStr (ev_occurred_at e)), (''version'', JNum (ev_version e))]"

fun event_data :: "event \<Rightarrow> money_error + json" where
  "event_data (ProcessedEvent _ d) =
     bindE (money_json (pd_money d)) (\<lambda>m. Inr (JObj (
       [(''transactionId'', JStr (pd_transaction_id d)), (''walletId'', JStr (pd_wallet_id d)),
        (''playerId'', JStr (pd_player_id d)), (''kind'', JStr (pd_kind d)), (''origin'', JStr (pd_origin d))] @
       omit_empty ''externalTransactionId'' (pd_external_id d) @
       omit_empty ''providerId'' (pd_provider_id d) @
       omit_empty ''idempotencyKey'' (pd_key d) @
       omit_empty ''payloadHash'' (pd_hash d) @
       omit_empty ''roundId'' (pd_round_id d) @
       omit_empty ''gameId'' (pd_game_id d) @
       omit_empty ''referenceExternalTransactionId'' (pd_ref_external d) @
       [(''money'', m), (''status'', JStr (pd_status d))])))"
| "event_data (RejectedEvent _ d) = Inr (JObj
     [(''transactionId'', JStr (rd_transaction_id d)), (''walletId'', JStr (rd_wallet_id d)),
      (''playerId'', JStr (rd_player_id d)), (''kind'', JStr (rd_kind d)), (''origin'', JStr (rd_origin d)),
      (''failureCode'', JStr (rd_failure_code d)), (''status'', JStr (rd_status d))])"
| "event_data (BalanceChangedEvent _ d) =
     bindE (money_json (bd_money d)) (\<lambda>m. bindE (money_json (bd_before d)) (\<lambda>b.
     bindE (money_json (bd_after d)) (\<lambda>a. Inr (JObj
       [(''walletId'', JStr (bd_wallet_id d)), (''transactionId'', JStr (bd_transaction_id d)),
        (''direction'', JStr (bd_direction d)), (''money'', m), (''balanceBefore'', b),
        (''balanceAfter'', a), (''walletVersion'', JNum (sint (bd_version d)))]))))"
| "event_data (PendingReferenceEvent _ d) = Inr (JObj
     [(''transactionId'', JStr (nd_transaction_id d)), (''walletId'', JStr (nd_wallet_id d)),
      (''referenceExternalTransactionId'', JStr (nd_ref_external d)),
      (''pendingExpiresAt'', JStr (nd_expires_at d))])"

definition event_json :: "event \<Rightarrow> money_error + json" where
  "event_json e = bindE (event_data e) (\<lambda>d. Inr (JObj (envelope_fields (event_envelope_of e) @ [(''data'', d)])))"

section \<open>When the constructors succeed\<close>

lemma new_event_envelope_ok [ok_iff]:
  "new_event_envelope m type aggregate = Inr env \<longleftrightarrow>
     em_event_id m \<noteq> '''' \<and> em_correlation_id m \<noteq> '''' \<and> \<not> is_zero_time (em_occurred_at m) \<and>
     type \<noteq> '''' \<and> aggregate \<noteq> '''' \<and>
     env = \<lparr>ev_event_id = em_event_id m, ev_event_type = type, ev_aggregate_id = aggregate,
        ev_correlation_id = em_correlation_id m, ev_causation_id = em_causation_id m,
        ev_occurred_at = rfc3339_utc (em_occurred_at m), ev_version = 1\<rparr>"
  by (auto simp: new_event_envelope_def event_version_def)

lemma new_processed_event_SomeD:
  "new_processed_event m p = Inr e \<Longrightarrow> \<exists>t env d. p = Some t \<and> wt_status t = Processed \<and>
     e = ProcessedEvent env d \<and> ev_event_type env = ProcessedEventType \<and> ev_aggregate_id env = wt_id t \<and>
     ev_event_id env = em_event_id m \<and> pd_transaction_id d = wt_id t \<and> pd_wallet_id d = wt_wallet_id t \<and>
     pd_money d = wt_money t \<and> pd_kind d = wt_kind t"
  by (cases p) (auto simp: new_processed_event_def ok_iff split: if_splits)

lemma new_rejected_event_SomeD:
  "new_rejected_event m p = Inr e \<Longrightarrow> \<exists>t env d. p = Some t \<and> wt_status t = Rejected \<and>
     e = RejectedEvent env d \<and> ev_event_type env = RejectedEventType \<and> ev_aggregate_id env = wt_id t \<and>
     ev_event_id env = em_event_id m \<and> rd_transaction_id d = wt_id t \<and> rd_wallet_id d = wt_wallet_id t \<and> rd_failure_code d = wt_failure t"
  by (cases p) (auto simp: new_rejected_event_def ok_iff split: if_splits)

lemma new_balance_event_SomeD:
  "new_balance_event m p q = Inr e \<Longrightarrow> \<exists>w l env d. p = Some w \<and> q = Some l \<and> le_wallet_id l = w_id w \<and>
     e = BalanceChangedEvent env d \<and> ev_event_type env = BalanceChangedEventType \<and> ev_aggregate_id env = w_id w \<and>
     ev_event_id env = em_event_id m \<and> w_id w \<noteq> '''' \<and> bd_wallet_id d = w_id w \<and> bd_transaction_id d = le_transaction_id l \<and>
     bd_money d = le_money l \<and> bd_before d = le_balance_before l \<and> bd_after d = le_balance_after l \<and>
     bd_version d = w_version w"
  by (cases p; cases q) (auto simp: new_balance_event_def ok_iff split: if_splits)

lemma new_pending_event_SomeD:
  "new_pending_event m p x = Inr e \<Longrightarrow> \<exists>t env d. p = Some t \<and> wt_status t = PendingReference \<and>
     e = PendingReferenceEvent env d \<and> ev_event_type env = PendingReferenceEventType \<and>
     ev_aggregate_id env = wt_id t \<and> ev_event_id env = em_event_id m \<and> nd_transaction_id d = wt_id t \<and> nd_wallet_id d = wt_wallet_id t \<and>
     nd_expires_at d = rfc3339_utc x"
  by (cases p) (auto simp: new_pending_event_def ok_iff split: if_splits)

section \<open>Properties\<close>

lemma money_json_exists: "is_supported (currency_of m) \<Longrightarrow> 0 \<le> amount m \<Longrightarrow> \<exists>j. money_json m = Inr j"
  using money_decimal_nonneg [of m] by (auto simp: money_json_def)

text \<open>
  After a movement of a rehydrated wallet the balance event is always built and always encodes:
  it carries the entry's amount and both balances, the new wallet version, and balances that differ
  by exactly the signed amount.
\<close>
theorem balance_event_of_movement:
  assumes "wallet_rehydrate i = Inr w" and "sint (w_version w) < 2 ^ 63 - 1"
    and "d = Debit \<or> d = Credit" and "wallet_move d (Some w) mi = Inr (e, w')"
    and "em_event_id m \<noteq> ''''" "em_correlation_id m \<noteq> ''''" "\<not> is_zero_time (em_occurred_at m)"
  shows "\<exists>env bd j. new_balance_event m (Some w') (Some e) = Inr (BalanceChangedEvent env bd) \<and>
     event_json (BalanceChangedEvent env bd) = Inr j \<and> ev_aggregate_id env = w_id w \<and>
     bd_money bd = mi_money mi \<and> bd_before bd = w_balance w \<and> bd_after bd = w_balance w' \<and>
     sint (bd_version bd) = sint (w_version w) + 1 \<and>
     amount (bd_after bd) = amount (bd_before bd) + signed_amount (bd_direction bd) (bd_money bd)"
proof -
  have ok: "wallet_ok w" by (rule wallet_rehydrate_keeps_ok [OF assms(1)])
  have can: "can_move d w mi" and e: "e = movement_entry d w mi" and w': "w' = moved_wallet d w mi"
    using assms(4) by (simp_all add: wallet_move_ok [OF ok assms(3)])
  have ok': "wallet_ok w'" using moved_wallet_keeps_ok [OF ok can] w' by simp
  have eok: "entry_ok e" using movement_entry_ok [OF ok can assms(3)] e by simp
  have ver: "sint (w_version w + 1) = sint (w_version w) + 1"
    using sint64_add [of "w_version w" 1] assms(2) sint64_lower [of "w_version w"] by simp
  have pos: "1 \<le> sint (w_version w)" using assms(1) by (simp add: wallet_rehydrate_ok)
  define env where "env = \<lparr>ev_event_id = em_event_id m, ev_event_type = BalanceChangedEventType,
      ev_aggregate_id = w_id w, ev_correlation_id = em_correlation_id m,
      ev_causation_id = em_causation_id m, ev_occurred_at = rfc3339_utc (em_occurred_at m), ev_version = 1\<rparr>"
  define bd where "bd = \<lparr>bd_wallet_id = w_id w, bd_transaction_id = le_transaction_id e, bd_direction = d,
      bd_money = mi_money mi, bd_before = w_balance w, bd_after = w_balance w', bd_version = w_version w + 1\<rparr>"
  have ids: "w_id w' = w_id w" "w_version w' = w_version w + 1" "w_id w \<noteq> ''''"
    "le_wallet_id e = w_id w" "le_direction e = d" "le_money e = mi_money mi" "le_balance_before e = w_balance w"
    "le_balance_after e = w_balance w'"
    using w' e ok by (simp_all add: moved_wallet_def movement_entry_def wallet_ok_def)
  have "new_balance_event m (Some w') (Some e) = Inr (BalanceChangedEvent env bd)"
    using assms(5-7) ids ver pos
    by (simp add: new_balance_event_def new_event_envelope_def event_version_def word_sless_alt env_def bd_def)
  moreover have "\<exists>j. event_json (BalanceChangedEvent env bd) = Inr j"
    using money_json_exists [of "mi_money mi"] money_json_exists [of "w_balance w"]
      money_json_exists [of "w_balance w'"] ok ok' can
    by (auto simp: event_json_def bd_def wallet_ok_def can_move_def)
  moreover have "amount (w_balance w') = amount (w_balance w) + signed_amount d (mi_money mi)"
    using entry_ok_step [OF eok] ids by simp
  ultimately show ?thesis using ver by (auto simp: env_def bd_def)
qed

end
