(* ===== verification/Database.thy ===== *)
theory Database
  imports PayloadHash Events
begin

text \<open>
  The schema of \<open>migrations/*.up.sql\<close> as lists of rows with their CHECK, UNIQUE, foreign key and
  trigger rules, the statements the repositories run on it, and the transaction boundary of
  \<open>internal/pg/querier.go\<close>. A statement or a commit can fail for reasons outside the model; which ones
  do is an input of a run (\<open>st_ticks\<close>), and so are the ids, the clocks, the rows other
  sessions hold locked, and what Postgres makes of a UUID's spelling and of a time.
\<close>

section \<open>Rows\<close>

record wallet_row =
  wr_id :: string
  wr_player :: string
  wr_currency :: string
  wr_balance :: int64
  wr_version :: int64
  wr_created :: gotime
  wr_updated :: gotime

record tx_row =
  tr_id :: string
  tr_external :: "string option"
  tr_provider :: "string option"
  tr_key :: "string option"
  tr_hash :: "string option"
  tr_wallet :: string
  tr_player :: string
  tr_round :: "string option"
  tr_game :: "string option"
  tr_kind :: string
  tr_origin :: string
  tr_amount :: int64
  tr_currency :: string
  tr_ref_external :: "string option"
  tr_ref_id :: "string option"
  tr_status :: string
  tr_failure :: "string option"
  tr_balance :: "int64 option"
  tr_attempts :: int
  tr_next_attempt :: "gotime option"
  tr_expires :: "gotime option"
  tr_created :: gotime
  tr_updated :: gotime

record ledger_row =
  lr_id :: string
  lr_wallet :: string
  lr_tx :: string
  lr_direction :: string
  lr_amount :: int64
  lr_currency :: string
  lr_before :: int64
  lr_after :: int64
  lr_occurred :: gotime
  lr_seq :: int

record outbox_row =
  or_event_id :: string
  or_aggregate_type :: string
  or_aggregate_id :: string
  or_event_type :: string
  or_event_version :: int
  or_payload :: json
  or_occurred :: gotime
  or_attempts :: int
  or_next_attempt :: gotime
  or_locked_until :: "gotime option"
  or_published :: "gotime option"
  or_last_error :: "string option"

record inbox_row =
  ir_id :: string
  ir_consumer :: string
  ir_message :: string
  ir_hash :: string
  ir_completed :: "gotime option"

record db =
  db_wallets :: "wallet_row list"
  db_txs :: "tx_row list"
  db_ledger :: "ledger_row list"
  db_outbox :: "outbox_row list"
  db_inbox :: "inbox_row list"

section \<open>Constraints\<close>

definition wallet_checks :: "wallet_row \<Rightarrow> bool" where
  "wallet_checks r \<longleftrightarrow> 0 \<le> sint (wr_balance r) \<and> 1 \<le> sint (wr_version r)"

text \<open>A CHECK fails on an explicit false only, so a NULL passes the length tests.\<close>

definition len_check :: "string option \<Rightarrow> bool" where
  "len_check x = (case x of None \<Rightarrow> True | Some s \<Rightarrow> 1 \<le> length s \<and> length s \<le> 255)"

definition tx_origin_check :: "tx_row \<Rightarrow> bool" where
  "tx_origin_check r \<longleftrightarrow>
     (tr_origin r = Internal \<and> tr_kind r = Opening \<and> tr_external r = None \<and> tr_provider r = None \<and>
      tr_key r = None \<and> tr_hash r = None \<and> tr_round r = None \<and> tr_game r = None \<and>
      tr_ref_external r = None \<and> tr_ref_id r = None) \<or>
     (tr_origin r = External \<and> tr_kind r \<noteq> Opening \<and> tr_external r \<noteq> None \<and> tr_provider r \<noteq> None \<and>
      tr_key r \<noteq> None \<and> tr_hash r \<noteq> None \<and> tr_round r \<noteq> None \<and> tr_game r \<noteq> None)"

definition tx_balance_check :: "tx_row \<Rightarrow> bool" where
  "tx_balance_check r \<longleftrightarrow>
     ((tr_status r = Processed \<or> tr_status r = Rejected) \<and>
      (case tr_balance r of None \<Rightarrow> False | Some b \<Rightarrow> 0 \<le> sint b)) \<or>
     ((tr_status r = PendingReference \<or> tr_status r = Failed) \<and> tr_balance r = None)"

definition tx_amount_check :: "tx_row \<Rightarrow> bool" where
  "tx_amount_check r \<longleftrightarrow>
     (tr_kind r \<in> {Bet, Win, Refund, Rollback, Opening} \<and> 0 < sint (tr_amount r)) \<or>
     (tr_kind r = Loss \<and> sint (tr_amount r) = 0)"

definition tx_checks :: "tx_row \<Rightarrow> bool" where
  "tx_checks r \<longleftrightarrow> is_kind (tr_kind r) \<and>
     tr_status r \<in> {Processed, Rejected, Failed, PendingReference} \<and>
     (tr_origin r = Internal \<or> tr_origin r = External) \<and> tx_origin_check r \<and>
     (tr_kind r \<in> {Refund, Rollback} \<longrightarrow> tr_ref_external r \<noteq> None) \<and>
     (tr_status r \<in> {Rejected, Failed} \<longleftrightarrow> tr_failure r \<noteq> None) \<and>
     tx_balance_check r \<and> tx_amount_check r \<and>
     len_check (tr_external r) \<and> len_check (tr_provider r) \<and> len_check (tr_key r) \<and>
     len_check (tr_round r) \<and> len_check (tr_game r) \<and> len_check (tr_ref_external r)"

definition ledger_checks :: "ledger_row \<Rightarrow> bool" where
  "ledger_checks r \<longleftrightarrow> (lr_direction r = Debit \<or> lr_direction r = Credit) \<and> 0 < sint (lr_amount r) \<and>
     0 \<le> sint (lr_before r) \<and> 0 \<le> sint (lr_after r) \<and>
     ((lr_direction r = Credit \<and> sint (lr_after r) = sint (lr_before r) + sint (lr_amount r)) \<or>
      (lr_direction r = Debit \<and> sint (lr_after r) = sint (lr_before r) - sint (lr_amount r)))"

text \<open>UNIQUE over nullable columns: NULLs never collide.\<close>

definition same_key :: "'a option \<Rightarrow> 'a option \<Rightarrow> bool" where
  "same_key x y \<longleftrightarrow> x \<noteq> None \<and> x = y"

definition is_opening_row :: "tx_row \<Rightarrow> bool" where
  "is_opening_row r \<longleftrightarrow> tr_kind r = Opening \<and> tr_status r = Processed"

definition is_reversal_row :: "tx_row \<Rightarrow> bool" where
  "is_reversal_row r \<longleftrightarrow> (tr_kind r = Refund \<or> tr_kind r = Rollback) \<and> tr_status r = Processed"

definition tx_conflict :: "tx_row \<Rightarrow> tx_row \<Rightarrow> bool" where
  "tx_conflict a b \<longleftrightarrow> tr_id a = tr_id b \<or>
     (same_key (tr_provider a) (tr_provider b) \<and> same_key (tr_key a) (tr_key b)) \<or>
     (same_key (tr_provider a) (tr_provider b) \<and> same_key (tr_external a) (tr_external b)) \<or>
     (is_opening_row a \<and> is_opening_row b \<and> tr_wallet a = tr_wallet b) \<or>
     (is_reversal_row a \<and> is_reversal_row b \<and> same_key (tr_ref_id a) (tr_ref_id b))"

definition ledger_conflict :: "ledger_row \<Rightarrow> ledger_row \<Rightarrow> bool" where
  "ledger_conflict a b \<longleftrightarrow> lr_id a = lr_id b \<or> (lr_wallet a = lr_wallet b \<and> lr_tx a = lr_tx b) \<or>
     lr_seq a = lr_seq b"

definition inbox_checks :: "inbox_row \<Rightarrow> bool" where
  "inbox_checks r \<longleftrightarrow> len_check (Some (ir_consumer r)) \<and> len_check (Some (ir_message r))"

definition inbox_conflict :: "inbox_row \<Rightarrow> inbox_row \<Rightarrow> bool" where
  "inbox_conflict a b \<longleftrightarrow> ir_id a = ir_id b \<or> (ir_consumer a = ir_consumer b \<and> ir_message a = ir_message b)"

definition has_wallet :: "db \<Rightarrow> string \<Rightarrow> bool" where
  "has_wallet d i = list_ex (\<lambda>w. wr_id w = i) (db_wallets d)"

definition has_tx :: "db \<Rightarrow> string \<Rightarrow> bool" where
  "has_tx d i = list_ex (\<lambda>t. tr_id t = i) (db_txs d)"

definition tx_references_ok :: "db \<Rightarrow> tx_row \<Rightarrow> bool" where
  "tx_references_ok d r \<longleftrightarrow> has_wallet d (tr_wallet r) \<and>
     (case tr_ref_id r of None \<Rightarrow> True | Some i \<Rightarrow> has_tx d i)"

section \<open>A run\<close>

datatype tick = Quiet | Fault | FaultAfter

datatype metric =
    ObserveOperation string string string
  | ObserveDuplicate string
  | ObserveConcurrencyConflict
  | ObserveRequest string nat
  | Count string
  | Gauge string int

text \<open>What the service does to its queues: sending an event, a dead letter, deleting, hiding.\<close>

datatype queue_op =
    SendEvent string json string
  | SendDeadLetter string string string
  | DeleteMessage string
  | SetVisibility string int

record world =
  st_db :: db
  st_ticks :: "tick list"
  st_ids :: "string list"
  st_now :: "gotime list"
  st_pg_now :: gotime
  st_seq :: int
  st_uuid :: "string \<Rightarrow> string option"
  st_time :: "gotime \<Rightarrow> gotime"
  st_metrics :: "metric list"
  st_queue :: "queue_op list"
  st_stopped :: "bool list"
  st_locked :: "string list"

datatype pg_error = PgUnique string | PgCheck | PgForeignKey | PgTrigger | PgOther

text \<open>
  Errors of the application layer. \<open>fmt.Errorf("...: %w", err)\<close> keeps what \<open>errors.Is\<close> and \<open>errors.As\<close>
  look for, so wrapping is the identity here; an error nothing looks into is \<open>Infra\<close>.
\<close>

datatype app_error =
    OpErr op_error
  | ErrNotFound
  | ErrAlreadyExists
  | ErrForbiddenProvider
  | ErrConcurrencyConflict
  | ErrRetryInNewTransaction
  | ErrCorruptedResultingBalance
  | ErrInvalidPersistedTransaction
  | ErrOperationNotPrepared
  | ErrInboxHashMismatch
  | ErrMalformedEnvelope
  | ErrUnknownEnvelopeType
  | WalletErr wallet_error
  | MoneyErr money_error
  | Infra

type_synonym ('e, 'a) tx = "world \<Rightarrow> ('e + 'a) \<times> world"

definition returnT :: "'a \<Rightarrow> ('e, 'a) tx" where
  "returnT x s = (Inr x, s)"

definition failT :: "'e \<Rightarrow> ('e, 'a) tx" where
  "failT e s = (Inl e, s)"

definition bindT :: "('e, 'a) tx \<Rightarrow> ('a \<Rightarrow> ('e, 'b) tx) \<Rightarrow> ('e, 'b) tx" where
  "bindT m k s = (case m s of (Inl e, s') \<Rightarrow> (Inl e, s') | (Inr x, s') \<Rightarrow> k x s')"

definition liftE :: "'e + 'a \<Rightarrow> ('e, 'a) tx" where
  "liftE r s = (r, s)"

text \<open>Runs \<open>m\<close> and goes on with its error or its value.\<close>

definition tryT :: "('e, 'a) tx \<Rightarrow> ('e + 'a \<Rightarrow> ('f, 'b) tx) \<Rightarrow> ('f, 'b) tx" where
  "tryT m k s = (case m s of (r, s') \<Rightarrow> k r s')"

definition map_errT :: "('e \<Rightarrow> 'f) \<Rightarrow> ('e, 'a) tx \<Rightarrow> ('f, 'a) tx" where
  "map_errT f m s = (case m s of (r, s') \<Rightarrow> (map_err f r, s'))"

definition next_tick :: "world \<Rightarrow> tick \<times> world" where
  "next_tick s = (case st_ticks s of [] \<Rightarrow> (Quiet, s) | t # ts \<Rightarrow> (t, s\<lparr>st_ticks := ts\<rparr>))"

text \<open>\<open>uuid.NewV7\<close> through \<open>newID\<close>, and \<open>uc.now()\<close>.\<close>

definition new_id :: "(app_error, string) tx" where
  "new_id s = (case st_ids s of [] \<Rightarrow> (Inl Infra, s) | i # is \<Rightarrow> (Inr i, s\<lparr>st_ids := is\<rparr>))"

definition get_now :: "('e, gotime) tx" where
  "get_now s = (case st_now s of [] \<Rightarrow> (Inr zero_time, s) | t # ts \<Rightarrow> (Inr t, s\<lparr>st_now := ts\<rparr>))"

definition observe :: "metric \<Rightarrow> ('e, unit) tx" where
  "observe m s = (Inr (), s\<lparr>st_metrics := st_metrics s @ [m]\<rparr>)"

text \<open>A call to the queue: a fault loses it, \<open>FaultAfter\<close> loses the answer to one that took effect.\<close>

definition enqueue :: "queue_op \<Rightarrow> (app_error, unit) tx" where
  "enqueue q s = (case next_tick s of (t, s1) \<Rightarrow>
     if t = Quiet then (Inr (), s1\<lparr>st_queue := st_queue s1 @ [q]\<rparr>)
     else if t = Fault then (Inl Infra, s1)
     else (Inl Infra, s1\<lparr>st_queue := st_queue s1 @ [q]\<rparr>))"

text \<open>\<open>ctx.Err() != nil\<close>.\<close>

definition ctx_err :: "('e, bool) tx" where
  "ctx_err s = (case st_stopped s of [] \<Rightarrow> (Inr False, s) | b # bs \<Rightarrow> (Inr b, s\<lparr>st_stopped := bs\<rparr>))"

text \<open>One statement: a fault makes it fail with no effect, an error of its own has no effect either.\<close>

definition pg :: "(world \<Rightarrow> pg_error + (db \<times> 'a)) \<Rightarrow> (pg_error, 'a) tx" where
  "pg f s = (case next_tick s of (t, s1) \<Rightarrow>
     if t \<noteq> Quiet then (Inl PgOther, s1)
     else case f s1 of Inl e \<Rightarrow> (Inl e, s1) | Inr (d, x) \<Rightarrow> (Inr x, s1\<lparr>st_db := d\<rparr>))"

definition pg_read :: "(world \<Rightarrow> 'a) \<Rightarrow> (pg_error, 'a) tx" where
  "pg_read f = pg (\<lambda>s. Inr (st_db s, f s))"

text \<open>
  \<open>UnitOfWork.Execute\<close>: an error of the body rolls back; so does a failed commit, unless the server
  had committed when the connection failed (\<open>FaultAfter\<close>).
\<close>

definition within_tx :: "(app_error, 'a) tx \<Rightarrow> (app_error, 'a) tx" where
  "within_tx body s = (case next_tick s of (t, s1) \<Rightarrow>
     if t \<noteq> Quiet then (Inl Infra, s1)
     else case body s1 of
       (Inl e, s2) \<Rightarrow> (Inl e, s2\<lparr>st_db := st_db s1\<rparr>)
     | (Inr x, s2) \<Rightarrow> (case next_tick s2 of (t', s3) \<Rightarrow>
         if t' = Quiet then (Inr x, s3)
         else if t' = Fault then (Inl Infra, s3\<lparr>st_db := st_db s1\<rparr>)
         else (Inl Infra, s3)))"

section \<open>Statements\<close>

definition sql_insert_wallet :: "wallet_row \<Rightarrow> world \<Rightarrow> pg_error + (db \<times> unit)" where
  "sql_insert_wallet r s = (let d = st_db s in
     if \<not> wallet_checks r then Inl PgCheck
     else if has_wallet d (wr_id r) then Inl (PgUnique ''wallets_id_pk'')
     else if list_ex (\<lambda>w. wr_player w = wr_player r \<and> wr_currency w = wr_currency r) (db_wallets d)
     then Inl (PgUnique ''wallets_player_id_currency_key'')
     else Inr (d\<lparr>db_wallets := db_wallets d @ [r]\<rparr>, ()))"

definition sql_update_wallet ::
    "string \<Rightarrow> int64 \<Rightarrow> (wallet_row \<Rightarrow> wallet_row) \<Rightarrow> world \<Rightarrow> pg_error + (db \<times> nat)" where
  "sql_update_wallet i v f s = (let d = st_db s; hit = (\<lambda>w. wr_id w = i \<and> wr_version w = v) in
     if list_all (\<lambda>w. hit w \<longrightarrow> wallet_checks (f w)) (db_wallets d)
     then Inr (d\<lparr>db_wallets := map (\<lambda>w. if hit w then f w else w) (db_wallets d)\<rparr>,
               length (filter hit (db_wallets d)))
     else Inl PgCheck)"

definition sql_insert_tx :: "tx_row \<Rightarrow> world \<Rightarrow> pg_error + (db \<times> unit)" where
  "sql_insert_tx r s = (let d = st_db s in
     if \<not> tx_checks r then Inl PgCheck
     else if list_ex (tx_conflict r) (db_txs d) then Inl (PgUnique ''wager_transactions'')
     else if \<not> tx_references_ok d r then Inl PgForeignKey
     else Inr (d\<lparr>db_txs := db_txs d @ [r]\<rparr>, ()))"

text \<open>\<open>ON CONFLICT DO NOTHING\<close>: the result is the number of rows affected.\<close>

definition sql_insert_tx_nothing :: "tx_row \<Rightarrow> world \<Rightarrow> pg_error + (db \<times> nat)" where
  "sql_insert_tx_nothing r s = (let d = st_db s in
     if \<not> tx_checks r then Inl PgCheck
     else if list_ex (tx_conflict r) (db_txs d) then Inr (d, 0)
     else if \<not> tx_references_ok d r then Inl PgForeignKey
     else Inr (d\<lparr>db_txs := db_txs d @ [r]\<rparr>, 1))"

text \<open>
  \<open>UPDATE wager_transactions ... WHERE id = i AND status = 'PENDING_REFERENCE'\<close>: the trigger that blocks
  terminal rows, the checks and the unique indexes on the new row.
\<close>

definition sql_update_pending_tx :: "string \<Rightarrow> (tx_row \<Rightarrow> tx_row) \<Rightarrow> world \<Rightarrow> pg_error + (db \<times> nat)" where
  "sql_update_pending_tx i f s =
     (let d = st_db s; hit = (\<lambda>r. tr_id r = i \<and> tr_status r = PendingReference) in
      if list_ex (\<lambda>r. hit r \<and> is_terminal (tr_status r)) (db_txs d) then Inl PgTrigger
      else if list_ex (\<lambda>r. hit r \<and> \<not> tx_checks (f r)) (db_txs d) then Inl PgCheck
      else if list_ex (\<lambda>r. hit r \<and> list_ex (\<lambda>q. tr_id q \<noteq> i \<and> tx_conflict (f r) q) (db_txs d)) (db_txs d)
      then Inl (PgUnique ''wager_transactions'')
      else if list_ex (\<lambda>r. hit r \<and> \<not> tx_references_ok d (f r)) (db_txs d) then Inl PgForeignKey
      else Inr (d\<lparr>db_txs := map (\<lambda>r. if hit r then f r else r) (db_txs d)\<rparr>,
                length (filter hit (db_txs d))))"

definition sql_insert_ledger :: "ledger_row \<Rightarrow> world \<Rightarrow> pg_error + (db \<times> unit)" where
  "sql_insert_ledger r s = (let d = st_db s in
     if \<not> ledger_checks r then Inl PgCheck
     else if list_ex (ledger_conflict r) (db_ledger d) then Inl (PgUnique ''wallet_ledger_entries'')
     else if \<not> has_wallet d (lr_wallet r) \<or> \<not> has_tx d (lr_tx r) then Inl PgForeignKey
     else Inr (d\<lparr>db_ledger := db_ledger d @ [r]\<rparr>, ()))"

definition sql_insert_outbox :: "outbox_row \<Rightarrow> world \<Rightarrow> pg_error + (db \<times> unit)" where
  "sql_insert_outbox r s = (let d = st_db s in
     if list_ex (\<lambda>o'. or_event_id o' = or_event_id r) (db_outbox d) then Inl (PgUnique ''outbox_events_event_id_pk'')
     else Inr (d\<lparr>db_outbox := db_outbox d @ [r]\<rparr>, ()))"

text \<open>
  \<open>UPDATE outbox_events\<close> of the rows \<open>P\<close> picks: the trigger refuses a change of the event's id, type
  or payload.
\<close>

definition sql_update_outbox :: "(outbox_row \<Rightarrow> bool) \<Rightarrow> (outbox_row \<Rightarrow> outbox_row) \<Rightarrow> world \<Rightarrow> pg_error + (db \<times> unit)" where
  "sql_update_outbox P f s = (let d = st_db s in
     if list_ex (\<lambda>r. P r \<and> (or_event_id (f r) \<noteq> or_event_id r \<or> or_event_type (f r) \<noteq> or_event_type r \<or>
          or_payload (f r) \<noteq> or_payload r)) (db_outbox d) then Inl PgTrigger
     else Inr (d\<lparr>db_outbox := map (\<lambda>r. if P r then f r else r) (db_outbox d)\<rparr>, ()))"

definition sql_insert_inbox_nothing :: "inbox_row \<Rightarrow> world \<Rightarrow> pg_error + (db \<times> nat)" where
  "sql_insert_inbox_nothing r s = (let d = st_db s in
     if \<not> inbox_checks r then Inl PgCheck
     else if list_ex (inbox_conflict r) (db_inbox d) then Inr (d, 0)
     else Inr (d\<lparr>db_inbox := db_inbox d @ [r]\<rparr>, 1))"

text \<open>The identity column advances with every attempt, and a rollback does not give numbers back.\<close>

definition next_seq :: "('e, int) tx" where
  "next_seq s = (Inr (st_seq s), s\<lparr>st_seq := st_seq s + 1\<rparr>)"

section \<open>When a run succeeds\<close>

named_theorems run_ok \<open>when a step of a run returns a value\<close>

lemma returnT_ok [run_ok]: "returnT x s = (Inr y, s') \<longleftrightarrow> y = x \<and> s' = s"
  by (auto simp: returnT_def)

lemma failT_ok [run_ok]: "failT e s = (Inr y, s') \<longleftrightarrow> False"
  by (simp add: failT_def)

lemma bindT_ok [run_ok]: "bindT m k s = (Inr y, s') \<longleftrightarrow> (\<exists>x s1. m s = (Inr x, s1) \<and> k x s1 = (Inr y, s'))"
  by (auto simp: bindT_def split: prod.splits sum.splits)

lemma liftE_ok [run_ok]: "liftE r s = (Inr y, s') \<longleftrightarrow> r = Inr y \<and> s' = s"
  by (auto simp: liftE_def)

lemma tryT_ok [run_ok]: "tryT m k s = (r', s') \<longleftrightarrow> (\<exists>r s1. m s = (r, s1) \<and> k r s1 = (r', s'))"
  by (auto simp: tryT_def split: prod.splits)

lemma map_errT_ok [run_ok]: "map_errT f m s = (Inr y, s') \<longleftrightarrow> m s = (Inr y, s')"
  by (auto simp: map_errT_def map_err_def split: prod.splits sum.splits)

lemma new_id_ok [run_ok]: "new_id s = (Inr i, s') \<longleftrightarrow> (\<exists>is. st_ids s = i # is \<and> s' = s\<lparr>st_ids := is\<rparr>)"
  by (auto simp: new_id_def split: list.splits)

lemma observe_ok [run_ok]: "observe m s = (r, s') \<longleftrightarrow> r = Inr () \<and> s' = s\<lparr>st_metrics := st_metrics s @ [m]\<rparr>"
  by (auto simp: observe_def)

text \<open>Steps that leave the database as it was, whatever they return.\<close>

definition db_same :: "('e, 'a) tx \<Rightarrow> bool" where
  "db_same m \<longleftrightarrow> (\<forall>s. st_db (snd (m s)) = st_db s)"

lemma db_sameD: "db_same m \<Longrightarrow> m s = (r, s') \<Longrightarrow> st_db s' = st_db s"
  by (metis db_same_def snd_conv)

lemma next_tick_db [simp]: "st_db (snd (next_tick s)) = st_db s"
  by (simp add: next_tick_def split: list.splits)

lemma next_tick_ok: "next_tick s = (t, s') \<Longrightarrow> st_db s' = st_db s"
  using next_tick_db [of s] by simp

lemma db_same_simps [intro, simp]:
  "db_same (returnT x)" "db_same (failT e)" "db_same (liftE r)" "db_same new_id" "db_same get_now"
  "db_same (observe m)" "db_same next_seq" "db_same (enqueue q)" "db_same ctx_err"
  by (auto simp: db_same_def returnT_def failT_def liftE_def new_id_def get_now_def observe_def
      next_seq_def enqueue_def ctx_err_def dest: next_tick_ok split: list.splits prod.splits)

lemma new_id_db: "new_id s = (r, s') \<Longrightarrow> st_db s' = st_db s"
  by (auto simp: new_id_def split: list.splits)

lemma get_now_db: "get_now s = (r, s') \<Longrightarrow> st_db s' = st_db s"
  by (auto simp: get_now_def split: list.splits)

lemma db_same_bindT [intro]: "db_same m \<Longrightarrow> (\<And>x. db_same (k x)) \<Longrightarrow> db_same (bindT m k)"
  by (simp add: db_same_def bindT_def split: prod.splits sum.splits) (metis snd_conv)

lemma db_same_map_errT [intro]: "db_same m \<Longrightarrow> db_same (map_errT f m)"
  by (simp add: db_same_def map_errT_def split: prod.splits) (metis snd_conv)

lemma db_same_tryT [intro]: "db_same m \<Longrightarrow> (\<And>r. db_same (k r)) \<Longrightarrow> db_same (tryT m k)"
  by (simp add: db_same_def tryT_def split: prod.splits) (metis snd_conv)

lemma db_same_pg_read [intro, simp]: "db_same (pg_read f)"
  by (auto simp: db_same_def pg_read_def pg_def dest: next_tick_ok split: prod.splits)

text \<open>What a statement that went through did, and what one that did not.\<close>

lemma pg_ok:
  "pg f s = (Inr x, s') \<longleftrightarrow> (\<exists>s1 d. next_tick s = (Quiet, s1) \<and> f s1 = Inr (d, x) \<and> s' = s1\<lparr>st_db := d\<rparr>)"
  by (auto simp: pg_def split: prod.splits sum.splits if_splits)

lemma pg_err: "pg f s = (Inl e, s') \<Longrightarrow> st_db s' = st_db s"
  by (auto simp: pg_def dest: next_tick_ok split: prod.splits sum.splits if_splits)

lemma pg_read_ok:
  "pg_read f s = (Inr x, s') \<longleftrightarrow> (\<exists>s1. next_tick s = (Quiet, s1) \<and> x = f s1 \<and> s' = s1)"
  by (auto simp: pg_read_def pg_ok)

text \<open>
  A transaction leaves the database as it was or as its body left it, and never reports success for
  a body whose effects were lost.
\<close>

lemma within_tx_cases:
  assumes "within_tx body s = (r, s')"
  obtains "st_db s' = st_db s" "\<exists>e. r = Inl e"
  | s1 s2 x where "st_db s1 = st_db s" "body s1 = (Inr x, s2)" "st_db s' = st_db s2"
      "r = Inr x \<or> r = Inl Infra"
proof -
  obtain t s1 where t: "next_tick s = (t, s1)" by fastforce
  have d1: "st_db s1 = st_db s" by (rule next_tick_ok [OF t])
  show thesis
  proof (cases "t = Quiet")
    case False
    with assms t d1 that(1) show thesis by (auto simp: within_tx_def)
  next
    case True
    obtain q s2 where q: "body s1 = (q, s2)" by fastforce
    show thesis
    proof (cases q)
      case (Inl e)
      with assms t True q d1 that(1) show thesis by (auto simp: within_tx_def)
    next
      case (Inr x)
      obtain t' s3 where t': "next_tick s2 = (t', s3)" by fastforce
      have d3: "st_db s3 = st_db s2" by (rule next_tick_ok [OF t'])
      show thesis
      proof (cases "t' = Fault")
        case True
        with assms t \<open>t = Quiet\<close> q Inr t' d1 that(1) show thesis by (auto simp: within_tx_def)
      next
        case False
        with assms t \<open>t = Quiet\<close> q Inr t' d1 d3 that(2) [OF d1, of x s2] show thesis
          by (auto simp: within_tx_def split: if_splits)
      qed
    qed
  qed
qed

lemma within_tx_ok:
  assumes "within_tx body s = (Inr x, s')"
  obtains s1 s2 where "st_db s1 = st_db s" "body s1 = (Inr x, s2)" "st_db s' = st_db s2"
  using assms by (rule within_tx_cases) auto

lemma within_tx_db_same:
  assumes "db_same body" shows "db_same (within_tx body)"
  unfolding db_same_def
proof
  fix s
  obtain r s' where w: "within_tx body s = (r, s')" by fastforce
  then show "st_db (snd (within_tx body s)) = st_db s"
    by (rule within_tx_cases) (use assms w db_sameD in fastforce)+
qed
end
