(* ===== verification/Repositories.thy ===== *)
theory Repositories
  imports Database
begin

text \<open>
  The port types of \<open>internal/walletapp/ports.go\<close> and the repositories of \<open>internal/walletpg\<close>: each
  method builds the row, runs its one statement and decodes what comes back. The columns of type
  \<open>UUID\<close> hold canonical texts; only the player of a new wallet arrives in a free spelling.
\<close>

section \<open>Port types\<close>

record transaction_detail =
  td_transaction_id :: string
  td_external_id :: string
  td_provider_id :: string
  td_player_id :: string
  td_wallet_id :: string
  td_round_id :: string
  td_game_id :: string
  td_kind :: wager_kind
  td_origin :: transaction_origin
  td_money :: money
  td_ref_external :: string
  td_ref_id :: string
  td_status :: transaction_status
  td_failure_code :: string
  td_resulting_balance :: "money ptr"
  td_attempts :: int
  td_next_attempt :: "gotime ptr"
  td_expires :: "gotime ptr"
  td_created :: gotime
  td_updated :: gotime

record existing_transaction =
  ex_id :: string
  ex_key :: string
  ex_hash :: string
  ex_external_id :: string
  ex_status :: transaction_status
  ex_failure_code :: string
  ex_resulting_balance :: "int64 ptr"
  ex_currency :: currency
  ex_expires :: "gotime ptr"

record pending_transaction =
  pt_transaction :: wager_transaction
  pt_attempts :: int
  pt_expires :: gotime
  pt_expired :: bool

record audit_entry =
  ae_sequence :: int
  ae_transaction_id :: string
  ae_direction :: direction
  ae_money :: money
  ae_before :: money
  ae_after :: money
  ae_occurred :: gotime

record ledger_page =
  lp_entries :: "audit_entry list"
  lp_next :: "int ptr"

record reconciliation =
  rc_wallet_id :: string
  rc_stored :: money
  rc_calculated :: money
  rc_difference :: money
  rc_checked :: int

record outbox_record =
  ob_event_id :: string
  ob_event_type :: string
  ob_aggregate_type :: string
  ob_aggregate_id :: string
  ob_event_version :: int
  ob_occurred_at :: gotime
  ob_payload :: event

section \<open>Decoding\<close>

text \<open>\<open>Scan\<close> of a nullable column into a plain variable fails on NULL.\<close>

definition scan :: "'a option \<Rightarrow> app_error + 'a" where
  "scan x = (case x of None \<Rightarrow> Inl Infra | Some v \<Rightarrow> Inr v)"

definition or_empty :: "string option \<Rightarrow> string" where
  "or_empty x = (case x of None \<Rightarrow> '''' | Some s \<Rightarrow> s)"

definition null_if_empty :: "string \<Rightarrow> string option" where
  "null_if_empty s = (if s = '''' then None else Some s)"

definition query :: "(world \<Rightarrow> 'a) \<Rightarrow> (app_error, 'a) tx" where
  "query f = map_errT (\<lambda>_. Infra) (pg_read f)"

definition execute :: "(world \<Rightarrow> pg_error + (db \<times> 'a)) \<Rightarrow> (app_error, 'a) tx" where
  "execute f = map_errT (\<lambda>_. Infra) (pg f)"

text \<open>No row is \<open>pgx.ErrNoRows\<close>, which becomes \<open>ErrNotFound\<close>.\<close>

definition found :: "'a option \<Rightarrow> app_error + 'a" where
  "found x = (case x of None \<Rightarrow> Inl ErrNotFound | Some r \<Rightarrow> Inr r)"

section \<open>Wallets\<close>

definition wallet_row_of :: "world \<Rightarrow> wallet \<Rightarrow> int64 \<Rightarrow> currency \<Rightarrow> string \<Rightarrow> wallet_row" where
  "wallet_row_of s w balance c player =
     \<lparr>wr_id = w_id w, wr_player = player, wr_currency = c, wr_balance = balance,
      wr_version = w_version w, wr_created = st_time s (w_created_at w), wr_updated = st_time s (w_updated_at w)\<rparr>"

definition wallets_insert :: "wallet \<Rightarrow> (app_error, unit) tx" where
  "wallets_insert w =
     bindT (liftE (map_err MoneyErr (money_minor_units (w_balance w)))) (\<lambda>balance.
     bindT (liftE (map_err MoneyErr (money_currency (w_balance w)))) (\<lambda>c.
     map_errT (\<lambda>e. if e = PgUnique ''wallets_player_id_currency_key'' then ErrAlreadyExists else Infra)
       (pg (\<lambda>s. case st_uuid s (w_player_id w) of
          None \<Rightarrow> Inl PgOther
        | Some player \<Rightarrow> sql_insert_wallet (wallet_row_of s w balance c player) s))))"

definition decode_wallet :: "wallet_row \<Rightarrow> app_error + wallet" where
  "decode_wallet r =
     bindE (map_err MoneyErr (money_new (wr_balance r) (wr_currency r))) (\<lambda>balance.
     map_err WalletErr (wallet_rehydrate \<lparr>rw_id = wr_id r, rw_player_id = wr_player r,
       rw_currency = wr_currency r, rw_balance = balance, rw_version = wr_version r,
       rw_created_at = wr_created r, rw_updated_at = wr_updated r\<rparr>))"

definition wallets_find :: "string \<Rightarrow> (app_error, wallet) tx" where
  "wallets_find i =
     bindT (query (\<lambda>s. List.find (\<lambda>r. wr_id r = i) (db_wallets (st_db s)))) (\<lambda>row.
     bindT (liftE (found row)) (\<lambda>r. liftE (decode_wallet r)))"

definition wallets_find_by_id :: "string \<Rightarrow> (app_error, wallet) tx" where
  "wallets_find_by_id i = wallets_find i"

definition wallets_find_for_update :: "string \<Rightarrow> (app_error, wallet) tx" where
  "wallets_find_for_update i = wallets_find i"

definition wallets_update_balance :: "wallet \<Rightarrow> int64 \<Rightarrow> (app_error, unit) tx" where
  "wallets_update_balance w previous =
     bindT (liftE (map_err MoneyErr (money_minor_units (w_balance w)))) (\<lambda>balance.
     bindT (execute (\<lambda>s. sql_update_wallet (w_id w) previous
       (\<lambda>r. r\<lparr>wr_balance := balance, wr_version := w_version w, wr_updated := st_time s (w_updated_at w)\<rparr>) s)) (\<lambda>n.
     if n = 0 then failT ErrConcurrencyConflict else returnT ()))"

section \<open>Wager transactions\<close>

definition transaction_fields :: "world \<Rightarrow> wager_transaction \<Rightarrow> int64 ptr \<Rightarrow> app_error + tx_row" where
  "transaction_fields s t balance =
     bindE (map_err MoneyErr (money_minor_units (wt_money t))) (\<lambda>amt.
     bindE (map_err MoneyErr (money_currency (wt_money t))) (\<lambda>c.
     let external = (\<lambda>x. if wt_origin t = External then Some x else None) in
     Inr \<lparr>tr_id = wt_id t, tr_external = external (wt_external_id t), tr_provider = external (wt_provider_id t),
       tr_key = external (wt_key t), tr_hash = external (wt_hash t), tr_wallet = wt_wallet_id t,
       tr_player = wt_player_id t, tr_round = external (wt_round_id t), tr_game = external (wt_game_id t),
       tr_kind = wt_kind t, tr_origin = wt_origin t, tr_amount = amt, tr_currency = c,
       tr_ref_external = null_if_empty (wt_ref_external t), tr_ref_id = null_if_empty (wt_ref_id t),
       tr_status = wt_status t, tr_failure = null_if_empty (wt_failure t), tr_balance = balance,
       tr_attempts = 0, tr_next_attempt = None, tr_expires = None,
       tr_created = st_time s (wt_created_at t), tr_updated = st_time s (wt_updated_at t)\<rparr>))"

definition get_world :: "('e, world) tx" where
  "get_world s = (Inr s, s)"

definition txs_insert :: "wager_transaction \<Rightarrow> int64 ptr \<Rightarrow> (app_error, unit) tx" where
  "txs_insert t balance =
     bindT get_world (\<lambda>s. bindT (liftE (transaction_fields s t balance)) (\<lambda>row.
     execute (sql_insert_tx row)))"

definition txs_insert_new :: "wager_transaction \<Rightarrow> int64 ptr \<Rightarrow> (app_error, bool) tx" where
  "txs_insert_new t balance =
     bindT get_world (\<lambda>s. bindT (liftE (transaction_fields s t balance)) (\<lambda>row.
     bindT (execute (sql_insert_tx_nothing row)) (\<lambda>n. returnT (n = 1))))"

text \<open>\<open>RETURNING pending_expires_at\<close> yields no row when the insert did nothing.\<close>

definition txs_insert_pending :: "wager_transaction \<Rightarrow> gotime \<Rightarrow> int64 \<Rightarrow> (app_error, gotime \<times> bool) tx" where
  "txs_insert_pending t next_attempt ttl =
     bindT get_world (\<lambda>s. bindT (liftE (transaction_fields s t None)) (\<lambda>row.
     let expires = time_add (st_pg_now s) ttl in
     bindT (execute (sql_insert_tx_nothing
       (row\<lparr>tr_next_attempt := Some (st_time s next_attempt), tr_expires := Some expires\<rparr>))) (\<lambda>n.
     if n = 0 then returnT (zero_time, False) else returnT (expires, True))))"

definition decode_existing :: "tx_row \<Rightarrow> app_error + existing_transaction" where
  "decode_existing r =
     bindE (scan (tr_external r)) (\<lambda>external. bindE (scan (tr_key r)) (\<lambda>key. bindE (scan (tr_hash r)) (\<lambda>hash.
     Inr \<lparr>ex_id = tr_id r, ex_key = key, ex_hash = hash, ex_external_id = external, ex_status = tr_status r,
       ex_failure_code = or_empty (tr_failure r), ex_resulting_balance = tr_balance r,
       ex_currency = tr_currency r, ex_expires = tr_expires r\<rparr>)))"

definition find_tx :: "(tx_row \<Rightarrow> bool) \<Rightarrow> (app_error, tx_row option) tx" where
  "find_tx P = query (\<lambda>s. List.find P (db_txs (st_db s)))"

definition txs_find_existing :: "(tx_row \<Rightarrow> bool) \<Rightarrow> (app_error, existing_transaction) tx" where
  "txs_find_existing P =
     bindT (find_tx P) (\<lambda>row. bindT (liftE (found row)) (\<lambda>r. liftE (decode_existing r)))"

definition has_key :: "string \<Rightarrow> string \<Rightarrow> tx_row \<Rightarrow> bool" where
  "has_key p k r \<longleftrightarrow> tr_provider r = Some p \<and> tr_key r = Some k"

definition has_external :: "string \<Rightarrow> string \<Rightarrow> tx_row \<Rightarrow> bool" where
  "has_external p x r \<longleftrightarrow> tr_provider r = Some p \<and> tr_external r = Some x"

definition txs_find_by_key :: "string \<Rightarrow> string \<Rightarrow> (app_error, existing_transaction) tx" where
  "txs_find_by_key p k = txs_find_existing (has_key p k)"

definition txs_find_by_external :: "string \<Rightarrow> string \<Rightarrow> (app_error, existing_transaction) tx" where
  "txs_find_by_external p x = txs_find_existing (has_external p x)"

definition decode_transaction :: "tx_row \<Rightarrow> app_error + wager_transaction" where
  "decode_transaction r =
     bindE (scan (tr_external r)) (\<lambda>external. bindE (scan (tr_provider r)) (\<lambda>provider.
     bindE (scan (tr_key r)) (\<lambda>key. bindE (scan (tr_hash r)) (\<lambda>hash.
     bindE (scan (tr_round r)) (\<lambda>round. bindE (scan (tr_game r)) (\<lambda>game.
     bindE (map_err MoneyErr (money_new (tr_amount r) (tr_currency r))) (\<lambda>m.
     map_err (\<lambda>_. ErrInvalidPersistedTransaction) (rehydrate_transaction
       \<lparr>wt_id = tr_id r, wt_external_id = external, wt_provider_id = provider, wt_key = key, wt_hash = hash,
        wt_wallet_id = tr_wallet r, wt_player_id = tr_player r, wt_round_id = round, wt_game_id = game,
        wt_kind = tr_kind r, wt_origin = tr_origin r, wt_money = m,
        wt_ref_external = or_empty (tr_ref_external r), wt_ref_id = or_empty (tr_ref_id r),
        wt_status = tr_status r, wt_failure = or_empty (tr_failure r),
        wt_created_at = tr_created r, wt_updated_at = tr_updated r\<rparr>))))))))"

definition txs_find_reference :: "string \<Rightarrow> string \<Rightarrow> (app_error, wager_transaction) tx" where
  "txs_find_reference p x =
     bindT (find_tx (has_external p x)) (\<lambda>row. bindT (liftE (found row)) (\<lambda>r. liftE (decode_transaction r)))"

definition reverses :: "string \<Rightarrow> tx_row \<Rightarrow> bool" where
  "reverses i r \<longleftrightarrow> tr_ref_id r = Some i \<and> is_reversal_row r"

definition txs_exists_reversal :: "string \<Rightarrow> (app_error, bool) tx" where
  "txs_exists_reversal i = query (\<lambda>s. list_ex (reverses i) (db_txs (st_db s)))"

text \<open>
  \<open>pending_expires_at\<close> and \<open>pending_expires_at <= now()\<close> are scanned into plain variables: NULL in a
  terminal row is a scan error.
\<close>

definition txs_find_pending_for_update :: "string \<Rightarrow> (app_error, pending_transaction) tx" where
  "txs_find_pending_for_update i =
     bindT get_world (\<lambda>s.
     bindT (find_tx (\<lambda>r. tr_id r = i)) (\<lambda>row.
     bindT (liftE (found row)) (\<lambda>r.
     bindT (liftE (scan (tr_expires r))) (\<lambda>expires.
     bindT (liftE (decode_transaction r)) (\<lambda>t.
     returnT \<lparr>pt_transaction = t, pt_attempts = tr_attempts r, pt_expires = expires,
       pt_expired = (instant expires \<le> instant (st_pg_now s))\<rparr>)))))"

text \<open>\<open>attempts\<close> is an \<open>INT\<close>: a number out of its range is refused by the server.\<close>

definition txs_reschedule_pending :: "string \<Rightarrow> int \<Rightarrow> int64 \<Rightarrow> (app_error, unit) tx" where
  "txs_reschedule_pending i n delay =
     bindT (execute (\<lambda>s. if n < - (2 ^ 31) \<or> 2 ^ 31 \<le> n then Inl PgOther
       else sql_update_pending_tx i (\<lambda>r. r\<lparr>tr_attempts := n,
         tr_next_attempt := Some (time_add (st_pg_now s) delay), tr_updated := st_pg_now s\<rparr>) s)) (\<lambda>k.
     if k \<noteq> 1 then failT ErrNotFound else returnT ())"

definition complete_row :: "world \<Rightarrow> wager_transaction \<Rightarrow> int64 ptr \<Rightarrow> tx_row \<Rightarrow> tx_row" where
  "complete_row s t balance r =
     r\<lparr>tr_ref_id := null_if_empty (wt_ref_id t), tr_status := wt_status t,
       tr_failure := null_if_empty (wt_failure t), tr_balance := balance, tr_next_attempt := None,
       tr_expires := None, tr_updated := st_time s (wt_updated_at t)\<rparr>"

definition txs_complete_pending :: "wager_transaction ptr \<Rightarrow> int64 ptr \<Rightarrow> (app_error, unit) tx" where
  "txs_complete_pending p balance = (case p of None \<Rightarrow> failT Infra | Some t \<Rightarrow>
     bindT (execute (\<lambda>s. sql_update_pending_tx (wt_id t) (complete_row s t balance) s)) (\<lambda>k.
     if k \<noteq> 1 then failT ErrNotFound else returnT ()))"

definition decode_detail :: "tx_row \<Rightarrow> app_error + transaction_detail" where
  "decode_detail r =
     bindE (map_err MoneyErr (money_new (tr_amount r) (tr_currency r))) (\<lambda>m.
     bindE (case tr_balance r of None \<Rightarrow> Inr None
       | Some b \<Rightarrow> map_err MoneyErr (bindE (money_new b (tr_currency r)) (\<lambda>v. Inr (Some v)))) (\<lambda>balance.
     Inr \<lparr>td_transaction_id = tr_id r, td_external_id = or_empty (tr_external r),
       td_provider_id = or_empty (tr_provider r), td_player_id = tr_player r, td_wallet_id = tr_wallet r,
       td_round_id = or_empty (tr_round r), td_game_id = or_empty (tr_game r), td_kind = tr_kind r,
       td_origin = tr_origin r, td_money = m, td_ref_external = or_empty (tr_ref_external r),
       td_ref_id = or_empty (tr_ref_id r), td_status = tr_status r, td_failure_code = or_empty (tr_failure r),
       td_resulting_balance = balance, td_attempts = tr_attempts r, td_next_attempt = tr_next_attempt r,
       td_expires = tr_expires r, td_created = tr_created r, td_updated = tr_updated r\<rparr>))"

definition txs_find_detail :: "(tx_row \<Rightarrow> bool) \<Rightarrow> (app_error, transaction_detail) tx" where
  "txs_find_detail P =
     bindT (find_tx P) (\<lambda>row. bindT (liftE (found row)) (\<lambda>r. liftE (decode_detail r)))"

definition txs_find_detail_by_id :: "string \<Rightarrow> (app_error, transaction_detail) tx" where
  "txs_find_detail_by_id i = txs_find_detail (\<lambda>r. tr_id r = i)"

definition txs_find_detail_by_external :: "string \<Rightarrow> string \<Rightarrow> (app_error, transaction_detail) tx" where
  "txs_find_detail_by_external p x = txs_find_detail (has_external p x)"

section \<open>Ledger\<close>

definition ledger_insert :: "ledger_entry \<Rightarrow> (app_error, unit) tx" where
  "ledger_insert e =
     bindT (liftE (map_err MoneyErr (money_minor_units (le_money e)))) (\<lambda>amt.
     bindT (liftE (map_err MoneyErr (money_currency (le_money e)))) (\<lambda>c.
     bindT (liftE (map_err MoneyErr (money_minor_units (le_balance_before e)))) (\<lambda>before.
     bindT (liftE (map_err MoneyErr (money_minor_units (le_balance_after e)))) (\<lambda>after.
     bindT next_seq (\<lambda>n.
     execute (\<lambda>s. sql_insert_ledger
       \<lparr>lr_id = le_id e, lr_wallet = le_wallet_id e, lr_tx = le_transaction_id e, lr_direction = le_direction e,
        lr_amount = amt, lr_currency = c, lr_before = before, lr_after = after,
        lr_occurred = st_time s (le_occurred_at e), lr_seq = n\<rparr> s))))))"

definition decode_entry :: "ledger_row \<Rightarrow> app_error + audit_entry" where
  "decode_entry r =
     bindE (map_err MoneyErr (money_new (lr_amount r) (lr_currency r))) (\<lambda>m.
     bindE (map_err MoneyErr (money_new (lr_before r) (lr_currency r))) (\<lambda>b.
     bindE (map_err MoneyErr (money_new (lr_after r) (lr_currency r))) (\<lambda>a.
     Inr \<lparr>ae_sequence = lr_seq r, ae_transaction_id = lr_tx r, ae_direction = lr_direction r,
       ae_money = m, ae_before = b, ae_after = a, ae_occurred = utc (lr_occurred r)\<rparr>)))"

fun scan_ledger_entries :: "ledger_row list \<Rightarrow> app_error + audit_entry list" where
  "scan_ledger_entries [] = Inr []"
| "scan_ledger_entries (r # rs) =
     bindE (decode_entry r) (\<lambda>e. bindE (scan_ledger_entries rs) (\<lambda>es. Inr (e # es)))"

definition ledger_list :: "string \<Rightarrow> int \<Rightarrow> nat \<Rightarrow> (app_error, ledger_page) tx" where
  "ledger_list w after limit =
     bindT (query (\<lambda>s. take (limit + 1) (sort_key lr_seq
       (filter (\<lambda>r. lr_wallet r = w \<and> after < lr_seq r) (db_ledger (st_db s)))))) (\<lambda>rows.
     bindT (liftE (scan_ledger_entries rows)) (\<lambda>entries.
     returnT (if limit < length entries
       then \<lparr>lp_entries = take limit entries, lp_next = Some (ae_sequence (entries ! (limit - 1)))\<rparr>
       else \<lparr>lp_entries = entries, lp_next = None\<rparr>)))"

text \<open>
  The sum is Postgres's \<open>numeric\<close>, exact; scanning one that leaves the \<open>int64\<close> range fails. The
  reads share a snapshot, so they run on one database.
\<close>

definition row_effect :: "ledger_row \<Rightarrow> int" where
  "row_effect r = (if lr_direction r = Credit then sint (lr_amount r) else - sint (lr_amount r))"

definition wallet_rows :: "db \<Rightarrow> string \<Rightarrow> ledger_row list" where
  "wallet_rows d w = filter (\<lambda>r. lr_wallet r = w) (db_ledger d)"

definition scan_int64 :: "int \<Rightarrow> app_error + int64" where
  "scan_int64 i = (if - (2 ^ 63) \<le> i \<and> i < 2 ^ 63 then Inr (word_of_int i) else Inl Infra)"

definition ledger_reconcile :: "string \<Rightarrow> (app_error, reconciliation) tx" where
  "ledger_reconcile w = within_tx (
     bindT (query (\<lambda>s. List.find (\<lambda>r. wr_id r = w) (db_wallets (st_db s)))) (\<lambda>row.
     bindT (liftE (found row)) (\<lambda>r.
     bindT (query (\<lambda>s. wallet_rows (st_db s) w)) (\<lambda>rows.
     bindT (liftE (scan_int64 (\<Sum>x\<leftarrow>rows. row_effect x))) (\<lambda>calculated.
     bindT (liftE (map_err MoneyErr (money_new (wr_balance r) (wr_currency r)))) (\<lambda>stored.
     bindT (liftE (map_err MoneyErr (money_new calculated (wr_currency r)))) (\<lambda>c.
     bindT (liftE (map_err MoneyErr (money_subtract stored c))) (\<lambda>difference.
     returnT \<lparr>rc_wallet_id = w, rc_stored = stored, rc_calculated = c, rc_difference = difference,
       rc_checked = int (length rows)\<rparr>))))))))"

section \<open>Outbox\<close>

text \<open>The record a use case builds for an event, with the event itself as payload.\<close>

definition outbox_record_of :: "string \<Rightarrow> event \<Rightarrow> gotime \<Rightarrow> outbox_record" where
  "outbox_record_of aggregate e now =
     (let env = event_envelope_of e in
      \<lparr>ob_event_id = ev_event_id env, ob_event_type = ev_event_type env, ob_aggregate_type = aggregate,
       ob_aggregate_id = ev_aggregate_id env, ob_event_version = ev_version env, ob_occurred_at = now,
       ob_payload = e\<rparr>)"

definition outbox_row_of :: "world \<Rightarrow> outbox_record \<Rightarrow> json \<Rightarrow> outbox_row" where
  "outbox_row_of s r payload =
     \<lparr>or_event_id = ob_event_id r, or_aggregate_type = ob_aggregate_type r,
      or_aggregate_id = ob_aggregate_id r, or_event_type = ob_event_type r,
      or_event_version = ob_event_version r, or_payload = payload, or_occurred = st_time s (ob_occurred_at r),
      or_attempts = 0, or_next_attempt = st_pg_now s, or_locked_until = None, or_published = None,
      or_last_error = None\<rparr>"

definition outbox_insert :: "outbox_record \<Rightarrow> (app_error, unit) tx" where
  "outbox_insert r =
     bindT (liftE (map_err MoneyErr (event_json (ob_payload r)))) (\<lambda>payload.
     execute (\<lambda>s. sql_insert_outbox (outbox_row_of s r payload) s))"

section \<open>What the repositories do when they succeed\<close>

lemma query_ok [run_ok]:
  "query f s = (Inr x, s') \<longleftrightarrow> (next_tick s = (Quiet, s') \<and> f s' = x)"
  by (auto simp: query_def run_ok pg_read_ok)

lemma query_db_same [intro, simp]: "db_same (query f)"
  unfolding query_def by (intro db_same_map_errT db_same_pg_read)

lemma execute_ok:
  "execute f s = (Inr x, s') \<longleftrightarrow> (\<exists>s1 d. next_tick s = (Quiet, s1) \<and> f s1 = Inr (d, x) \<and> s' = s1\<lparr>st_db := d\<rparr>)"
  by (auto simp: execute_def run_ok pg_ok)

lemma found_ok [ok_iff]: "found x = Inr r \<longleftrightarrow> x = Some r"
  by (auto simp: found_def split: option.splits)

lemma scan_ok [ok_iff]: "scan x = Inr r \<longleftrightarrow> x = Some r"
  by (auto simp: scan_def split: option.splits)

lemma get_world_ok [run_ok]: "get_world s = (Inr w, s') \<longleftrightarrow> w = s \<and> s' = s"
  by (auto simp: get_world_def)

lemma get_world_db_same [intro, simp]: "db_same get_world"
  by (simp add: db_same_def get_world_def)

lemma decode_wallet_ok [ok_iff]:
  "decode_wallet r = Inr w \<longleftrightarrow> wallet_ok w \<and> wr_balance r \<noteq> min_int64 \<and> 1 \<le> sint (wr_version r) \<and>
     \<not> is_zero_time (wr_created r) \<and> \<not> is_zero_time (wr_updated r) \<and>
     w = \<lparr>w_id = wr_id r, w_player_id = wr_player r, w_currency = wr_currency r,
          w_balance = \<lparr>minor_units = wr_balance r, currency_of = wr_currency r\<rparr>, w_version = wr_version r,
          w_created_at = utc (wr_created r), w_updated_at = utc (wr_updated r)\<rparr>"
  by (auto simp: decode_wallet_def ok_iff wallet_ok_def)

lemma wallets_find_ok:
  assumes "wallets_find i s = (Inr w, s')"
  obtains r where "r \<in> set (db_wallets (st_db s))" "wr_id r = i" "decode_wallet r = Inr w" "st_db s' = st_db s"
proof -
  obtain r where r: "next_tick s = (Quiet, s')" "List.find (\<lambda>r. wr_id r = i) (db_wallets (st_db s')) = Some r"
      "decode_wallet r = Inr w"
    using assms by (auto simp: wallets_find_def run_ok found_ok)
  show thesis
    using that [of r] find_Some_set [OF r(2)] r(3) next_tick_ok [OF r(1)] by simp
qed

lemma wallets_find_db_same [intro, simp]: "db_same (wallets_find i)"
  unfolding wallets_find_def by (intro db_same_bindT) auto

lemma find_tx_ok:
  assumes "find_tx P s = (Inr (Some r), s')"
  shows "r \<in> set (db_txs (st_db s)) \<and> P r \<and> st_db s' = st_db s"
proof -
  have "next_tick s = (Quiet, s')" "List.find P (db_txs (st_db s')) = Some r"
    using assms by (auto simp: find_tx_def query_ok)
  then show ?thesis using find_Some_set next_tick_ok by metis
qed

lemma find_tx_None:
  assumes "find_tx P s = (Inr None, s')"
  shows "(\<forall>r \<in> set (db_txs (st_db s)). \<not> P r) \<and> st_db s' = st_db s"
proof -
  have "next_tick s = (Quiet, s')" "List.find P (db_txs (st_db s')) = None"
    using assms by (auto simp: find_tx_def query_ok)
  then show ?thesis using find_None_set [of P] next_tick_ok by metis
qed

lemma find_tx_db_same [intro, simp]: "db_same (find_tx P)"
  by (simp add: find_tx_def)

lemma reads_db_same [intro, simp]:
  "db_same (txs_find_existing P)" "db_same (txs_find_reference p x)" "db_same (txs_exists_reversal i)"
  "db_same (txs_find_pending_for_update i)" "db_same (txs_find_detail P)" "db_same (ledger_list w a l)"
  unfolding txs_find_existing_def txs_find_reference_def txs_exists_reversal_def
    txs_find_pending_for_update_def txs_find_detail_def ledger_list_def
  by (auto intro!: db_same_bindT)

lemma read_aliases_db_same [intro, simp]:
  "db_same (wallets_find_by_id i)" "db_same (wallets_find_for_update i)"
  "db_same (txs_find_by_key p k)" "db_same (txs_find_by_external p k)"
  by (simp_all add: wallets_find_by_id_def wallets_find_for_update_def txs_find_by_key_def txs_find_by_external_def)

lemma map_errT_Inr: "map_errT f m s = (Inr y, s') \<Longrightarrow> m s = (Inr y, s')"
  by (simp add: map_errT_ok)

lemma sql_insert_tx_nothing_1:
  "sql_insert_tx_nothing r s = Inr (d, 1) \<Longrightarrow> tx_checks r \<and> \<not> list_ex (tx_conflict r) (db_txs (st_db s)) \<and>
     tx_references_ok (st_db s) r \<and> d = (st_db s)\<lparr>db_txs := db_txs (st_db s) @ [r]\<rparr>"
  by (auto simp: sql_insert_tx_nothing_def Let_def split: if_splits)

lemma sql_insert_tx_nothing_result:
  "sql_insert_tx_nothing r s = Inr (d, n) \<Longrightarrow> n = 1 \<or> (n = 0 \<and> d = st_db s)"
  by (auto simp: sql_insert_tx_nothing_def Let_def split: if_splits)

text \<open>One more row of transactions.\<close>

definition adds_tx :: "db \<Rightarrow> tx_row \<Rightarrow> db \<Rightarrow> bool" where
  "adds_tx d r d' \<longleftrightarrow> tx_checks r \<and> \<not> list_ex (tx_conflict r) (db_txs d) \<and> tx_references_ok d r \<and>
     d' = d\<lparr>db_txs := db_txs d @ [r]\<rparr>"

lemma transaction_fields_ok [ok_iff]:
  "transaction_fields s t balance = Inr row \<longleftrightarrow> is_supported (currency_of (wt_money t)) \<and>
     row = \<lparr>tr_id = wt_id t,
       tr_external = (if wt_origin t = External then Some (wt_external_id t) else None),
       tr_provider = (if wt_origin t = External then Some (wt_provider_id t) else None),
       tr_key = (if wt_origin t = External then Some (wt_key t) else None),
       tr_hash = (if wt_origin t = External then Some (wt_hash t) else None),
       tr_wallet = wt_wallet_id t, tr_player = wt_player_id t,
       tr_round = (if wt_origin t = External then Some (wt_round_id t) else None),
       tr_game = (if wt_origin t = External then Some (wt_game_id t) else None),
       tr_kind = wt_kind t, tr_origin = wt_origin t, tr_amount = minor_units (wt_money t),
       tr_currency = currency_of (wt_money t),
       tr_ref_external = null_if_empty (wt_ref_external t), tr_ref_id = null_if_empty (wt_ref_id t),
       tr_status = wt_status t, tr_failure = null_if_empty (wt_failure t), tr_balance = balance,
       tr_attempts = 0, tr_next_attempt = None, tr_expires = None,
       tr_created = st_time s (wt_created_at t), tr_updated = st_time s (wt_updated_at t)\<rparr>"
  by (auto simp: transaction_fields_def Let_def ok_iff)

lemma txs_insert_ok:
  assumes "txs_insert t balance s = (Inr u, s')"
  obtains row where "transaction_fields s t balance = Inr row" "adds_tx (st_db s) row (st_db s')"
  using assms
  by (auto simp: txs_insert_def run_ok execute_ok sql_insert_tx_def Let_def adds_tx_def
      dest: next_tick_ok split: if_splits)

lemma txs_insert_new_ok:
  assumes "txs_insert_new t balance s = (Inr True, s')"
  obtains row where "transaction_fields s t balance = Inr row" "adds_tx (st_db s) row (st_db s')"
proof -
  obtain row s1 d where *: "transaction_fields s t balance = Inr row" "next_tick s = (Quiet, s1)"
      "sql_insert_tx_nothing row s1 = Inr (d, 1)" "s' = s1\<lparr>st_db := d\<rparr>"
    using assms by (auto simp: txs_insert_new_def run_ok execute_ok)
  show thesis
    using that [OF *(1)] sql_insert_tx_nothing_1 [OF *(3)] next_tick_ok [OF *(2)] *(4)
    by (simp add: adds_tx_def)
qed

lemma txs_insert_new_no:
  assumes "txs_insert_new t balance s = (Inr False, s')"
  shows "st_db s' = st_db s"
proof -
  obtain row s1 d n where *: "next_tick s = (Quiet, s1)" "sql_insert_tx_nothing row s1 = Inr (d, n)" "n \<noteq> 1"
      "s' = s1\<lparr>st_db := d\<rparr>"
    using assms by (auto simp: txs_insert_new_def run_ok execute_ok)
  show ?thesis using sql_insert_tx_nothing_result [OF *(2)] *(3,4) next_tick_ok [OF *(1)] by auto
qed

lemma txs_insert_pending_ok:
  assumes "txs_insert_pending t na ttl s = (Inr (x, True), s')"
  obtains row where "transaction_fields s t None = Inr row"
    "adds_tx (st_db s) (row\<lparr>tr_next_attempt := Some (st_time s na), tr_expires := Some x\<rparr>) (st_db s')"
    "x = time_add (st_pg_now s) ttl"
proof -
  obtain row s1 d n where *: "transaction_fields s t None = Inr row" "next_tick s = (Quiet, s1)"
      "sql_insert_tx_nothing (row\<lparr>tr_next_attempt := Some (st_time s na), tr_expires := Some x\<rparr>) s1 = Inr (d, n)"
      "n \<noteq> 0" "s' = s1\<lparr>st_db := d\<rparr>" "x = time_add (st_pg_now s) ttl"
    using assms by (auto simp: txs_insert_pending_def run_ok execute_ok Let_def split: if_splits)
  have "n = 1" using sql_insert_tx_nothing_result [OF *(3)] *(4) by simp
  with * show thesis
    using that [OF *(1) _ *(6)] sql_insert_tx_nothing_1 [of _ s1 d] next_tick_ok [OF *(2)]
    by (simp add: adds_tx_def)
qed

lemma txs_insert_pending_no:
  assumes "txs_insert_pending t na ttl s = (Inr (x, False), s')"
  shows "st_db s' = st_db s"
proof -
  obtain row s1 d where *: "next_tick s = (Quiet, s1)" "sql_insert_tx_nothing row s1 = Inr (d, 0)"
      "s' = s1\<lparr>st_db := d\<rparr>"
    using assms by (auto simp: txs_insert_pending_def run_ok execute_ok Let_def split: if_splits)
  show ?thesis using sql_insert_tx_nothing_result [OF *(2)] *(3) next_tick_ok [OF *(1)] by auto
qed

lemma next_seq_ok: "next_seq s = (Inr n, s') \<longleftrightarrow> n = st_seq s \<and> s' = s\<lparr>st_seq := st_seq s + 1\<rparr>"
  by (auto simp: next_seq_def)

text \<open>One more entry of the ledger.\<close>

definition entry_row :: "ledger_entry \<Rightarrow> gotime \<Rightarrow> int \<Rightarrow> ledger_row" where
  "entry_row e t n =
     \<lparr>lr_id = le_id e, lr_wallet = le_wallet_id e, lr_tx = le_transaction_id e, lr_direction = le_direction e,
      lr_amount = minor_units (le_money e), lr_currency = currency_of (le_money e),
      lr_before = minor_units (le_balance_before e), lr_after = minor_units (le_balance_after e),
      lr_occurred = t, lr_seq = n\<rparr>"

definition adds_entry :: "db \<Rightarrow> ledger_row \<Rightarrow> db \<Rightarrow> bool" where
  "adds_entry d r d' \<longleftrightarrow> ledger_checks r \<and> \<not> list_ex (ledger_conflict r) (db_ledger d) \<and>
     has_wallet d (lr_wallet r) \<and> has_tx d (lr_tx r) \<and> d' = d\<lparr>db_ledger := db_ledger d @ [r]\<rparr>"

lemma ledger_insert_ok:
  assumes "ledger_insert e s = (Inr u, s')"
  shows "adds_entry (st_db s) (entry_row e (st_time s (le_occurred_at e)) (st_seq s)) (st_db s')"
proof -
  have keep: "next_tick s0 = (t, s1) \<Longrightarrow> st_db s1 = st_db s0 \<and> st_time s1 = st_time s0" for s0 s1 t
    by (auto simp: next_tick_def split: list.splits)
  obtain s1 d where *: "next_tick (s\<lparr>st_seq := st_seq s + 1\<rparr>) = (Quiet, s1)"
      "sql_insert_ledger (entry_row e (st_time s1 (le_occurred_at e)) (st_seq s)) s1 = Inr (d, u)" "s' = s1\<lparr>st_db := d\<rparr>"
    using assms by (auto simp: ledger_insert_def run_ok execute_ok next_seq_ok entry_row_def money_minor_units_def
        money_currency_def ok_iff)
  show ?thesis using keep [OF *(1)] *(2,3)
    by (auto simp: adds_entry_def sql_insert_ledger_def Let_def split: if_splits)
qed

text \<open>The balance of one wallet row, set under the version the caller had read.\<close>

definition set_balance :: "string \<Rightarrow> int64 \<Rightarrow> wallet \<Rightarrow> gotime \<Rightarrow> db \<Rightarrow> db" where
  "set_balance i v w u d = d\<lparr>db_wallets := map (\<lambda>r. if wr_id r = i \<and> wr_version r = v
     then r\<lparr>wr_balance := minor_units (w_balance w), wr_version := w_version w, wr_updated := u\<rparr> else r) (db_wallets d)\<rparr>"

lemma wallets_update_balance_ok:
  assumes "wallets_update_balance w v s = (Inr u, s')"
  shows "\<exists>t. st_db s' = set_balance (w_id w) v w t (st_db s) \<and>
     (\<exists>r \<in> set (db_wallets (st_db s)). wr_id r = w_id w \<and> wr_version r = v) \<and>
     0 \<le> amount (w_balance w) \<and> 1 \<le> sint (w_version w)"
proof -
  define f :: "world \<Rightarrow> wallet_row \<Rightarrow> wallet_row" where "f s1 = (\<lambda>r. r\<lparr>wr_balance := minor_units (w_balance w), wr_version := w_version w,
      wr_updated := st_time s1 (w_updated_at w)\<rparr>)" for s1
  obtain s1 d n where *: "next_tick s = (Quiet, s1)" "sql_update_wallet (w_id w) v (f s1) s1 = Inr (d, n)"
      "n \<noteq> 0" "s' = s1\<lparr>st_db := d\<rparr>"
    using assms by (auto simp: wallets_update_balance_def run_ok execute_ok money_minor_units_def ok_iff f_def
        split: if_splits)
  have d: "d = set_balance (w_id w) v w (st_time s1 (w_updated_at w)) (st_db s1)"
      and all: "\<forall>r \<in> set (db_wallets (st_db s1)). wr_id r = w_id w \<and> wr_version r = v \<longrightarrow> wallet_checks (f s1 r)"
      and n: "n = length (filter (\<lambda>r. wr_id r = w_id w \<and> wr_version r = v) (db_wallets (st_db s1)))"
    using *(2) by (auto simp: sql_update_wallet_def Let_def set_balance_def f_def list_all_iff split: if_splits)
  from n *(3) obtain r where r: "r \<in> set (db_wallets (st_db s1))" "wr_id r = w_id w" "wr_version r = v"
    by (metis (mono_tags, lifting) filter_False length_0_conv)
  with all have "wallet_checks (f s1 r)" by blast
  then show ?thesis using d r *(4) next_tick_ok [OF *(1)] by (auto simp: wallet_checks_def f_def)
qed

lemma wallets_insert_ok:
  assumes "wallets_insert w s = (Inr u, s')"
  obtains row where "wr_id row = w_id w" "wr_balance row = minor_units (w_balance w)"
    "wr_currency row = currency_of (w_balance w)" "wr_version row = w_version w" "wallet_checks row"
    "\<not> has_wallet (st_db s) (wr_id row)"
    "\<forall>r \<in> set (db_wallets (st_db s)). \<not> (wr_player r = wr_player row \<and> wr_currency r = wr_currency row)"
    "st_db s' = (st_db s)\<lparr>db_wallets := db_wallets (st_db s) @ [row]\<rparr>"
proof -
  obtain s1 d player where *: "next_tick s = (Quiet, s1)" "s' = s1\<lparr>st_db := d\<rparr>"
      "sql_insert_wallet (wallet_row_of s1 w (minor_units (w_balance w)) (currency_of (w_balance w)) player) s1 = Inr (d, u)"
    using assms by (auto simp: wallets_insert_def run_ok pg_ok money_minor_units_def money_currency_def ok_iff
        split: option.splits)
  show thesis
    by (rule that [of "wallet_row_of s1 w (minor_units (w_balance w)) (currency_of (w_balance w)) player"])
       (use *(2,3) next_tick_ok [OF *(1)] in \<open>auto simp: sql_insert_wallet_def Let_def wallet_row_of_def list_ex_iff
          split: if_splits\<close>)
qed

text \<open>A pending row rewritten.\<close>

definition sets_pending :: "db \<Rightarrow> string \<Rightarrow> (tx_row \<Rightarrow> tx_row) \<Rightarrow> db \<Rightarrow> bool" where
  "sets_pending d i f d' \<longleftrightarrow>
     (\<exists>r \<in> set (db_txs d). tr_id r = i \<and> tr_status r = PendingReference) \<and>
     (\<forall>r \<in> set (db_txs d). tr_id r = i \<and> tr_status r = PendingReference \<longrightarrow> tx_checks (f r) \<and>
        (\<forall>q \<in> set (db_txs d). tr_id q \<noteq> i \<longrightarrow> \<not> tx_conflict (f r) q) \<and> tx_references_ok d (f r)) \<and>
     d' = d\<lparr>db_txs := map (\<lambda>r. if tr_id r = i \<and> tr_status r = PendingReference then f r else r) (db_txs d)\<rparr>"

lemma sql_update_pending_tx_1:
  assumes "sql_update_pending_tx i f s = Inr (d, n)" "n = 1"
  shows "sets_pending (st_db s) i f d"
proof -
  have "n = length (filter (\<lambda>r. tr_id r = i \<and> tr_status r = PendingReference) (db_txs (st_db s)))"
    using assms(1) by (auto simp: sql_update_pending_tx_def Let_def split: if_splits)
  then have "filter (\<lambda>r. tr_id r = i \<and> tr_status r = PendingReference) (db_txs (st_db s)) \<noteq> []"
    using assms(2) by auto
  then obtain r where "r \<in> set (db_txs (st_db s))" "tr_id r = i" "tr_status r = PendingReference"
    by (auto simp: filter_empty_conv)
  moreover have "\<not> list_ex (\<lambda>r. (tr_id r = i \<and> tr_status r = PendingReference) \<and> \<not> tx_checks (f r)) (db_txs (st_db s))"
    "\<not> list_ex (\<lambda>r. (tr_id r = i \<and> tr_status r = PendingReference) \<and>
        list_ex (\<lambda>q. tr_id q \<noteq> i \<and> tx_conflict (f r) q) (db_txs (st_db s))) (db_txs (st_db s))"
    "\<not> list_ex (\<lambda>r. (tr_id r = i \<and> tr_status r = PendingReference) \<and> \<not> tx_references_ok (st_db s) (f r)) (db_txs (st_db s))"
    "d = (st_db s)\<lparr>db_txs := map (\<lambda>r. if tr_id r = i \<and> tr_status r = PendingReference then f r else r) (db_txs (st_db s))\<rparr>"
    using assms(1) by (simp_all add: sql_update_pending_tx_def Let_def split: if_splits)
  ultimately show ?thesis by (auto simp: sets_pending_def list_ex_iff)
qed

lemma txs_complete_pending_ok:
  assumes "txs_complete_pending (Some t) balance s = (Inr u, s')"
  shows "\<exists>w. sets_pending (st_db s) (wt_id t) (complete_row w t balance) (st_db s')"
proof -
  obtain s1 d where *: "next_tick s = (Quiet, s1)" "s' = s1\<lparr>st_db := d\<rparr>"
      "sql_update_pending_tx (wt_id t) (complete_row s1 t balance) s1 = Inr (d, 1)"
    using assms by (auto simp: txs_complete_pending_def run_ok execute_ok split: if_splits)
  show ?thesis using sql_update_pending_tx_1 [OF *(3)] next_tick_ok [OF *(1)] *(2) by auto
qed

lemma txs_reschedule_pending_ok:
  assumes "txs_reschedule_pending i n delay s = (Inr u, s')"
  shows "\<exists>t t'. sets_pending (st_db s) i
     (\<lambda>r. r\<lparr>tr_attempts := n, tr_next_attempt := Some t, tr_updated := t'\<rparr>) (st_db s')"
proof -
  obtain s1 d where *: "next_tick s = (Quiet, s1)" "s' = s1\<lparr>st_db := d\<rparr>"
      "sql_update_pending_tx i (\<lambda>r. r\<lparr>tr_attempts := n, tr_next_attempt := Some (time_add (st_pg_now s1) delay),
         tr_updated := st_pg_now s1\<rparr>) s1 = Inr (d, 1)"
    using assms by (auto simp: txs_reschedule_pending_def run_ok execute_ok split: if_splits)
  show ?thesis using sql_update_pending_tx_1 [OF *(3)] next_tick_ok [OF *(1)] *(2) by auto
qed

lemma outbox_insert_ok:
  assumes "outbox_insert r s = (Inr u, s')"
  obtains o' where "or_event_id o' = ob_event_id r" "or_aggregate_id o' = ob_aggregate_id r"
    "or_event_type o' = ob_event_type r" "event_json (ob_payload r) = Inr (or_payload o')" "or_published o' = None"
    "\<forall>q \<in> set (db_outbox (st_db s)). or_event_id q \<noteq> or_event_id o'"
    "st_db s' = (st_db s)\<lparr>db_outbox := db_outbox (st_db s) @ [o']\<rparr>"
proof -
  obtain s1 d payload where *: "next_tick s = (Quiet, s1)" "event_json (ob_payload r) = Inr payload"
      "sql_insert_outbox (outbox_row_of s1 r payload) s1 = Inr (d, u)" "s' = s1\<lparr>st_db := d\<rparr>"
    using assms by (auto simp: outbox_insert_def run_ok execute_ok ok_iff)
  show thesis
    by (rule that [of "outbox_row_of s1 r payload"])
       (use *(2-4) next_tick_ok [OF *(1)] in \<open>auto simp: sql_insert_outbox_def Let_def outbox_row_of_def list_ex_iff split: if_splits\<close>)
qed
end
