(* ===== verification/WalletUseCases.thy ===== *)
theory WalletUseCases
  imports Repositories
begin

text \<open>
  Opening a wallet (\<open>internal/walletapp/open_wallet.go\<close>), the reads (\<open>get_wallet.go\<close>,
  \<open>get_transaction.go\<close>, \<open>ledger_audit.go\<close>) and \<open>ClassifyMoneyError\<close> of \<open>errors.go\<close>.
\<close>

definition classify_money_error :: "money_error \<Rightarrow> op_error" where
  "classify_money_error e = (if e = ErrUnsupportedMoneyCurrency then UnsupportedCurrency else InvalidMoney)"

section \<open>Opening\<close>

record open_wallet_input =
  ow_player_id :: string
  ow_initial_balance :: money
  ow_correlation_id :: string

definition money_step :: "money_error + 'a \<Rightarrow> (app_error, 'a) tx" where
  "money_step r = liftE (map_err (\<lambda>e. OpErr (classify_money_error e)) r)"

text \<open>An error of the domain that \<open>Open\<close> answers with \<open>ErrInvalidRequest\<close>.\<close>

definition domain_step :: "wallet_error + 'a \<Rightarrow> (app_error, 'a) tx" where
  "domain_step r = liftE (map_err (\<lambda>_. OpErr InvalidRequest) r)"

definition open_metadata :: "open_wallet_input \<Rightarrow> gotime \<Rightarrow> (app_error, event_metadata) tx" where
  "open_metadata i now = bindT new_id (\<lambda>event_id.
     returnT \<lparr>em_event_id = event_id, em_correlation_id = ow_correlation_id i, em_causation_id = '''',
       em_occurred_at = now\<rparr>)"

text \<open>The function handed to \<open>WithinTx\<close>: \<open>opening\<close> is the transaction beside its entry, if any.\<close>

definition open_body ::
    "open_wallet_input \<Rightarrow> wallet \<Rightarrow> (ledger_entry \<times> wager_transaction) option \<Rightarrow> gotime \<Rightarrow> (app_error, unit) tx" where
  "open_body i w opening now =
     bindT (wallets_insert w) (\<lambda>_.
     case opening of None \<Rightarrow> returnT () | Some (entry, t) \<Rightarrow>
     bindT (liftE (map_err MoneyErr (money_minor_units (w_balance w)))) (\<lambda>balance.
     bindT (txs_insert t (Some balance)) (\<lambda>_.
     bindT (ledger_insert entry) (\<lambda>_.
     bindT (open_metadata i now) (\<lambda>m.
     bindT (liftE (map_err WalletErr (new_processed_event m (Some t)))) (\<lambda>e.
     bindT (outbox_insert (outbox_record_of ''WagerTransaction'' e now)) (\<lambda>_.
     bindT (open_metadata i now) (\<lambda>m'.
     bindT (liftE (map_err WalletErr (new_balance_event m' (Some w) (Some entry)))) (\<lambda>b.
     outbox_insert (outbox_record_of ''Wallet'' b now))))))))))"

text \<open>Ids of the opening transaction and its entry, minted for a positive balance only.\<close>

definition open_ids :: "int \<Rightarrow> (app_error, string \<times> string) tx" where
  "open_ids comparison =
     (if 0 < comparison then bindT new_id (\<lambda>tx_id. bindT new_id (\<lambda>entry_id. returnT (tx_id, entry_id)))
      else returnT ('''', ''''))"

definition open_transaction ::
    "open_wallet_input \<Rightarrow> string \<Rightarrow> string \<Rightarrow> gotime \<Rightarrow> ledger_entry ptr \<Rightarrow>
     (app_error, (ledger_entry \<times> wager_transaction) option) tx" where
  "open_transaction i wallet_id tx_id now entry = (case entry of None \<Rightarrow> returnT None | Some e \<Rightarrow>
     bindT (domain_step (new_opening_transaction \<lparr>pi_id = tx_id, pi_wallet_id = wallet_id,
       pi_player_id = ow_player_id i, pi_money = ow_initial_balance i, pi_created_at = now\<rparr>)) (\<lambda>t0.
     bindT (domain_step (mark_processed (Some t0) now)) (\<lambda>t. returnT (Some (e, t)))))"

definition open_use_case :: "open_wallet_input \<Rightarrow> (app_error, wallet) tx" where
  "open_use_case i =
     bindT (money_step (money_currency (ow_initial_balance i))) (\<lambda>c.
     bindT get_now (\<lambda>t. let now = utc t in
     bindT new_id (\<lambda>wallet_id.
     bindT (money_step (money_zero c)) (\<lambda>zero.
     bindT (money_step (money_compare (ow_initial_balance i) zero)) (\<lambda>comparison.
     bindT (open_ids comparison) (\<lambda>(tx_id, entry_id).
     bindT (domain_step (wallet_open \<lparr>oi_id = wallet_id, oi_player_id = ow_player_id i, oi_currency = c,
       oi_initial_balance = ow_initial_balance i, oi_opening_transaction_id = tx_id,
       oi_ledger_entry_id = entry_id, oi_occurred_at = now\<rparr>)) (\<lambda>(w, entry).
     bindT (open_transaction i wallet_id tx_id now entry) (\<lambda>opening.
     tryT (within_tx (open_body i w opening now)) (\<lambda>res. case res of
       Inl e \<Rightarrow> if e = ErrAlreadyExists then failT (OpErr WalletAlreadyExists) else failT e
     | Inr _ \<Rightarrow> returnT w)))))))))"

section \<open>Reads\<close>

definition not_found_as :: "op_error \<Rightarrow> (app_error, 'a) tx \<Rightarrow> (app_error, 'a) tx" where
  "not_found_as e m = map_errT (\<lambda>x. if x = ErrNotFound then OpErr e else x) m"

definition get_wallet :: "string \<Rightarrow> (app_error, wallet) tx" where
  "get_wallet i = not_found_as WalletNotFound (wallets_find_by_id i)"

record caller =
  ca_provider_id :: string
  ca_is_admin :: bool

definition get_by_id :: "string \<Rightarrow> caller \<Rightarrow> (app_error, transaction_detail) tx" where
  "get_by_id i c = bindT (not_found_as TransactionNotFound (txs_find_detail_by_id i)) (\<lambda>d.
     if ca_is_admin c then returnT d
     else if td_origin d \<noteq> External \<or> td_provider_id d \<noteq> ca_provider_id c
     then failT (OpErr TransactionNotFound) else returnT d)"

definition get_by_provider_external_id ::
    "string \<Rightarrow> string \<Rightarrow> caller \<Rightarrow> (app_error, transaction_detail) tx" where
  "get_by_provider_external_id p x c =
     (if \<not> ca_is_admin c \<and> ca_provider_id c \<noteq> p then failT ErrForbiddenProvider
      else not_found_as TransactionNotFound (txs_find_detail_by_external p x))"

definition audit_list :: "string \<Rightarrow> int \<Rightarrow> nat \<Rightarrow> (app_error, ledger_page) tx" where
  "audit_list w after limit =
     bindT (not_found_as WalletNotFound (wallets_find_by_id w)) (\<lambda>_. ledger_list w after limit)"

definition audit_reconcile :: "string \<Rightarrow> (app_error, reconciliation) tx" where
  "audit_reconcile w = not_found_as WalletNotFound (ledger_reconcile w)"
end
