(* ===== verification/ProcessOperation.thy ===== *)
theory ProcessOperation
  imports Repositories
begin

text \<open>
  The processing use case of \<open>internal/walletapp/process_operation.go\<close>, handler by handler: preparing,
  the attempt inside one transaction, its retry, and the resumption, failure and rescheduling of
  operations that wait for their reference.
\<close>

section \<open>Types\<close>

record process_input =
  pr_request :: request
  pr_key :: string
  pr_correlation_id :: string
  pr_causation_id :: string
  pr_channel :: string

record process_result =
  ps_transaction_id :: string
  ps_status :: transaction_status
  ps_failure_code :: string
  ps_balance :: money
  ps_expires :: "gotime ptr"
  ps_replay :: bool
  ps_kind :: wager_kind

record resume_settings =
  rs_max_attempts :: int
  rs_retry_delay :: int64

type_synonym resume_outcome = string

abbreviation PendingRescheduled :: resume_outcome where "PendingRescheduled \<equiv> ''rescheduled''"
abbreviation PendingProcessed :: resume_outcome where "PendingProcessed \<equiv> ''processed''"
abbreviation PendingRejected :: resume_outcome where "PendingRejected \<equiv> ''rejected''"

record prepared_operation =
  po_input :: process_input
  po_hash :: string
  po_decision :: decision
  po_ready :: bool

text \<open>The use case's own configuration.\<close>

record use_case =
  uc_pending_ttl :: int64

definition new_use_case :: use_case where
  "new_use_case = \<lparr>uc_pending_ttl = 86400000000000\<rparr>"

definition set_pending_reference_ttl :: "int64 \<Rightarrow> use_case \<Rightarrow> use_case" where
  "set_pending_reference_ttl ttl uc = (if 0 <s ttl then uc\<lparr>uc_pending_ttl := ttl\<rparr> else uc)"

section \<open>Preparing\<close>

definition is_valid_idempotency_key :: "string \<Rightarrow> bool" where
  "is_valid_idempotency_key k \<longleftrightarrow> \<not> (length k = 0 \<or> 255 < length k) \<and>
     list_all (\<lambda>c. \<not> (byte_of c < 32 \<or> 126 < byte_of c)) k"

definition hash_app_error :: "hash_error \<Rightarrow> app_error" where
  "hash_app_error e = (case e of HashOp o' \<Rightarrow> OpErr o' | HashEncode m \<Rightarrow> MoneyErr m)"

definition prepare :: "process_input \<Rightarrow> app_error + prepared_operation" where
  "prepare i =
     (if \<not> is_valid_idempotency_key (pr_key i) then Inl (OpErr MissingIdempotencyKey)
      else bindE (map_err hash_app_error (payload_hash (pr_request i))) (\<lambda>h.
      bindE (map_err OpErr (evaluate (pr_request i) None False)) (\<lambda>d.
      Inr \<lparr>po_input = i, po_hash = h, po_decision = d, po_ready = True\<rparr>)))"

section \<open>Looking up what exists\<close>

definition find_existing :: "(app_error, existing_transaction) tx \<Rightarrow> (app_error, existing_transaction ptr) tx" where
  "find_existing m = tryT m (\<lambda>r. case r of
     Inl e \<Rightarrow> if e = ErrNotFound then returnT None else failT e
   | Inr x \<Rightarrow> returnT (Some x))"

definition to_attempt :: "existing_transaction ptr \<Rightarrow> attempt_identity ptr" where
  "to_attempt p = map_option (\<lambda>x. \<lparr>at_key = ex_key x, at_hash = ex_hash x, at_external_id = ex_external_id x\<rparr>) p"

definition replay_result :: "existing_transaction \<Rightarrow> app_error + process_result" where
  "replay_result x =
     (let r = \<lparr>ps_transaction_id = ex_id x, ps_status = ex_status x, ps_failure_code = ex_failure_code x,
        ps_balance = zero_money, ps_expires = ex_expires x, ps_replay = True, ps_kind = ''''\<rparr>
      in case ex_resulting_balance x of None \<Rightarrow> Inr r
       | Some b \<Rightarrow> (case money_new b (ex_currency x) of
           Inl _ \<Rightarrow> Inl ErrCorruptedResultingBalance
         | Inr m \<Rightarrow> Inr (r\<lparr>ps_balance := m\<rparr>)))"

text \<open>\<open>Some\<close> is the answer of a handled attempt, \<open>None\<close> a new one.\<close>

definition lookup_existing :: "request \<Rightarrow> string \<Rightarrow> string \<Rightarrow> (app_error, process_result option) tx" where
  "lookup_existing r key hash =
     bindT (find_existing (txs_find_by_key (rq_provider_id r) key)) (\<lambda>by_key.
     bindT (find_existing (txs_find_by_external (rq_provider_id r) (rq_external_id r))) (\<lambda>by_external.
     let c = classify_attempt \<lparr>at_key = key, at_hash = hash, at_external_id = rq_external_id r\<rparr>
               (to_attempt by_key) (to_attempt by_external)
     in if ad_kind c = Replay then
          (case by_key of None \<Rightarrow> failT Infra
           | Some x \<Rightarrow> bindT (liftE (replay_result x)) (\<lambda>res. returnT (Some (res\<lparr>ps_kind := rq_kind r\<rparr>))))
        else if ad_kind c = AttemptConflict then
          (case ad_error c of None \<Rightarrow> failT Infra | Some e \<Rightarrow> failT (OpErr e))
        else returnT None))"

definition resolve_decision ::
    "request \<Rightarrow> decision \<Rightarrow> (app_error, decision \<times> wager_transaction ptr) tx" where
  "resolve_decision r d =
     (if dc_action d \<noteq> WaitForReference then returnT (d, None)
      else case rq_reference r of None \<Rightarrow> failT Infra | Some x \<Rightarrow>
      tryT (txs_find_reference (rq_provider_id r) x) (\<lambda>res. case res of
        Inl e \<Rightarrow> if e = ErrNotFound then returnT (d, None) else failT e
      | Inr t \<Rightarrow>
        bindT (if wt_status t = Processed then txs_exists_reversal (wt_id t) else returnT False) (\<lambda>reversed.
        bindT (liftE (map_err OpErr (evaluate r (Some t) reversed))) (\<lambda>resolved.
        returnT (resolved, Some t)))))"

section \<open>Outbox events\<close>

definition write_outbox_events ::
    "wager_transaction \<Rightarrow> wallet \<Rightarrow> ledger_entry ptr \<Rightarrow> string \<Rightarrow> string \<Rightarrow> gotime \<Rightarrow> (app_error, unit) tx" where
  "write_outbox_events t w entry correlation causation now =
     bindT new_id (\<lambda>event_id.
     let metadata = \<lparr>em_event_id = event_id, em_correlation_id = correlation,
           em_causation_id = causation, em_occurred_at = now\<rparr> in
     if wt_status t = Rejected then
       bindT (liftE (map_err WalletErr (new_rejected_event metadata (Some t)))) (\<lambda>e.
       outbox_insert (outbox_record_of ''WagerTransaction'' e now))
     else if wt_status t = Failed then returnT ()
     else
       bindT (liftE (map_err WalletErr (new_processed_event metadata (Some t)))) (\<lambda>e.
       bindT (outbox_insert (outbox_record_of ''WagerTransaction'' e now)) (\<lambda>_.
       if entry = None then returnT ()
       else bindT new_id (\<lambda>balance_event_id.
         bindT (liftE (map_err WalletErr (new_balance_event
           \<lparr>em_event_id = balance_event_id, em_correlation_id = correlation,
            em_causation_id = causation, em_occurred_at = now\<rparr> (Some w) entry))) (\<lambda>b.
         outbox_insert (outbox_record_of ''Wallet'' b now))))))"

section \<open>A new operation\<close>

definition external_input_of :: "process_input \<Rightarrow> string \<Rightarrow> string \<Rightarrow> string \<Rightarrow> gotime \<Rightarrow> external_input" where
  "external_input_of i hash tx_id reference_id now =
     (let r = pr_request i in
      \<lparr>xi_id = tx_id, xi_external_id = rq_external_id r, xi_provider_id = rq_provider_id r,
       xi_key = pr_key i, xi_hash = hash, xi_wallet_id = rq_wallet_id r, xi_player_id = rq_player_id r,
       xi_round_id = rq_round_id r, xi_game_id = rq_game_id r, xi_kind = rq_kind r, xi_money = rq_money r,
       xi_ref_external = or_empty (rq_reference r), xi_ref_id = reference_id, xi_created_at = now\<rparr>)"

text \<open>\<open>None\<close> stands for the second result \<open>retry\<close>.\<close>

definition process_pending_new ::
    "use_case \<Rightarrow> wallet \<Rightarrow> process_input \<Rightarrow> string \<Rightarrow> gotime \<Rightarrow> (app_error, process_result option) tx" where
  "process_pending_new uc w i hash now =
     bindT new_id (\<lambda>tx_id.
     bindT (liftE (map_err WalletErr (new_external_transaction (external_input_of i hash tx_id '''' now)))) (\<lambda>t0.
     bindT (liftE (map_err WalletErr (mark_pending_reference (Some t0) now))) (\<lambda>t.
     bindT (txs_insert_pending t now (uc_pending_ttl uc)) (\<lambda>(expires, inserted).
     if \<not> inserted then returnT None
     else bindT new_id (\<lambda>event_id.
       bindT (liftE (map_err WalletErr (new_pending_event
         \<lparr>em_event_id = event_id, em_correlation_id = pr_correlation_id i,
          em_causation_id = pr_causation_id i, em_occurred_at = now\<rparr> (Some t) expires))) (\<lambda>e.
       bindT (outbox_insert (outbox_record_of ''WagerTransaction'' e now)) (\<lambda>_.
       returnT (Some \<lparr>ps_transaction_id = wt_id t, ps_status = PendingReference, ps_failure_code = '''',
         ps_balance = zero_money, ps_expires = Some expires, ps_replay = False,
         ps_kind = rq_kind (pr_request i)\<rparr>))))))))"

text \<open>
  The movement of a new operation: the wallet and entry after it, or the rejection code. \<open>Debit\<close> and
  \<open>Credit\<close> change the aggregate in place only when they succeed.
\<close>

definition move_new ::
    "wallet \<Rightarrow> decision \<Rightarrow> request \<Rightarrow> string \<Rightarrow> gotime \<Rightarrow>
     (app_error, wallet \<times> ledger_entry ptr \<times> op_error ptr) tx" where
  "move_new w d r tx_id now =
     (if dc_action d = Reject then returnT (w, None, dc_error d)
      else if dc_direction d \<noteq> '''' then
        bindT new_id (\<lambda>entry_id.
        let m = \<lparr>mi_ledger_entry_id = entry_id, mi_transaction_id = tx_id, mi_money = rq_money r, mi_occurred_at = now\<rparr>
        in case (if dc_direction d = Debit then wallet_debit (Some w) m else wallet_credit (Some w) m) of
          Inl e \<Rightarrow> if e \<noteq> ErrInsufficientFunds then failT (WalletErr e)
                   else returnT (w, None, Some (insufficient_funds_for (rq_kind r)))
        | Inr (entry, w') \<Rightarrow> returnT (w', Some entry, None))
      else returnT (w, None, None))"

text \<open>The ledger entry and the version-conditioned update, for an operation that moved money.\<close>

definition persist_movement :: "wallet \<Rightarrow> ledger_entry ptr \<Rightarrow> (app_error, unit) tx" where
  "persist_movement w entry = (case entry of None \<Rightarrow> returnT () | Some e \<Rightarrow>
     bindT (ledger_insert e) (\<lambda>_.
     tryT (wallets_update_balance w (w_version w - 1)) (\<lambda>res. case res of
       Inl err \<Rightarrow> bindT (if err = ErrConcurrencyConflict then observe ObserveConcurrencyConflict else returnT ())
                   (\<lambda>_. failT err)
     | Inr _ \<Rightarrow> returnT ())))"

text \<open>From the insert on: \<open>w\<close> is the wallet after the movement, \<open>t\<close> the terminal transaction.\<close>

definition record_new ::
    "process_input \<Rightarrow> wallet \<Rightarrow> ledger_entry ptr \<Rightarrow> wager_transaction \<Rightarrow> gotime \<Rightarrow> (app_error, process_result option) tx" where
  "record_new i w entry t now =
     bindT (liftE (map_err MoneyErr (money_minor_units (w_balance w)))) (\<lambda>balance.
     bindT (txs_insert_new t (Some balance)) (\<lambda>inserted.
     if \<not> inserted then returnT None
     else
       bindT (persist_movement w entry) (\<lambda>_.
       bindT (write_outbox_events t w entry (pr_correlation_id i) (pr_causation_id i) now) (\<lambda>_.
       bindT (liftE (case money_new balance (w_currency w) of
           Inl _ \<Rightarrow> Inl ErrCorruptedResultingBalance | Inr m \<Rightarrow> Inr m)) (\<lambda>m.
       returnT (Some \<lparr>ps_transaction_id = wt_id t, ps_status = wt_status t, ps_failure_code = wt_failure t,
         ps_balance = m, ps_expires = None, ps_replay = False, ps_kind = rq_kind (pr_request i)\<rparr>))))))"

definition mark_outcome :: "wager_transaction \<Rightarrow> op_error ptr \<Rightarrow> gotime \<Rightarrow> wallet_error + wager_transaction" where
  "mark_outcome t rejected now = (case rejected of
     Some e \<Rightarrow> mark_rejected (Some t) (err_code e) now
   | None \<Rightarrow> mark_processed (Some t) now)"

definition process_new ::
    "wallet \<Rightarrow> process_input \<Rightarrow> string \<Rightarrow> decision \<Rightarrow> wager_transaction ptr \<Rightarrow> gotime \<Rightarrow>
     (app_error, process_result option) tx" where
  "process_new w0 i hash d reference now =
     bindT new_id (\<lambda>tx_id.
     bindT (liftE (map_err WalletErr (new_external_transaction
       (external_input_of i hash tx_id (tx_id_of reference) now)))) (\<lambda>t0.
     bindT (move_new w0 d (pr_request i) tx_id now) (\<lambda>(w, entry, rejected).
     bindT (liftE (map_err WalletErr (mark_outcome t0 rejected now))) (\<lambda>t.
     record_new i w entry t now))))"

section \<open>The attempt and its transaction\<close>

definition attempt ::
    "use_case \<Rightarrow> process_input \<Rightarrow> string \<Rightarrow> decision \<Rightarrow> gotime \<Rightarrow> (app_error, process_result option) tx" where
  "attempt uc i hash d now =
     (let r = pr_request i in
     tryT (wallets_find_for_update (rq_wallet_id r)) (\<lambda>res. case res of
       Inl e \<Rightarrow> if e = ErrNotFound then failT (OpErr WalletNotFound) else failT e
     | Inr w \<Rightarrow>
       if w_player_id w \<noteq> rq_player_id r then failT (OpErr WalletPlayerMismatch)
       else bindT (liftE (map_err MoneyErr (money_currency (rq_money r)))) (\<lambda>c.
       if w_currency w \<noteq> c then failT (OpErr WalletCurrencyMismatch)
       else bindT (lookup_existing r (pr_key i) hash) (\<lambda>existing. case existing of
         Some answer \<Rightarrow> returnT (Some answer)
       | None \<Rightarrow>
         bindT (resolve_decision r d) (\<lambda>(resolved, reference).
         if dc_action resolved = WaitForReference then process_pending_new uc w i hash now
         else process_new w i hash resolved reference now)))))"

definition execute_in_tx :: "use_case \<Rightarrow> prepared_operation \<Rightarrow> (app_error, process_result) tx" where
  "execute_in_tx uc p =
     (if \<not> po_ready p then failT ErrOperationNotPrepared
      else bindT get_now (\<lambda>now.
      bindT (attempt uc (po_input p) (po_hash p) (po_decision p) now) (\<lambda>res. case res of
        None \<Rightarrow> failT ErrRetryInNewTransaction
      | Some answer \<Rightarrow> returnT answer)))"

definition run_in_new_tx :: "use_case \<Rightarrow> prepared_operation \<Rightarrow> (app_error, process_result) tx" where
  "run_in_new_tx uc p = within_tx (execute_in_tx uc p)"

definition process_with_retry :: "use_case \<Rightarrow> prepared_operation \<Rightarrow> (app_error, process_result) tx" where
  "process_with_retry uc p =
     tryT (run_in_new_tx uc p) (\<lambda>res.
     if res \<noteq> Inl ErrRetryInNewTransaction then liftE res
     else bindT (observe ObserveConcurrencyConflict) (\<lambda>_.
       tryT (run_in_new_tx uc p) (\<lambda>res'.
       if res' = Inl ErrRetryInNewTransaction then failT (OpErr TemporarilyUnavailable) else liftE res')))"

definition record_outcome :: "string \<Rightarrow> process_result \<Rightarrow> (app_error, unit) tx" where
  "record_outcome channel res =
     bindT (observe (ObserveOperation channel (ps_kind res) (ps_status res))) (\<lambda>_.
     if ps_replay res then observe (ObserveDuplicate channel) else returnT ())"

text \<open>\<open>Process\<close>; \<open>faultinject.Trigger\<close> is a no-op outside the builds that test crashes.\<close>

definition process :: "use_case \<Rightarrow> process_input \<Rightarrow> (app_error, process_result) tx" where
  "process uc i =
     bindT get_now (\<lambda>_.
     bindT (liftE (prepare i)) (\<lambda>p.
     bindT (process_with_retry uc p) (\<lambda>res.
     bindT get_now (\<lambda>_.
     bindT (record_outcome (pr_channel i) res) (\<lambda>_. returnT res)))))"

section \<open>Pending operations\<close>

definition reject_pending ::
    "wager_transaction \<Rightarrow> wallet \<Rightarrow> op_error \<Rightarrow> gotime \<Rightarrow> (app_error, resume_outcome) tx" where
  "reject_pending t w e now =
     bindT (liftE (map_err WalletErr (mark_rejected (Some t) (err_code e) now))) (\<lambda>t'.
     bindT (liftE (map_err MoneyErr (money_minor_units (w_balance w)))) (\<lambda>balance.
     bindT (txs_complete_pending (Some t') (Some balance)) (\<lambda>_.
     bindT (write_outbox_events t' w None (wt_id t') (wt_id t') now) (\<lambda>_.
     returnT PendingRejected))))"

definition process_pending ::
    "wager_transaction \<Rightarrow> wallet \<Rightarrow> decision \<Rightarrow> gotime \<Rightarrow> (app_error, resume_outcome) tx" where
  "process_pending t w d now =
     bindT new_id (\<lambda>entry_id.
     let m = \<lparr>mi_ledger_entry_id = entry_id, mi_transaction_id = wt_id t, mi_money = wt_money t, mi_occurred_at = now\<rparr>
     in case (if dc_direction d = Debit then wallet_debit (Some w) m else wallet_credit (Some w) m) of
       Inl e \<Rightarrow> if e = ErrInsufficientFunds then reject_pending t w (insufficient_funds_for (wt_kind t)) now
                else failT (WalletErr e)
     | Inr (entry, w') \<Rightarrow>
       bindT (liftE (map_err WalletErr (mark_processed (Some t) now))) (\<lambda>t'.
       bindT (liftE (map_err MoneyErr (money_minor_units (w_balance w')))) (\<lambda>balance.
       bindT (txs_complete_pending (Some t') (Some balance)) (\<lambda>_.
       bindT (ledger_insert entry) (\<lambda>_.
       bindT (wallets_update_balance w' (w_version w' - 1)) (\<lambda>_.
       bindT (write_outbox_events t' w' (Some entry) (wt_id t') (wt_id t') now) (\<lambda>_.
       returnT PendingProcessed)))))))"

definition pending_request :: "wager_transaction \<Rightarrow> request" where
  "pending_request t =
     \<lparr>rq_provider_id = wt_provider_id t, rq_external_id = wt_external_id t, rq_player_id = wt_player_id t,
      rq_wallet_id = wt_wallet_id t, rq_round_id = wt_round_id t, rq_game_id = wt_game_id t,
      rq_kind = wt_kind t, rq_money = wt_money t, rq_reference = Some (wt_ref_external t)\<rparr>"

text \<open>The decision once the pending row is locked; \<open>''''\<close> is an outcome that was never set.\<close>

definition resume_decided ::
    "resume_settings \<Rightarrow> pending_transaction \<Rightarrow> wallet \<Rightarrow> decision \<Rightarrow> wager_transaction ptr \<Rightarrow> gotime \<Rightarrow>
     (app_error, resume_outcome) tx" where
  "resume_decided settings pending w d reference now =
     (let t = pt_transaction pending in
     if dc_action d = Reject then
       bindT (case reference of None \<Rightarrow> returnT t
         | Some f \<Rightarrow> liftE (map_err WalletErr (resolve_reference (Some t) (wt_id f)))) (\<lambda>t'.
       case dc_error d of None \<Rightarrow> failT Infra | Some e \<Rightarrow> reject_pending t' w e now)
     else if dc_action d = Process then
       (case reference of None \<Rightarrow> failT Infra
        | Some f \<Rightarrow> bindT (liftE (map_err WalletErr (resolve_reference (Some t) (wt_id f)))) (\<lambda>t'.
            process_pending t' w d now))
     else if pt_expired pending \<or> (0 < rs_max_attempts settings \<and> rs_max_attempts settings \<le> pt_attempts pending) then
       tryT (txs_find_reference (wt_provider_id t) (wt_ref_external t)) (\<lambda>res. case res of
         Inr f \<Rightarrow> bindT (liftE (map_err WalletErr (resolve_reference (Some t) (wt_id f)))) (\<lambda>t'.
                   reject_pending t' w ReferenceNotProcessed now)
       | Inl e \<Rightarrow> if e \<noteq> ErrNotFound then failT e else reject_pending t w ReferenceNotFound now)
     else if dc_action d = WaitForReference then
       bindT (txs_reschedule_pending (wt_id t) (pt_attempts pending + 1) (rs_retry_delay settings)) (\<lambda>_.
       returnT PendingRescheduled)
     else failT Infra)"

definition resume_body ::
    "string \<Rightarrow> string \<Rightarrow> resume_settings \<Rightarrow> (app_error, resume_outcome) tx" where
  "resume_body tx_id wallet_id settings =
     bindT get_now (\<lambda>now.
     bindT (wallets_find_for_update wallet_id) (\<lambda>w.
     tryT (txs_find_pending_for_update tx_id) (\<lambda>res. case res of
       Inl e \<Rightarrow> if e = ErrNotFound then returnT '''' else failT e
     | Inr pending \<Rightarrow>
       let t = pt_transaction pending in
       if wt_status t \<noteq> PendingReference then returnT ''''
       else
         bindT (liftE (map_err OpErr (evaluate (pending_request t) None False))) (\<lambda>d0.
         bindT (resolve_decision (pending_request t) d0) (\<lambda>(d, reference).
         resume_decided settings pending w d reference now)))))"

definition resume_pending :: "string \<Rightarrow> string \<Rightarrow> resume_settings \<Rightarrow> (app_error, resume_outcome) tx" where
  "resume_pending tx_id wallet_id settings = within_tx (resume_body tx_id wallet_id settings)"

definition fail_pending :: "string \<Rightarrow> string \<Rightarrow> (app_error, unit) tx" where
  "fail_pending tx_id wallet_id = within_tx (
     bindT get_now (\<lambda>now.
     bindT (wallets_find_for_update wallet_id) (\<lambda>_.
     tryT (txs_find_pending_for_update tx_id) (\<lambda>res. case res of
       Inl e \<Rightarrow> if e = ErrNotFound then returnT () else failT e
     | Inr pending \<Rightarrow>
       let t = pt_transaction pending in
       if wt_status t \<noteq> PendingReference then returnT ()
       else bindT (liftE (map_err WalletErr (mark_failed (Some t) (err_code PermanentProcessingFailure) now))) (\<lambda>t'.
         txs_complete_pending (Some t') None)))))"

definition reschedule_pending_after_failure :: "string \<Rightarrow> string \<Rightarrow> int64 \<Rightarrow> (app_error, unit) tx" where
  "reschedule_pending_after_failure tx_id wallet_id delay = within_tx (
     bindT (wallets_find_for_update wallet_id) (\<lambda>_.
     tryT (txs_find_pending_for_update tx_id) (\<lambda>res. case res of
       Inl e \<Rightarrow> if e = ErrNotFound then returnT () else failT e
     | Inr pending \<Rightarrow>
       if wt_status (pt_transaction pending) \<noteq> PendingReference then returnT ()
       else txs_reschedule_pending tx_id (pt_attempts pending + 1) delay)))"
end
