(* ===== verification/JsonDecode.thy ===== *)
theory JsonDecode
  imports Json
begin

text \<open>
  Reading JSON the way \<open>encoding/json\<close> does for this program: one value from a byte stream, decoded
  into a struct with \<open>DisallowUnknownFields\<close>, and nothing but white space after it. Used by the
  consumer's envelope, the HTTP bodies and \<open>Money.UnmarshalJSON\<close>.
\<close>

section \<open>Values\<close>

datatype jvalue =
    VNull
  | VBool bool
  | VNumber string
  | VString string
  | VArray "jvalue list"
  | VObject "(string \<times> jvalue) list"

definition is_ws :: "char \<Rightarrow> bool" where
  "is_ws c \<longleftrightarrow> c = CHR '' '' \<or> c = CHR 0x09 \<or> c = CHR 0x0D \<or> c = CHR 0x0A"

definition skip_ws :: "string \<Rightarrow> string" where
  "skip_ws s = dropWhile is_ws s"

lemma length_skip_ws: "length (skip_ws s) \<le> length s"
  by (simp add: skip_ws_def length_dropWhile_le)

section \<open>Strings\<close>

definition hex_value :: "char \<Rightarrow> nat option" where
  "hex_value c = (let n = byte_of c in
     if 48 \<le> n \<and> n \<le> 57 then Some (n - 48)
     else if 97 \<le> n \<and> n \<le> 102 then Some (n - 87)
     else if 65 \<le> n \<and> n \<le> 70 then Some (n - 55) else None)"

text \<open>Four hexadecimal digits at the front.\<close>

definition hex4 :: "string \<Rightarrow> nat option" where
  "hex4 s = (case s of
     a # b # c # d # _ \<Rightarrow>
       (case (hex_value a, hex_value b, hex_value c, hex_value d) of
          (Some x, Some y, Some z, Some w) \<Rightarrow> Some (((x * 16 + y) * 16 + z) * 16 + w)
        | _ \<Rightarrow> None)
   | _ \<Rightarrow> None)"

text \<open>\<open>utf8.EncodeRune\<close>; a surrogate becomes U+FFFD.\<close>

definition utf8_encode :: "nat \<Rightarrow> string" where
  "utf8_encode n =
     (if n < 128 then [char_of n]
      else if n < 2048 then [char_of (192 + n div 64), char_of (128 + n mod 64)]
      else if 55296 \<le> n \<and> n < 57344 then [CHR 0xEF, CHR 0xBF, CHR 0xBD]
      else if n < 65536 then [char_of (224 + n div 4096), char_of (128 + n div 64 mod 64), char_of (128 + n mod 64)]
      else [char_of (240 + n div 262144), char_of (128 + n div 4096 mod 64), char_of (128 + n div 64 mod 64),
            char_of (128 + n mod 64)])"

definition replacement :: string where
  "replacement = [CHR 0xEF, CHR 0xBF, CHR 0xBD]"

text \<open>A high surrogate, escaped, and the low one escaped after it.\<close>

definition low_surrogate :: "string \<Rightarrow> nat option" where
  "low_surrogate s = (case s of
     a # b # r \<Rightarrow> if a = backslash \<and> b = CHR ''u'' then
       (case hex4 r of None \<Rightarrow> None | Some n \<Rightarrow> if 56320 \<le> n \<and> n < 57344 then Some n else None) else None
   | _ \<Rightarrow> None)"

definition simple_escape :: "char \<Rightarrow> char option" where
  "simple_escape c =
     (if c = quote_char \<or> c = backslash \<or> c = CHR ''/'' then Some c
      else if c = CHR ''b'' then Some (CHR 0x08)
      else if c = CHR ''f'' then Some (CHR 0x0C)
      else if c = CHR ''n'' then Some (CHR 0x0A)
      else if c = CHR ''r'' then Some (CHR 0x0D)
      else if c = CHR ''t'' then Some (CHR 0x09) else None)"

text \<open>What one step of a string literal reads: the bytes it stands for and how many it takes.\<close>

definition string_step :: "string \<Rightarrow> (string \<times> nat) option" where
  "string_step s = (case s of
     [] \<Rightarrow> None
   | c # r \<Rightarrow>
       if c = backslash then
         (case r of [] \<Rightarrow> None
          | e # r' \<Rightarrow>
              if e = CHR ''u'' then
                (case hex4 r' of None \<Rightarrow> None
                 | Some n \<Rightarrow>
                     if 55296 \<le> n \<and> n < 56320 then
                       (case low_surrogate (drop 4 r') of
                          Some m \<Rightarrow> Some (utf8_encode (65536 + (n - 55296) * 1024 + (m - 56320)), 12)
                        | None \<Rightarrow> Some (replacement, 6))
                     else Some (utf8_encode n, 6))
              else (case simple_escape e of None \<Rightarrow> None | Some x \<Rightarrow> Some ([x], 2)))
       else if byte_of c < 32 then None
       else (case rune_size s of None \<Rightarrow> Some (replacement, 1) | Some n \<Rightarrow> Some (take n s, n)))"

lemma string_step_pos: "string_step s = Some (x, n) \<Longrightarrow> 0 < n \<and> s \<noteq> []"
  by (auto simp: string_step_def dest: rune_size_pos split: list.splits option.splits if_splits)

text \<open>A string literal after its opening quote, and the rest after its closing one.\<close>

function parse_str :: "string \<Rightarrow> (string \<times> string) option" where
  "parse_str s =
     (if s \<noteq> [] \<and> hd s = quote_char then Some ([], tl s)
      else case string_step s of
        None \<Rightarrow> None
      | Some (x, n) \<Rightarrow> (case parse_str (drop n s) of None \<Rightarrow> None | Some (y, r) \<Rightarrow> Some (x @ y, r)))"
  by auto
termination
  by (relation "measure length") (auto dest!: string_step_pos)

declare parse_str.simps [simp del]

lemma parse_str_shorter: "parse_str s = Some (x, r) \<Longrightarrow> length r < length s"
proof (induction s arbitrary: x r rule: length_induct)
  case (1 s)
  show ?case
  proof (cases "s \<noteq> [] \<and> hd s = quote_char")
    case True
    then show ?thesis using 1(2) by (auto simp: parse_str.simps [of s])
  next
    case False
    then obtain y n z where s: "string_step s = Some (y, n)" "parse_str (drop n s) = Some (z, r)"
      using 1(2) by (auto simp: parse_str.simps [of s] split: option.splits prod.splits if_splits)
    then have "length (drop n s) < length s" using string_step_pos [OF s(1)] by simp
    moreover from this have "length r < length (drop n s)" using 1(1) s(2) by blast
    ultimately show ?thesis by simp
  qed
qed

section \<open>Numbers\<close>

definition digits :: "string \<Rightarrow> string \<times> string" where
  "digits s = (takeWhile is_digit s, dropWhile is_digit s)"

definition parse_int_part :: "string \<Rightarrow> (string \<times> string) option" where
  "parse_int_part s = (case s of
     [] \<Rightarrow> None
   | c # r \<Rightarrow> if c = CHR ''0'' then Some ([c], r)
      else if is_digit c then (case digits r of (ds, r') \<Rightarrow> Some (c # ds, r')) else None)"

definition parse_frac :: "string \<Rightarrow> (string \<times> string) option" where
  "parse_frac s = (case s of
     c # r \<Rightarrow> if c = CHR ''.'' then (case digits r of (ds, r') \<Rightarrow> if ds = [] then None else Some (c # ds, r'))
              else Some ([], s)
   | [] \<Rightarrow> Some ([], s))"

definition parse_exp :: "string \<Rightarrow> (string \<times> string) option" where
  "parse_exp s = (case s of
     c # r \<Rightarrow> if c = CHR ''e'' \<or> c = CHR ''E'' then
         (let (sign, r1) = (case r of d # r' \<Rightarrow> if d = CHR ''+'' \<or> d = CHR ''-'' then ([d], r') else ([], r) | [] \<Rightarrow> ([], r))
          in case digits r1 of (ds, r') \<Rightarrow> if ds = [] then None else Some (c # sign @ ds, r'))
       else Some ([], s)
   | [] \<Rightarrow> Some ([], s))"

definition parse_number :: "string \<Rightarrow> (string \<times> string) option" where
  "parse_number s =
     (let (sign, s1) = (case s of c # r \<Rightarrow> if c = CHR ''-'' then ([c], r) else ([], s) | [] \<Rightarrow> ([], s)) in
      case parse_int_part s1 of None \<Rightarrow> None | Some (i, s2) \<Rightarrow>
     (case parse_frac s2 of None \<Rightarrow> None | Some (f, s3) \<Rightarrow>
     (case parse_exp s3 of None \<Rightarrow> None | Some (e, s4) \<Rightarrow> Some (sign @ i @ f @ e, s4))))"

section \<open>Any value\<close>

definition parse_literal :: "string \<Rightarrow> jvalue \<Rightarrow> string \<Rightarrow> (jvalue \<times> string) option" where
  "parse_literal lit v s = (if take (length lit) s = lit then Some (v, drop (length lit) s) else None)"

text \<open>
  \<open>fuel\<close> bounds the calls, each of which reads a byte, so the length of the text is enough
  (\<open>parse_fuel\<close>); \<open>depth\<close> is how many more objects and arrays may open (10000 in \<open>encoding/json\<close>).
\<close>

fun parse_value :: "nat \<Rightarrow> nat \<Rightarrow> string \<Rightarrow> (jvalue \<times> string) option"
and parse_members :: "nat \<Rightarrow> nat \<Rightarrow> string \<Rightarrow> ((string \<times> jvalue) list \<times> string) option"
and parse_items :: "nat \<Rightarrow> nat \<Rightarrow> string \<Rightarrow> (jvalue list \<times> string) option" where
  "parse_value 0 depth s = None"
| "parse_value (Suc fuel) depth s =
     (case skip_ws s of [] \<Rightarrow> None
      | c # r \<Rightarrow>
        if c = CHR ''{'' then
          (if depth = 0 then None
           else if skip_ws r \<noteq> [] \<and> hd (skip_ws r) = CHR ''}'' then Some (VObject [], tl (skip_ws r))
           else case parse_members fuel (depth - 1) r of None \<Rightarrow> None | Some (ms, r') \<Rightarrow> Some (VObject ms, r'))
        else if c = CHR ''['' then
          (if depth = 0 then None
           else if skip_ws r \<noteq> [] \<and> hd (skip_ws r) = CHR '']'' then Some (VArray [], tl (skip_ws r))
           else case parse_items fuel (depth - 1) r of None \<Rightarrow> None | Some (xs, r') \<Rightarrow> Some (VArray xs, r'))
        else if c = quote_char then map_option (\<lambda>(x, r'). (VString x, r')) (parse_str r)
        else if c = CHR ''t'' then parse_literal ''true'' (VBool True) (c # r)
        else if c = CHR ''f'' then parse_literal ''false'' (VBool False) (c # r)
        else if c = CHR ''n'' then parse_literal ''null'' VNull (c # r)
        else map_option (\<lambda>(x, r'). (VNumber x, r')) (parse_number (c # r)))"
| "parse_members 0 depth s = None"
| "parse_members (Suc fuel) depth s =
     (case skip_ws s of [] \<Rightarrow> None
      | c # r \<Rightarrow>
        if c \<noteq> quote_char then None
        else case parse_str r of None \<Rightarrow> None | Some (k, r1) \<Rightarrow>
          (case skip_ws r1 of [] \<Rightarrow> None
           | c1 # r2 \<Rightarrow>
             if c1 \<noteq> CHR '':'' then None
             else case parse_value fuel depth r2 of None \<Rightarrow> None | Some (v, r3) \<Rightarrow>
               (case skip_ws r3 of [] \<Rightarrow> None
                | c2 # r4 \<Rightarrow>
                  if c2 = CHR ''}'' then Some ([(k, v)], r4)
                  else if c2 = CHR '','' then
                    (case parse_members fuel depth r4 of None \<Rightarrow> None | Some (ms, r5) \<Rightarrow> Some ((k, v) # ms, r5))
                  else None)))"
| "parse_items 0 depth s = None"
| "parse_items (Suc fuel) depth s =
     (case parse_value fuel depth s of None \<Rightarrow> None | Some (v, r3) \<Rightarrow>
        (case skip_ws r3 of [] \<Rightarrow> None
         | c2 # r4 \<Rightarrow>
           if c2 = CHR '']'' then Some ([v], r4)
           else if c2 = CHR '','' then
             (case parse_items fuel depth r4 of None \<Rightarrow> None | Some (xs, r5) \<Rightarrow> Some (v # xs, r5))
           else None))"

definition max_nesting :: nat where
  "max_nesting = 10000"

text \<open>One value from the front of a stream, and the rest.\<close>

definition parse_json :: "string \<Rightarrow> (jvalue \<times> string) option" where
  "parse_json s = parse_value (2 * length s + 2) max_nesting s"

section \<open>Structs\<close>

text \<open>
  The folding of a key's letters: ASCII letters to upper case, and the two runes outside ASCII that
  fold to an ASCII letter, U+017F to S and U+212A to K.
\<close>

fun fold_key :: "string \<Rightarrow> string" where
  "fold_key [] = []"
| "fold_key (c # r) =
     (if c = CHR 0xC5 \<and> take 1 r = [CHR 0xBF] then CHR ''S'' # fold_key (drop 1 r)
      else if c = CHR 0xE2 \<and> take 2 r = [CHR 0x84, CHR 0xAA] then CHR ''K'' # fold_key (drop 2 r)
      else (if 97 \<le> byte_of c \<and> byte_of c \<le> 122 then char_of (byte_of c - 32) else c) # fold_key r)"

definition find_field :: "string list \<Rightarrow> string \<Rightarrow> string option" where
  "find_field names k = (if List.member names k then Some k else List.find (\<lambda>n. fold_key n = fold_key k) names)"

text \<open>
  A setter returns whether the value had the wrong type, which is reported at the end, and the struct
  after it; \<open>Inl\<close> is the error of an \<open>UnmarshalJSON\<close>, which ends the decoding.
\<close>

type_synonym 'a setter = "string \<Rightarrow> jvalue \<Rightarrow> 'a \<Rightarrow> money_error + (bool \<times> 'a)"

fun decode_members :: "'a setter \<Rightarrow> string list \<Rightarrow> (string \<times> jvalue) list \<Rightarrow> bool \<Rightarrow> 'a \<Rightarrow> money_error + (bool \<times> 'a)" where
  "decode_members set_field names [] bad v = Inr (bad, v)"
| "decode_members set_field names ((k, x) # ms) bad v =
     (case find_field names k of
        None \<Rightarrow> decode_members set_field names ms True v
      | Some n \<Rightarrow> bindE (set_field n x v) (\<lambda>(b, v'). decode_members set_field names ms (bad \<or> b) v'))"

definition decode_struct :: "'a setter \<Rightarrow> string list \<Rightarrow> jvalue \<Rightarrow> 'a \<Rightarrow> money_error + (bool \<times> 'a)" where
  "decode_struct set_field names x v = (case x of
     VObject ms \<Rightarrow> decode_members set_field names ms False v
   | VNull \<Rightarrow> Inr (False, v)
   | _ \<Rightarrow> Inr (True, v))"

definition string_value :: "jvalue \<Rightarrow> string \<Rightarrow> bool \<times> string" where
  "string_value x old = (case x of VString s \<Rightarrow> (False, s) | VNull \<Rightarrow> (False, old) | _ \<Rightarrow> (True, old))"

text \<open>The update of one string field.\<close>

definition set_text :: "jvalue \<Rightarrow> string \<Rightarrow> (string \<Rightarrow> 'a) \<Rightarrow> money_error + (bool \<times> 'a)" where
  "set_text x old put = (case string_value x old of (b, s) \<Rightarrow> Inr (b, put s))"

definition string_pointer :: "jvalue \<Rightarrow> string ptr \<Rightarrow> bool \<times> string ptr" where
  "string_pointer x old = (case x of VString s \<Rightarrow> (False, Some s) | VNull \<Rightarrow> (False, None) | _ \<Rightarrow> (True, old))"

text \<open>
  One value decoded into a struct and nothing after it. \<open>None\<close> is an error of the decoder, \<open>Some\<close> one
  of an \<open>UnmarshalJSON\<close>.
\<close>

definition decode_single :: "'a setter \<Rightarrow> string list \<Rightarrow> 'a \<Rightarrow> string \<Rightarrow> money_error option + 'a" where
  "decode_single set_field names zero s = (case parse_json s of
     None \<Rightarrow> Inl None
   | Some (x, r) \<Rightarrow>
       bindE (map_err Some (decode_struct set_field names x zero)) (\<lambda>(bad, v).
       if bad \<or> skip_ws r \<noteq> [] then Inl None else Inr v))"

section \<open>Money\<close>

record money_fields =
  mf_amount :: "jvalue option"
  mf_currency :: currency

definition set_money_field :: "money_fields setter" where
  "set_money_field n x v =
     (if n = ''amount'' then Inr (False, v\<lparr>mf_amount := Some x\<rparr>)
      else case string_value x (mf_currency v) of (b, c) \<Rightarrow> Inr (b, v\<lparr>mf_currency := c\<rparr>))"

text \<open>\<open>Money.UnmarshalJSON\<close>; a null amount decodes to the empty text.\<close>

definition unmarshal_money :: "jvalue \<Rightarrow> money_error + money" where
  "unmarshal_money x =
     (case decode_struct set_money_field [''amount'', ''currency''] x \<lparr>mf_amount = None, mf_currency = ''''\<rparr> of
        Inl _ \<Rightarrow> Inl ErrInvalidMoneyValue
      | Inr (bad, v) \<Rightarrow>
          if bad then Inl ErrInvalidMoneyValue
          else case mf_amount v of
            None \<Rightarrow> Inl ErrInvalidAmount
          | Some a \<Rightarrow> (case string_value a '''' of
              (wrong, decimal) \<Rightarrow> if wrong then Inl ErrInvalidAmount else money_parse decimal (mf_currency v)))"

section \<open>The fuel is enough\<close>

lemma dropWhile_shorter: "length (dropWhile P s) \<le> length s"
  by (rule length_dropWhile_le)

lemma parse_number_shorter: "parse_number s = Some (x, r) \<Longrightarrow> length r < length s"
proof -
  have frac: "length r \<le> length s" if "parse_frac s = Some (x, r)" for s x r
    using that dropWhile_shorter [of is_digit "tl s"]
    by (auto simp: parse_frac_def digits_def split: list.splits if_splits)
  have exp: "length r \<le> length s" if "parse_exp s = Some (x, r)" for s x r
    using that dropWhile_shorter [of is_digit "tl s"] dropWhile_shorter [of is_digit "tl (tl s)"]
    by (auto simp: parse_exp_def digits_def split: list.splits if_splits prod.splits)
  have int: "length r < length s" if "parse_int_part s = Some (x, r)" for s x r
    using that dropWhile_shorter [of is_digit "tl s"]
    by (auto simp: parse_int_part_def digits_def split: list.splits if_splits)
  assume "parse_number s = Some (x, r)"
  then show ?thesis
    by (auto simp: parse_number_def split: list.splits if_splits option.splits prod.splits dest!: frac exp int)
qed

lemma parse_literal_shorter: "parse_literal lit v s = Some (x, r) \<Longrightarrow> lit \<noteq> [] \<Longrightarrow> length r < length s"
  by (cases s) (auto simp: parse_literal_def split: if_splits)

lemma skip_ws_Cons: "skip_ws s = c # r \<Longrightarrow> length r < length s"
  using length_skip_ws [of s] by simp

lemma tl_skip_ws: "skip_ws s \<noteq> [] \<Longrightarrow> length (tl (skip_ws s)) < length s"
  using length_skip_ws [of s] by (cases "skip_ws s") auto

lemma parse_shorter:
  "parse_value n d s = Some (v, r) \<Longrightarrow> length r < length s"
  "parse_members n d s = Some (ms, r) \<Longrightarrow> length r < length s"
  "parse_items n d s = Some (xs, r) \<Longrightarrow> length r < length s"
proof (induction n d s and n d s and n d s arbitrary: v r and ms r and xs r rule: parse_value_parse_members_parse_items.induct)
  case (2 fuel depth s)
  obtain c t where t: "skip_ws s = c # t" using 2(3) by (cases "skip_ws s") auto
  have l: "length t < length s" by (rule skip_ws_Cons [OF t])
  show ?case
    using 2(3) t l 2(1) [OF t] 2(2) [OF t] tl_skip_ws [of t]
    by (auto split: if_splits option.splits prod.splits
        dest!: parse_str_shorter parse_number_shorter parse_literal_shorter intro: less_trans)
next
  case (4 fuel depth s)
  obtain c t where t: "skip_ws s = c # t" "c = quote_char" using 4(3) by (cases "skip_ws s") (auto split: if_splits)
  obtain k r1 where k: "parse_str t = Some (k, r1)" using 4(3) t by (auto split: option.splits)
  obtain r2 where r2: "skip_ws r1 = CHR '':'' # r2" using 4(3) t k by (auto split: list.splits if_splits)
  obtain v r3 where v: "parse_value fuel depth r2 = Some (v, r3)" using 4(3) t k r2 by (auto split: option.splits)
  obtain c2 r4 where r4: "skip_ws r3 = c2 # r4" using 4(3) t k r2 v by (auto split: list.splits)
  have "length r4 < length s"
    using skip_ws_Cons [OF t(1)] parse_str_shorter [OF k] skip_ws_Cons [OF r2] 4(1) [OF t(1) _ k _ r2 _ v] t(2)
      skip_ws_Cons [OF r4] by simp
  moreover have "r = r4 \<or> length r < length r4"
    using 4(3) t k r2 v r4 4(2) [OF t(1) _ k _ r2 _ v _ r4] by (auto split: if_splits option.splits)
  ultimately show ?case by auto
next
  case (6 fuel depth s)
  obtain v r3 where v: "parse_value fuel depth s = Some (v, r3)" using 6(3) by (auto split: option.splits)
  obtain c2 r4 where r4: "skip_ws r3 = c2 # r4" using 6(3) v by (auto split: list.splits)
  have "length r4 < length s" using 6(1) [OF v] skip_ws_Cons [OF r4] by simp
  moreover have "r = r4 \<or> length r < length r4"
    using 6(3) v r4 6(2) [OF v _ r4] by (auto split: if_splits option.splits)
  ultimately show ?case by auto
qed simp_all

lemma parse_enough:
  "2 * length s < n \<Longrightarrow> 2 * length s < m \<Longrightarrow> parse_value n d s = parse_value m d s"
  "2 * length s < n \<Longrightarrow> 2 * length s < m \<Longrightarrow> parse_members n d s = parse_members m d s"
  "2 * length s + 1 < n \<Longrightarrow> 2 * length s + 1 < m \<Longrightarrow> parse_items n d s = parse_items m d s"
proof (induction n d s and n d s and n d s arbitrary: m and m and m rule: parse_value_parse_members_parse_items.induct)
  case (2 fuel depth s)
  obtain m' where m: "m = Suc m'" using 2(4) by (cases m) auto
  show ?case
  proof (cases "skip_ws s")
    case (Cons c t)
    have l: "length t < length s" by (rule skip_ws_Cons [OF Cons])
    have "2 * length t + 1 < fuel" "2 * length t + 1 < m'" using l 2(3,4) m by simp_all
    then show ?thesis
      using Cons 2(1) [OF Cons, where m = m'] 2(2) [OF Cons, where m = m'] by (simp add: m)
  qed (simp add: m)
next
  case (4 fuel depth s)
  obtain m' where m: "m = Suc m'" using 4(4) by (cases m) auto
  show ?case
  proof (cases "skip_ws s")
    case (Cons c t)
    note t = Cons
    show ?thesis
    proof (cases "c = quote_char \<and> parse_str t \<noteq> None")
      case True
      then obtain k r1 where k: "parse_str t = Some (k, r1)" and c: "c = quote_char" by auto
      show ?thesis
      proof (cases "skip_ws r1")
        case (Cons c1 r2)
        have l2: "length r2 < length s"
          using skip_ws_Cons [OF t] parse_str_shorter [OF k] skip_ws_Cons [OF Cons] by simp
        have v: "c1 = CHR '':'' \<Longrightarrow> parse_value fuel depth r2 = parse_value m' depth r2"
          using 4(1) [OF t _ k _ Cons, where m = m'] c l2 4(3,4) m by simp
        have rest: "parse_members fuel depth r4 = parse_members m' depth r4"
          if "c1 = CHR '':''" "parse_value fuel depth r2 = Some (x, r3)" "skip_ws r3 = CHR '','' # r4" for x r3 r4
        proof -
          have "length r4 < length s"
            using l2 parse_shorter(1) [OF that(2)] skip_ws_Cons [OF that(3)] by simp
          then show ?thesis
            using 4(2) [OF t _ k _ Cons _ that(2) _ that(3), where m = m'] c that(1) 4(3,4) m by simp
        qed
        show ?thesis using t k c Cons v rest
          by (auto simp: m split: option.splits list.splits)
      qed (use t k c in \<open>simp add: m\<close>)
    qed (use t in \<open>cases "parse_str t"; auto simp: m\<close>)
  qed (simp add: m)
next
  case (6 fuel depth s)
  obtain m' where m: "m = Suc m'" using 6(4) by (cases m) auto
  have v: "parse_value fuel depth s = parse_value m' depth s" using 6(1) [where m = m'] 6(3,4) m by simp
  have rest: "parse_items fuel depth r4 = parse_items m' depth r4"
    if "parse_value fuel depth s = Some (x, r3)" "skip_ws r3 = CHR '','' # r4" for x r3 r4
  proof -
    have "length r4 < length s" using parse_shorter(1) [OF that(1)] skip_ws_Cons [OF that(2)] by simp
    then show ?thesis using 6(2) [OF that(1) _ that(2), where m = m'] 6(3,4) m by simp
  qed
  show ?case using v rest by (auto simp: m split: option.splits list.splits)
qed simp_all

lemma parse_json_fuel: "2 * length s < n \<Longrightarrow> parse_value n max_nesting s = parse_json s"
  unfolding parse_json_def by (rule parse_enough(1)) simp_all

text \<open>A parse that ends within smaller bounds is the one within the bounds of \<open>parse_json\<close>.\<close>

lemma parse_deeper:
  "parse_value n d s = Some x \<Longrightarrow> d \<le> e \<Longrightarrow> parse_value n e s = Some x"
  "parse_members n d s = Some y \<Longrightarrow> d \<le> e \<Longrightarrow> parse_members n e s = Some y"
  "parse_items n d s = Some z \<Longrightarrow> d \<le> e \<Longrightarrow> parse_items n e s = Some z"
proof (induction n d s and n d s and n d s arbitrary: x e and y e and z e rule: parse_value_parse_members_parse_items.induct)
  case (2 fuel depth s)
  show ?case
  proof (cases "skip_ws s")
    case (Cons c r)
    have members: "parse_members fuel (e - 1) r = Some y"
      if "c = CHR ''{''" "0 < depth" "\<not> (skip_ws r \<noteq> [] \<and> hd (skip_ws r) = CHR ''}'')" "parse_members fuel (depth - 1) r = Some y" for y
      using 2(1) [OF Cons, of y "e - 1"] 2(4) that by simp
    have items: "parse_items fuel (e - 1) r = Some z"
      if "c = CHR ''[''" "0 < depth" "\<not> (skip_ws r \<noteq> [] \<and> hd (skip_ws r) = CHR '']'')" "parse_items fuel (depth - 1) r = Some z" for z
      using 2(2) [OF Cons, of z "e - 1"] 2(4) that by simp
    consider "c = CHR ''{''" | "c = CHR ''[''" | "c \<noteq> CHR ''{''" "c \<noteq> CHR ''[''" by blast
    then show ?thesis
    proof cases
      case 1
      then show ?thesis using 2(3,4) Cons members by (auto split: if_splits option.splits prod.splits)
    next
      case 2
      then show ?thesis using \<open>parse_value (Suc fuel) depth s = Some x\<close> \<open>depth \<le> e\<close> Cons items
        by (auto split: if_splits option.splits prod.splits)
    next
      case 3
      then show ?thesis using 2(3) Cons by simp
    qed
  qed (use 2 in simp)
next
  case (4 fuel depth s)
  obtain r k r1 r2 v r3 c2 r4 where a: "skip_ws s = quote_char # r" "parse_str r = Some (k, r1)" "skip_ws r1 = CHR '':'' # r2"
      "parse_value fuel depth r2 = Some (v, r3)" "skip_ws r3 = c2 # r4"
    and y: "if c2 = CHR ''}'' then y = ([(k, v)], r4)
      else c2 = CHR '','' \<and> (\<exists>ms r5. parse_members fuel depth r4 = Some (ms, r5) \<and> y = ((k, v) # ms, r5))"
    using 4(3) by (simp split: list.splits if_splits option.splits prod.splits)
  have "parse_value fuel e r2 = Some (v, r3)" by (rule 4(1) [OF a(1) _ a(2) refl a(3) _ a(4) 4(4)]) simp_all
  moreover have "parse_members fuel e r4 = Some (ms, r5)" if "c2 = CHR '',''" "parse_members fuel depth r4 = Some (ms, r5)" for ms r5
    by (rule 4(2) [OF a(1) _ a(2) refl a(3) _ a(4) refl a(5) _ _ that(2) 4(4)]) (simp_all add: that(1))
  ultimately show ?case using y a by (cases "c2 = CHR ''}''") auto
next
  case (6 fuel depth s)
  obtain v r3 c2 r4 where a: "parse_value fuel depth s = Some (v, r3)" "skip_ws r3 = c2 # r4"
    and z: "if c2 = CHR '']'' then z = ([v], r4)
      else c2 = CHR '','' \<and> (\<exists>xs r5. parse_items fuel depth r4 = Some (xs, r5) \<and> z = (v # xs, r5))"
    using 6(3) by (simp split: list.splits if_splits option.splits prod.splits)
  have "parse_value fuel e s = Some (v, r3)" by (rule 6(1) [OF a(1) 6(4)])
  moreover have "parse_items fuel e r4 = Some (xs, r5)" if "c2 = CHR '',''" "parse_items fuel depth r4 = Some (xs, r5)" for xs r5
    by (rule 6(2) [OF a(1) refl a(2) _ _ that(2) 6(4)]) (simp_all add: that(1))
  ultimately show ?case using z a by (cases "c2 = CHR '']''") auto
qed simp_all


lemma parse_json_small: "parse_value n d s = Some x \<Longrightarrow> 2 * length s < n \<Longrightarrow> d \<le> 10000 \<Longrightarrow> parse_json s = Some x"
  using parse_json_fuel [of s n] parse_deeper(1) [of n d s x max_nesting] by (simp add: max_nesting_def)

section \<open>What is written is read back\<close>

lemma hex_value_digit: "d < 16 \<Longrightarrow> hex_value (hex_digit d) = Some d"
  by (auto simp: hex_value_def hex_digit_def byte_of_def of_char_of Let_def)

lemma hex4_low: "n < 256 \<Longrightarrow> hex4 (CHR ''0'' # CHR ''0'' # hex_digit (n div 16) # hex_digit (n mod 16) # r) = Some n"
proof -
  assume n: "n < 256"
  have z: "hex_value (CHR ''0'') = Some 0" by (simp add: hex_value_def byte_of_def)
  show ?thesis using n by (simp add: hex4_def hex_value_digit z)
qed

lemma string_step_ascii:
  assumes "byte_of c < 128"
  shows "string_step (escape_ascii html c @ x) = Some ([c], length (escape_ascii html c))"
proof -
  consider (quoted) "c = quote_char \<or> c = backslash"
    | (short) "c = CHR 0x08 \<or> c = CHR 0x0C \<or> c = CHR 0x0A \<or> c = CHR 0x0D \<or> c = CHR 0x09"
    | (hex) "c \<notin> {quote_char, backslash, CHR 0x08, CHR 0x0C, CHR 0x0A, CHR 0x0D, CHR 0x09}"
        "byte_of c < 32 \<or> (html \<and> (c = CHR ''<'' \<or> c = CHR ''>'' \<or> c = CHR ''&''))"
    | (plain) "c \<notin> {quote_char, backslash, CHR 0x08, CHR 0x0C, CHR 0x0A, CHR 0x0D, CHR 0x09}" "32 \<le> byte_of c"
        "\<not> (html \<and> (c = CHR ''<'' \<or> c = CHR ''>'' \<or> c = CHR ''&''))"
    by fastforce
  then show ?thesis
  proof cases
    case hex
    then have e: "escape_ascii html c =
        [backslash, CHR ''u'', CHR ''0'', CHR ''0'', hex_digit (byte_of c div 16), hex_digit (byte_of c mod 16)]"
      by (auto simp: escape_ascii_def)
    have "hex4 (CHR ''0'' # CHR ''0'' # hex_digit (byte_of c div 16) # hex_digit (byte_of c mod 16) # x) = Some (byte_of c)"
      using assms by (intro hex4_low) simp
    moreover have "\<not> 55296 \<le> byte_of c" "utf8_encode (byte_of c) = [c]" using assms by (simp_all add: utf8_encode_def)
    ultimately show ?thesis unfolding e string_step_def by simp
  next
    case plain
    then have "escape_ascii html c = [c]" by (auto simp: escape_ascii_def)
    then show ?thesis using plain rune_size_ascii [OF assms, of x] by (simp add: string_step_def)
  qed (auto simp: escape_ascii_def string_step_def simple_escape_def)
qed

lemma line_separators:
  "hex4 (CHR ''2'' # CHR ''0'' # CHR ''2'' # CHR ''8'' # r) = Some 8232" "utf8_encode 8232 = [CHR 0xE2, CHR 0x80, CHR 0xA8]"
  "hex4 (CHR ''2'' # CHR ''0'' # CHR ''2'' # CHR ''9'' # r) = Some 8233" "utf8_encode 8233 = [CHR 0xE2, CHR 0x80, CHR 0xA9]"
proof -
  have code: "char_of (226 :: nat) = CHR 0xE2" "char_of (128 :: nat) = CHR 0x80" "char_of (168 :: nat) = CHR 0xA8"
    "char_of (169 :: nat) = CHR 0xA9"
    by code_simp+
  have v: "hex_value (CHR ''2'') = Some 2" "hex_value (CHR ''0'') = Some 0" "hex_value (CHR ''8'') = Some 8"
    "hex_value (CHR ''9'') = Some 9"
    by (simp_all add: hex_value_def byte_of_def)
  show "hex4 (CHR ''2'' # CHR ''0'' # CHR ''2'' # CHR ''8'' # r) = Some 8232"
    "hex4 (CHR ''2'' # CHR ''0'' # CHR ''2'' # CHR ''9'' # r) = Some 8233"
    by (simp_all add: hex4_def v)
  show "utf8_encode 8232 = [CHR 0xE2, CHR 0x80, CHR 0xA8]" "utf8_encode 8233 = [CHR 0xE2, CHR 0x80, CHR 0xA9]"
    using code by (simp_all add: utf8_encode_def)
qed

lemma string_step_rune:
  assumes "rune_size u = Some (length u)"
  shows "string_step (escape_rune html u @ x) = Some (u, length (escape_rune html u))"
proof (cases "length u = 1")
  case True
  then obtain c where u: "u = [c]" by (auto simp: length_Suc_conv)
  then have "byte_of c < 128" using assms rune_size_one by simp
  then show ?thesis using u string_step_ascii by (simp add: escape_rune_def)
next
  case False
  then have "1 < length u" using rune_size_pos [OF assms] by (cases u) auto
  then have head: "128 \<le> byte_of (hd u)" by (rule rune_size_long [OF assms])
  then have plain: "hd u \<noteq> backslash" by (auto simp: byte_of_def)
  obtain c v where u: "u = c # v" using rune_size_pos [OF assms] by (cases u) auto
  consider "u = [CHR 0xE2, CHR 0x80, CHR 0xA8]" | "u = [CHR 0xE2, CHR 0x80, CHR 0xA9]"
    | (raw) "escape_rune html u = u"
    using False unfolding escape_rune_def by (metis (full_types))
  then show ?thesis
  proof cases
    case 1
    then show ?thesis using line_separators by (simp add: escape_rune_def string_step_def)
  next
    case 2
    then show ?thesis using line_separators by (simp add: escape_rune_def string_step_def)
  next
    case raw
    then show ?thesis using plain head u rune_size_append [OF assms, of x] by (simp add: string_step_def)
  qed
qed

lemma parse_str_body: "utf8_valid s \<Longrightarrow> parse_str (json_body html s @ quote_char # r) = Some (s, r)"
proof (induction s rule: length_induct)
  case (1 s)
  show ?case
  proof (cases "s = []")
    case True
    then show ?thesis by (simp add: parse_str.simps)
  next
    case False
    obtain n where n: "utf8_valid (drop n s)" "0 < n" "n \<le> length s"
        "rune_size (take n s) = Some (length (take n s))"
        "json_body html s = escape_rune html (take n s) @ json_body html (drop n s)"
      using utf8_valid_unit [OF 1(2) False, of html] by blast
    let ?e = "escape_rune html (take n s)"
    have head: "?e \<noteq> []" "hd ?e \<noteq> quote_char" using escape_rune_head [OF n(4), of html] by simp_all
    have "parse_str (json_body html (drop n s) @ quote_char # r) = Some (drop n s, r)"
      using 1(1) n(1,2) False by simp
    then show ?thesis
      using head string_step_rune [OF n(4), of html "json_body html (drop n s) @ quote_char # r"]
      by (subst parse_str.simps) (simp add: n(5))
  qed
qed

text \<open>The encoder's values as the decoder sees them.\<close>

fun to_jvalue :: "json \<Rightarrow> jvalue" where
  "to_jvalue (JStr s) = VString s"
| "to_jvalue (JNum i) = VNumber (json_int i)"
| "to_jvalue (JObj fs) = VObject (map (\<lambda>(k, v). (k, to_jvalue v)) fs)"

fun nesting :: "json \<Rightarrow> nat" where
  "nesting (JStr s) = 0"
| "nesting (JNum i) = 0"
| "nesting (JObj fs) = Suc (fold max (map (\<lambda>(k, v). nesting v) fs) 0)"

fun all_valid :: "json \<Rightarrow> bool" where
  "all_valid (JStr s) = utf8_valid s"
| "all_valid (JNum i) = True"
| "all_valid (JObj fs) = list_all (\<lambda>(k, v). utf8_valid k \<and> all_valid v) fs"

definition ends_number :: "string \<Rightarrow> bool" where
  "ends_number r \<longleftrightarrow> r = [] \<or> hd r = CHR '','' \<or> hd r = CHR ''}''"

lemma digits_end:
  assumes "\<forall>c \<in> set ds. is_digit c" "ends_number r"
  shows "digits (ds @ r) = (ds, r)"
proof -
  have "r = [] \<or> \<not> is_digit (hd r)" using assms(2) by (auto simp: ends_number_def is_digit_def byte_of_def)
  then show ?thesis using assms(1)
    by (cases r) (auto simp: digits_def takeWhile_append dropWhile_append)
qed

lemma parse_dec: "ends_number r \<Longrightarrow> parse_int_part (dec n @ r) = Some (dec n, r)"
proof -
  assume r: "ends_number r"
  obtain c cs where d: "dec n = c # cs" by (cases "dec n") auto
  have all: "\<forall>x \<in> set (c # cs). is_digit x" using dec_digits [of n] d by simp
  have "c = CHR ''0'' \<longrightarrow> cs = []" using canonical_int_dec [of n] d by (auto simp: canonical_int_def)
  then show ?thesis using d all digits_end [of cs r] r by (auto simp: parse_int_part_def)
qed

lemma dec_head: "hd (dec n) \<noteq> CHR ''-'' \<and> is_digit (hd (dec n))"
proof -
  have "is_digit (hd (dec n))" using dec_digits [of n] by (cases "dec n") auto
  then show ?thesis by (auto simp: is_digit_def byte_of_def)
qed

lemma parse_json_int: "ends_number r \<Longrightarrow> parse_number (json_int i @ r) = Some (json_int i, r)"
proof -
  assume r: "ends_number r"
  have stop: "parse_frac r = Some ([], r)" "parse_exp r = Some ([], r)"
    using r by (cases r; auto simp: parse_frac_def parse_exp_def ends_number_def)+
  show ?thesis
  proof (cases "i < 0")
    case True
    then show ?thesis using parse_dec [OF r, of "nat (- i)"] stop by (simp add: json_int_def parse_number_def)
  next
    case False
    obtain c cs where "dec (nat i) = c # cs" by (cases "dec (nat i)") auto
    moreover from this have "c \<noteq> CHR ''-''" using dec_head [of "nat i"] by simp
    ultimately show ?thesis using False parse_dec [OF r, of "nat i"] stop
      by (simp add: json_int_def parse_number_def)
  qed
qed

text \<open>Reading \<open>text\<close> gives \<open>v\<close> once the fuel suffices.\<close>

definition reads :: "nat \<Rightarrow> string \<Rightarrow> jvalue \<Rightarrow> string \<Rightarrow> bool" where
  "reads d s v r \<longleftrightarrow> (\<exists>n. \<forall>m \<ge> n. parse_value m d s = Some (v, r))"

lemma skip_ws_plain: "\<not> is_ws c \<Longrightarrow> skip_ws (c # s) = c # s"
  by (simp add: skip_ws_def)

lemma reads_intro: "(\<And>m. parse_value (Suc m) d s = Some (v, r)) \<Longrightarrow> reads d s v r"
  unfolding reads_def by (metis Suc_le_D)

lemma reads_string: "utf8_valid s \<Longrightarrow> reads d (json_string html s @ r) (VString s) r"
  by (rule reads_intro) (simp add: json_string_def skip_ws_plain is_ws_def parse_str_body)

lemma number_head: "\<exists>c s. json_int i = c # s \<and> (c = CHR ''-'' \<or> is_digit c)"
proof (cases "i < 0")
  case False
  then show ?thesis using dec_head [of "nat i"] by (cases "dec (nat i)") (auto simp: json_int_def)
qed (simp add: json_int_def)

lemma reads_int: "ends_number r \<Longrightarrow> reads d (json_int i @ r) (VNumber (json_int i)) r"
proof -
  assume r: "ends_number r"
  obtain c s where i: "json_int i = c # s" "c = CHR ''-'' \<or> is_digit c" using number_head by blast
  have "c \<notin> {CHR ''{'', CHR ''['', quote_char, CHR ''t'', CHR ''f'', CHR ''n''}" "\<not> is_ws c"
    using i(2) by (auto simp: is_digit_def byte_of_def is_ws_def)
  then show ?thesis using parse_json_int [OF r, of i] i(1)
    by (intro reads_intro) (simp add: skip_ws_plain)
qed

definition member_text :: "bool \<Rightarrow> string \<times> json \<Rightarrow> string" where
  "member_text html m = json_string html (fst m) @ '':'' @ json_text html (snd m)"

lemma object_text: "json_text html (JObj fs) = ''{'' @ join '','' (map (member_text html) fs) @ ''}''"
  by (simp add: member_text_def [abs_def] case_prod_beta')

lemma text_starts: "\<exists>c s. json_text html j = c # s \<and> \<not> is_ws c \<and> c \<noteq> CHR ''}''"
proof (cases j)
  case (JNum i)
  then show ?thesis using number_head [of i] by (auto simp: is_ws_def is_digit_def byte_of_def)
qed (auto simp: json_string_def is_ws_def)

lemma members_read:
  assumes "fs \<noteq> []" "\<forall>(k, v) \<in> set fs. utf8_valid k \<and> (\<forall>r. ends_number r \<longrightarrow> reads d (json_text html v @ r) (to_jvalue v) r)"
  shows "\<exists>n. \<forall>m \<ge> n. parse_members m d (join '','' (map (member_text html) fs) @ ''}'' @ r) =
     Some (map (\<lambda>(k, v). (k, to_jvalue v)) fs, r)"
  using assms
proof (induction fs)
  case (Cons kv fs)
  obtain k v where kv: "kv = (k, v)" by (cases kv)
  define rest where "rest = (if fs = [] then ''}'' @ r else '','' @ join '','' (map (member_text html) fs) @ ''}'' @ r)"
  have shape: "join '','' (map (member_text html) (kv # fs)) @ ''}'' @ r =
      quote_char # json_body html k @ quote_char # CHR '':'' # json_text html v @ rest"
    by (cases fs) (simp_all add: kv member_text_def json_string_def rest_def)
  have k: "utf8_valid k" using Cons.prems(2) kv by auto
  have "reads d (json_text html v @ rest) (to_jvalue v) rest"
    using Cons.prems(2) kv by (auto simp: rest_def ends_number_def)
  then obtain n where n: "\<forall>m \<ge> n. parse_value m d (json_text html v @ rest) = Some (to_jvalue v, rest)"
    unfolding reads_def by blast
  obtain n' where n': "fs \<noteq> [] \<Longrightarrow> \<forall>m \<ge> n'. parse_members m d (join '','' (map (member_text html) fs) @ ''}'' @ r) =
      Some (map (\<lambda>(k, v). (k, to_jvalue v)) fs, r)"
    using Cons.IH Cons.prems(2) by auto
  have "parse_members m d (join '','' (map (member_text html) (kv # fs)) @ ''}'' @ r) =
      Some (map (\<lambda>(k, v). (k, to_jvalue v)) (kv # fs), r)" if "m \<ge> Suc (max n n')" for m
  proof -
    obtain m' where m': "m = Suc m'" "n \<le> m'" "n' \<le> m'" using \<open>m \<ge> Suc (max n n')\<close> by (cases m) auto
    have v: "parse_value m' d (json_text html v @ rest) = Some (to_jvalue v, rest)" using n m'(2) by blast
    show ?thesis
    proof (cases "fs = []")
      case True
      then show ?thesis unfolding shape m'(1) using v k
        by (simp add: skip_ws_plain is_ws_def parse_str_body rest_def kv)
    next
      case False
      then have "parse_members m' d (join '','' (map (member_text html) fs) @ ''}'' @ r) =
          Some (map (\<lambda>(k, v). (k, to_jvalue v)) fs, r)" using n' m'(3) by blast
      then show ?thesis unfolding shape m'(1) using False v k
        by (simp add: skip_ws_plain is_ws_def parse_str_body rest_def kv)
    qed
  qed
  then show ?case by blast
qed simp

lemma nesting_member: "v \<in> snd ` set fs \<Longrightarrow> nesting v < nesting (JObj fs)"
proof -
  assume "v \<in> snd ` set fs"
  then have "nesting v \<in> set (map (\<lambda>(k, v). nesting v) fs)" by force
  then have "nesting v \<le> fold max (map (\<lambda>(k, v). nesting v) fs) 0"
    using Max_ge [of "set (0 # map (\<lambda>(k, v). nesting v) fs)" "nesting v"]
    by (simp add: Max.set_eq_fold [symmetric])
  then show ?thesis by simp
qed

lemma reads_text: "all_valid j \<Longrightarrow> nesting j \<le> d \<Longrightarrow> ends_number r \<Longrightarrow> reads d (json_text html j @ r) (to_jvalue j) r"
proof (induction j arbitrary: d r)
  case (JStr s)
  then show ?case using reads_string by simp
next
  case (JNum i)
  then show ?case using reads_int by simp
next
  case (JObj fs)
  have d: "0 < d" using JObj.prems(2) by (cases d) simp_all
  show ?case
  proof (cases "fs = []")
    case True
    then show ?thesis using d by (intro reads_intro) (simp add: skip_ws_plain is_ws_def)
  next
    case False
    have fields: "\<forall>(k, v) \<in> set fs. utf8_valid k \<and>
        (\<forall>r. ends_number r \<longrightarrow> reads (d - 1) (json_text html v @ r) (to_jvalue v) r)"
    proof (intro ballI, clarify)
      fix k v assume kv: "(k, v) \<in> set fs"
      have "utf8_valid k" "all_valid v" using JObj.prems(1) kv by (auto simp: list_all_iff)
      moreover have "nesting v \<le> d - 1" using nesting_member [of v fs] kv JObj.prems(2) by force
      ultimately show "utf8_valid k \<and> (\<forall>r. ends_number r \<longrightarrow> reads (d - 1) (json_text html v @ r) (to_jvalue v) r)"
        using JObj.IH [OF kv] by simp
    qed
    obtain n where n: "\<forall>m \<ge> n. parse_members m (d - 1) (join '','' (map (member_text html) fs) @ ''}'' @ r) =
        Some (map (\<lambda>(k, v). (k, to_jvalue v)) fs, r)"
      using members_read [OF False fields] by blast
    obtain kv gs where fs: "fs = kv # gs" using False by (cases fs) auto
    obtain t where t: "join '','' (map (member_text html) fs) @ ''}'' @ r = quote_char # t"
      by (cases gs) (auto simp: fs member_text_def json_string_def)
    have "parse_value m d (json_text html (JObj fs) @ r) = Some (to_jvalue (JObj fs), r)" if "m \<ge> Suc n" for m
    proof -
      obtain m' where m': "m = Suc m'" "n \<le> m'" using \<open>m \<ge> Suc n\<close> by (cases m) auto
      have "json_text html (JObj fs) @ r = CHR ''{'' # quote_char # t"
        using t by (simp only: object_text) simp
      then show ?thesis using n m' t d by (simp add: skip_ws_plain is_ws_def)
    qed
    then show ?thesis unfolding reads_def by blast
  qed
qed

lemma parse_text:
  assumes "all_valid j" "nesting j \<le> max_nesting"
  shows "parse_json (json_text html j) = Some (to_jvalue j, [])"
proof -
  obtain n where n: "\<forall>m \<ge> n. parse_value m max_nesting (json_text html j) = Some (to_jvalue j, [])"
    using reads_text [OF assms, of "[]" html] by (auto simp: reads_def ends_number_def)
  have "n \<le> n + 2 * length (json_text html j) + 1" by linarith
  from n [rule_format, OF this]
  have "parse_value (n + 2 * length (json_text html j) + 1) max_nesting (json_text html j) = Some (to_jvalue j, [])" .
  then show ?thesis using parse_json_fuel [of "json_text html j" "n + 2 * length (json_text html j) + 1"] by simp
qed

section \<open>Money read back\<close>

lemma is_digit_ascii: "is_digit c \<Longrightarrow> byte_of c < 128"
  by (simp add: is_digit_def)

lemma supported_ascii: "is_supported c \<Longrightarrow> utf8_valid c"
  by (rule utf8_valid_ascii) (auto simp: is_supported_def byte_of_def)

lemma decimal_ascii:
  assumes "is_supported (currency_of m)" "0 \<le> amount m" "money_decimal m = Inr a"
  shows "utf8_valid a"
proof (rule utf8_valid_ascii)
  obtain x y where xy: "dec2 (nat (amount m) mod 100) = [x, y]" "is_digit x" "is_digit y"
    using dec2_digits [of "nat (amount m) mod 100"] by auto
  have "a = dec (nat (amount m) div 100) @ ''.'' @ [x, y]"
    using assms money_decimal_nonneg [OF assms(1,2)] xy(1) by simp
  then show "list_all (\<lambda>c. byte_of c < 128) a"
    using dec_digits [of "nat (amount m) div 100"] xy is_digit_ascii by (auto simp: list_all_iff byte_of_def)
qed

lemma unmarshal_money_fields:
  "unmarshal_money (VObject [(''amount'', VString a), (''currency'', VString c)]) = money_parse a c"
  by (simp add: unmarshal_money_def decode_struct_def find_field_def set_money_field_def string_value_def)

text \<open>
  The JSON a money value is written as, however it is escaped, is read back by the decoder as the
  same money value.
\<close>
theorem money_json_read_back:
  assumes "is_supported (currency_of m)" "0 \<le> amount m"
  shows "\<exists>j x. money_json m = Inr j \<and> parse_json (json_text html j) = Some (x, []) \<and> unmarshal_money x = Inr m"
proof -
  obtain a where a: "money_decimal m = Inr a" "money_parse a (currency_of m) = Inr m"
    using money_decimal_parses [OF assms] by blast
  let ?j = "JObj [(''amount'', JStr a), (''currency'', JStr (currency_of m))]"
  have "all_valid ?j"
    using decimal_ascii [OF assms a(1)] supported_ascii [OF assms(1)] by (simp add: utf8_valid_ascii byte_of_def)
  then have "parse_json (json_text html ?j) = Some (to_jvalue ?j, [])"
    by (rule parse_text) (simp add: max_nesting_def)
  moreover have "money_json m = Inr ?j" using a(1) by (simp add: money_json_def)
  moreover have "unmarshal_money (to_jvalue ?j) = Inr m" using a(2) by (simp add: unmarshal_money_fields)
  ultimately show ?thesis by blast
qed

theorem money_json_read_back_witness:
  "\<exists>j x. money_json \<lparr>minor_units = 1005, currency_of = USD\<rparr> = Inr j \<and> parse_json (json_text True j) = Some (x, []) \<and>
     unmarshal_money x = Inr \<lparr>minor_units = 1005, currency_of = USD\<rparr>"
  using money_json_read_back [of "\<lparr>minor_units = 1005, currency_of = USD\<rparr>" True] by simp
end
