(* ===== verification/Base64.thy ===== *)
theory Base64
  imports Json
begin

text \<open>
  What the cursors of \<open>internal/httpapi/wallet.go\<close> use of Go's library: \<open>base64.RawURLEncoding\<close>, both
  ways, and \<open>strconv\<close>'s reading and writing of decimal integers; and the cursors themselves.
\<close>

section \<open>Base64 without padding\<close>

definition url_alphabet :: string where
  "url_alphabet = ''ABCDEFGHIJKLMNOPQRSTUVWXYZabcdefghijklmnopqrstuvwxyz0123456789-_''"

definition sextet_char :: "nat \<Rightarrow> char" where
  "sextet_char n = url_alphabet ! n"

definition char_sextet :: "char \<Rightarrow> nat option" where
  "char_sextet c =
     (if 65 \<le> byte_of c \<and> byte_of c \<le> 90 then Some (byte_of c - 65)
      else if 97 \<le> byte_of c \<and> byte_of c \<le> 122 then Some (byte_of c - 71)
      else if is_digit c then Some (byte_of c + 4)
      else if c = CHR ''-'' then Some 62
      else if c = CHR ''_'' then Some 63 else None)"

text \<open>Three bytes are four sextets; one or two bytes at the end are two or three.\<close>

fun sextets :: "nat list \<Rightarrow> nat list" where
  "sextets [] = []"
| "sextets [a] = [a div 4, a mod 4 * 16]"
| "sextets [a, b] = [a div 4, a mod 4 * 16 + b div 16, b mod 16 * 4]"
| "sextets (a # b # c # r) = a div 4 # (a mod 4 * 16 + b div 16) # (b mod 16 * 4 + c div 64) # c mod 64 # sextets r"

text \<open>The low bits the last sextet has to spare are dropped, whatever they are; one sextet alone is an error.\<close>

fun octets :: "nat list \<Rightarrow> nat list option" where
  "octets [] = Some []"
| "octets [a] = None"
| "octets [a, b] = Some [a * 4 + b div 16]"
| "octets [a, b, c] = Some [a * 4 + b div 16, b mod 16 * 16 + c div 4]"
| "octets (a # b # c # d # r) = map_option
     (\<lambda>bs. (a * 4 + b div 16) # (b mod 16 * 16 + c div 4) # (c mod 4 * 64 + d) # bs) (octets r)"

definition raw_url_encode :: "string \<Rightarrow> string" where
  "raw_url_encode s = map sextet_char (sextets (map byte_of s))"

fun all_some :: "'a option list \<Rightarrow> 'a list option" where
  "all_some [] = Some []"
| "all_some (None # xs) = None"
| "all_some (Some x # xs) = map_option (Cons x) (all_some xs)"

text \<open>The decoder passes over line breaks.\<close>

definition raw_url_decode :: "string \<Rightarrow> string option" where
  "raw_url_decode s =
     (case all_some (map char_sextet (filter (\<lambda>c. c \<noteq> CHR 0x0A \<and> c \<noteq> CHR 0x0D) s)) of
        None \<Rightarrow> None
      | Some ns \<Rightarrow> map_option (map char_of) (octets ns))"

lemma mixed_digits: "u < (k :: nat) \<Longrightarrow> (q * k + u) div k = q \<and> (q * k + u) mod k = u \<and> (q < n \<longrightarrow> q * k + u < n * k)"
proof -
  assume u: "u < k"
  have "q * k + u < n * k" if "q < n"
    using mult_le_mono1 [of "Suc q" n k] that u by simp
  then show ?thesis using u by simp
qed

lemma bits_of_two:
  assumes "a < 256" "b < (256 :: nat)"
  shows "a div 4 * 4 + (a mod 4 * 16 + b div 16) div 16 = a" "a mod 4 * 16 + b div 16 < 64" "a div 4 < 64"
    "(a mod 4 * 16 + b div 16) mod 16 = b div 16"
proof -
  have u: "b div 16 < 16" using assms by (simp add: less_mult_imp_div_less)
  show "a div 4 * 4 + (a mod 4 * 16 + b div 16) div 16 = a" "(a mod 4 * 16 + b div 16) mod 16 = b div 16"
    using mixed_digits [OF u, of "a mod 4"] by simp_all
  show "a mod 4 * 16 + b div 16 < 64" "a div 4 < 64"
    using mixed_digits [OF u, of "a mod 4" 4] assms by (simp_all add: less_mult_imp_div_less)
qed

lemma bits_of_three:
  assumes "b < 256" "c < (256 :: nat)"
  shows "b div 16 * 16 + (b mod 16 * 4 + c div 64) div 4 = b"
    "(b mod 16 * 4 + c div 64) mod 4 * 64 + c mod 64 = c" "b mod 16 * 4 + c div 64 < 64"
proof -
  have u: "c div 64 < 4" using assms by (simp add: less_mult_imp_div_less)
  show "b div 16 * 16 + (b mod 16 * 4 + c div 64) div 4 = b"
    "(b mod 16 * 4 + c div 64) mod 4 * 64 + c mod 64 = c" "b mod 16 * 4 + c div 64 < 64"
    using mixed_digits [OF u, of "b mod 16" 16] by simp_all
qed

lemma octets_sextets: "\<forall>b \<in> set bs. b < 256 \<Longrightarrow> octets (sextets bs) = Some bs"
proof (induction bs rule: sextets.induct)
  case (2 a)
  then show ?case using bits_of_two(1) [of a 0] by simp
next
  case (3 a b)
  then show ?case using bits_of_two(1,4) [of a b] bits_of_three(1) [of b 0] by (simp del: div_mult_self1 mod_mult_self1)
next
  case (4 a b c r)
  then have "a < 256" "b < 256" "c < 256" by simp_all
  note bits = bits_of_two(1,4) [OF this(1,2)] bits_of_three(1,2) [OF this(2,3)]
  have "octets (sextets r) = Some r" using 4 by simp
  then show ?case unfolding sextets.simps octets.simps bits by simp
qed simp

lemma sextets_small: "\<forall>b \<in> set bs. b < 256 \<Longrightarrow> \<forall>n \<in> set (sextets bs). n < 64"
proof (induction bs rule: sextets.induct)
  case (2 a)
  then show ?case using bits_of_two(2,3) [of a 0] by simp
next
  case (3 a b)
  then show ?case using bits_of_two(2,3) [of a b] bits_of_three(3) [of b 0] by simp
next
  case (4 a b c r)
  then show ?case using bits_of_two(2,3) [of a b] bits_of_three(3) [of b c] by simp
qed simp

lemma char_sextet_char: "n < 64 \<Longrightarrow> char_sextet (sextet_char n) = Some n \<and>
    sextet_char n \<noteq> CHR 0x0A \<and> sextet_char n \<noteq> CHR 0x0D"
proof -
  have "list_all (\<lambda>n. char_sextet (sextet_char n) = Some n \<and> sextet_char n \<noteq> CHR 0x0A \<and> sextet_char n \<noteq> CHR 0x0D) [0..<64]"
    by code_simp
  then show "n < 64 \<Longrightarrow> ?thesis" by (simp add: list_all_iff)
qed

lemma all_some_map: "(\<And>x. x \<in> set xs \<Longrightarrow> f x = Some (g x)) \<Longrightarrow> all_some (map f xs) = Some (map g xs)"
  by (induction xs) simp_all

lemma raw_url_roundtrip: "raw_url_decode (raw_url_encode s) = Some s"
proof -
  let ?ns = "sextets (map byte_of s)"
  have small: "\<forall>b \<in> set (map byte_of s). b < 256" by (simp add: byte_of_def)
  note ns = sextets_small [OF this]
  have "filter (\<lambda>c. c \<noteq> CHR 0x0A \<and> c \<noteq> CHR 0x0D) (map sextet_char ?ns) = map sextet_char ?ns"
    using ns char_sextet_char by (auto simp: filter_id_conv)
  moreover have "all_some (map (char_sextet \<circ> sextet_char) ?ns) = Some (map id ?ns)"
    by (rule all_some_map) (use ns char_sextet_char in auto)
  moreover have "map (char_of \<circ> byte_of) s = s" by (simp add: comp_def)
  ultimately show ?thesis
    by (simp add: raw_url_decode_def raw_url_encode_def octets_sextets [OF small])
qed

section \<open>Integers\<close>

text \<open>\<open>strconv.ParseInt(s, 10, 64)\<close>, \<open>None\<close> for a syntax or range error; \<open>Atoi\<close> agrees with it on 64 bits.\<close>

definition parse_int64 :: "string \<Rightarrow> int option" where
  "parse_int64 s =
     (let (neg, ds) = (case s of c # r \<Rightarrow> if c = CHR ''+'' \<or> c = CHR ''-'' then (c = CHR ''-'', r) else (False, s) | [] \<Rightarrow> (False, s));
          i = (if neg then - int (dec_val ds) else int (dec_val ds))
      in if ds \<noteq> [] \<and> list_all is_digit ds \<and> - (2 ^ 63) \<le> i \<and> i < 2 ^ 63 then Some i else None)"

lemma parse_int64_dec: "int n < 2 ^ 63 \<Longrightarrow> parse_int64 (dec n) = Some (int n)"
proof -
  assume n: "int n < 2 ^ 63"
  obtain c r where c: "dec n = c # r" by (cases "dec n") simp_all
  then have "is_digit c" using dec_digits [of n] by simp
  then have "c \<noteq> CHR ''+'' \<and> c \<noteq> CHR ''-''" by (auto simp: is_digit_def byte_of_def)
  moreover have "list_all is_digit (dec n)" using dec_digits by (simp add: list_all_iff)
  ultimately show ?thesis using n dec_val_dec [of n] c by (simp add: parse_int64_def)
qed

section \<open>Ledger cursors and limits\<close>

definition encode_ledger_cursor :: "int \<Rightarrow> string" where
  "encode_ledger_cursor sequence = raw_url_encode (json_int sequence)"

definition decode_ledger_cursor :: "string \<Rightarrow> int option" where
  "decode_ledger_cursor cursor =
     (if cursor = '''' then Some 0
      else case raw_url_decode cursor of None \<Rightarrow> None
      | Some text \<Rightarrow> (case parse_int64 text of None \<Rightarrow> None
          | Some sequence \<Rightarrow> if sequence < 1 then None else Some sequence))"

definition ledger_limit :: "string \<Rightarrow> nat option" where
  "ledger_limit raw =
     (if raw = '''' then Some 50
      else case parse_int64 raw of None \<Rightarrow> None
      | Some limit \<Rightarrow> if limit < 1 \<or> 200 < limit then None else Some (nat limit))"

text \<open>
  C31: the cursor made of a sequence number is decoded to that number.
\<close>
theorem cursor_read_back:
  assumes n: "1 \<le> n" "n < 2 ^ 63"
  shows "decode_ledger_cursor (encode_ledger_cursor n) = Some n"
proof -
  have "raw_url_encode (json_int n) \<noteq> []"
    using raw_url_roundtrip [of "json_int n"] raw_url_roundtrip [of "[]"] dec_nonempty
    by (metis json_int_def n(1) not_one_le_zero option.inject raw_url_encode_def list.map_disc_iff sextets.simps(1)
        append_is_Nil_conv list.distinct(1) list.simps(8))
  then show ?thesis
    using n parse_int64_dec [of "nat n"]
    by (simp add: decode_ledger_cursor_def encode_ledger_cursor_def raw_url_roundtrip json_int_def)
qed

theorem cursor_read_back_witness: "decode_ledger_cursor (encode_ledger_cursor 12345) = Some 12345"
  using cursor_read_back [of 12345] by simp

lemma decode_cursor_bounds: "decode_ledger_cursor c = Some n \<Longrightarrow> 0 \<le> n \<and> n < 2 ^ 63"
  by (auto simp: decode_ledger_cursor_def parse_int64_def Let_def split: if_splits option.splits prod.splits)

lemma ledger_limit_bounds: "ledger_limit raw = Some n \<Longrightarrow> 1 \<le> n \<and> n \<le> 200"
  by (auto simp: ledger_limit_def split: if_splits option.splits)
end
