(* ===== verification/Auth.thy ===== *)
theory Auth
  imports Database JsonDecode Base64
begin

text \<open>
  Who a bearer token stands for: \<open>internal/auth/identity.go\<close> and \<open>internal/auth/verifier.go\<close>. The check of
  signature, issuer and audience is the one of the \<open>go-oidc\<close> library and a parameter of the verifier; the
  reading of the claims and the check of their times are the program's own.
\<close>

section \<open>Identities\<close>

abbreviation RoleProvider :: string where "RoleProvider \<equiv> ''provider''"
abbreviation RoleWalletAdmin :: string where "RoleWalletAdmin \<equiv> ''wallet-admin''"

record identity =
  id_subject :: string
  id_roles :: "string list"
  id_provider_id :: string

definition has_role :: "identity \<Rightarrow> string \<Rightarrow> bool" where
  "has_role i role = list_ex (\<lambda>r. r = role) (id_roles i)"

section \<open>Claims\<close>

record keycloak_claims =
  kc_roles :: "string list"
  kc_provider_id :: string
  kc_expiry :: "int64 ptr"
  kc_not_before :: "int64 ptr"
  kc_issued_at :: "int64 ptr"

definition zero_claims :: keycloak_claims where
  "zero_claims = \<lparr>kc_roles = [], kc_provider_id = '''', kc_expiry = None, kc_not_before = None, kc_issued_at = None\<rparr>"

text \<open>A JSON number into an \<open>*int64\<close>: an integer literal of 64 bits.\<close>

definition int_pointer :: "jvalue \<Rightarrow> int64 ptr \<Rightarrow> bool \<times> int64 ptr" where
  "int_pointer x old = (case x of
     VNumber text \<Rightarrow> (case parse_int64 text of None \<Rightarrow> (True, old) | Some i \<Rightarrow> (False, Some (word_of_int i)))
   | VNull \<Rightarrow> (False, None) | _ \<Rightarrow> (True, old))"

text \<open>An array into a \<open>[]string\<close>, item by item over what the slice held.\<close>

fun string_items :: "jvalue list \<Rightarrow> string list \<Rightarrow> bool \<times> string list" where
  "string_items [] old = (False, [])"
| "string_items (x # xs) old =
     (case string_value x (case old of [] \<Rightarrow> '''' | y # _ \<Rightarrow> y) of (b, s) \<Rightarrow>
      case string_items xs (tl old) of (bs, ss) \<Rightarrow> (b \<or> bs, s # ss))"

definition string_list :: "jvalue \<Rightarrow> string list \<Rightarrow> bool \<times> string list" where
  "string_list x old = (case x of VArray xs \<Rightarrow> string_items xs old | VNull \<Rightarrow> (False, []) | _ \<Rightarrow> (True, old))"

text \<open>\<open>json.Unmarshal\<close> passes over the members that no field is named after.\<close>

definition known_members :: "string list \<Rightarrow> jvalue \<Rightarrow> jvalue" where
  "known_members names x = (case x of VObject ms \<Rightarrow> VObject (filter (\<lambda>(k, v). find_field names k \<noteq> None) ms) | _ \<Rightarrow> x)"

definition set_realm_access :: "(string list) setter" where
  "set_realm_access n x roles = Inr (string_list x roles)"

definition set_claim :: "keycloak_claims setter" where
  "set_claim n x c =
     (if n = ''realm_access'' then
        bindE (decode_struct set_realm_access [''roles''] (known_members [''roles''] x) (kc_roles c))
          (\<lambda>(b, roles). Inr (b, c\<lparr>kc_roles := roles\<rparr>))
      else if n = ''provider_id'' then set_text x (kc_provider_id c) (\<lambda>s. c\<lparr>kc_provider_id := s\<rparr>)
      else if n = ''exp'' then (case int_pointer x (kc_expiry c) of (b, p) \<Rightarrow> Inr (b, c\<lparr>kc_expiry := p\<rparr>))
      else if n = ''nbf'' then (case int_pointer x (kc_not_before c) of (b, p) \<Rightarrow> Inr (b, c\<lparr>kc_not_before := p\<rparr>))
      else (case int_pointer x (kc_issued_at c) of (b, p) \<Rightarrow> Inr (b, c\<lparr>kc_issued_at := p\<rparr>)))"

definition claim_names :: "string list" where
  "claim_names = [''realm_access'', ''provider_id'', ''exp'', ''nbf'', ''iat'']"

text \<open>\<open>token.Claims\<close>; \<open>None\<close> is its error.\<close>

definition decode_claims :: "string \<Rightarrow> keycloak_claims option" where
  "decode_claims text = (case parse_json text of
     None \<Rightarrow> None
   | Some (x, rest) \<Rightarrow>
       (case decode_struct set_claim claim_names (known_members claim_names x) zero_claims of
          Inr (bad, c) \<Rightarrow> if bad \<or> skip_ws rest \<noteq> [] then None else Some c
        | Inl _ \<Rightarrow> None))"

section \<open>Times\<close>

text \<open>
  \<open>time.Unix(s, 0)\<close>: the seconds since year 1 are a 64-bit sum that wraps. \<open>Add\<close> keeps the seconds of
  its result between the extreme 64-bit values.
\<close>

definition unix_time :: "int64 \<Rightarrow> gotime" where
  "unix_time s = \<lparr>instant = sint (s + 62135596800) * 1000000000, location = ''Local''\<rparr>"

definition time_plus :: "gotime \<Rightarrow> int64 \<Rightarrow> gotime" where
  "time_plus t d =
     (let i = instant t + sint d; secs = i div 1000000000; nanos = i mod 1000000000;
          bound = (if 2 ^ 63 \<le> secs then 2 ^ 63 - 1 else if secs < - (2 ^ 63) then - (2 ^ 63 - 1) else secs)
      in t\<lparr>instant := bound * 1000000000 + nanos\<rparr>)"

definition time_after :: "gotime \<Rightarrow> gotime \<Rightarrow> bool" where
  "time_after t u \<longleftrightarrow> instant u < instant t"

datatype auth_error = VerifierNotReady | TokenRejected | ClaimsUnreadable | NoExpiry | TokenExpired | TokenNotYetValid | IssuedInFuture

definition validate_times :: "keycloak_claims \<Rightarrow> gotime \<Rightarrow> int64 \<Rightarrow> auth_error + unit" where
  "validate_times c now skew =
     (case kc_expiry c of
        None \<Rightarrow> Inl NoExpiry
      | Some e \<Rightarrow>
          bindE (requireE (\<not> time_after now (time_plus (unix_time e) skew)) TokenExpired) (\<lambda>_.
          bindE (requireE (\<not> (case kc_not_before c of None \<Rightarrow> False
             | Some n \<Rightarrow> time_after (unix_time n) (time_plus now skew))) TokenNotYetValid) (\<lambda>_.
          requireE (\<not> (case kc_issued_at c of None \<Rightarrow> False
             | Some n \<Rightarrow> time_after (unix_time n) (time_plus now skew))) IssuedInFuture)))"

section \<open>The verifier\<close>

text \<open>
  \<open>ov_id_verifier\<close> is nil until the discovery is complete; it then gives the subject and the claims' JSON of a
  token whose signature, issuer and audience are right.
\<close>

record oidc_verifier =
  ov_id_verifier :: "(string \<Rightarrow> (string \<times> string) option) ptr"
  ov_clock_skew :: int64

definition new_oidc_verifier :: oidc_verifier where
  "new_oidc_verifier = \<lparr>ov_id_verifier = None, ov_clock_skew = 0\<rparr>"

definition set_verifier :: "(string \<Rightarrow> (string \<times> string) option) \<Rightarrow> int64 \<Rightarrow> oidc_verifier \<Rightarrow> oidc_verifier" where
  "set_verifier f skew v = v\<lparr>ov_id_verifier := Some f, ov_clock_skew := skew\<rparr>"

definition verify :: "oidc_verifier \<Rightarrow> string \<Rightarrow> (auth_error, identity) tx" where
  "verify v raw_token =
     (case ov_id_verifier v of
        None \<Rightarrow> failT VerifierNotReady
      | Some id_verify \<Rightarrow>
          (case id_verify raw_token of
             None \<Rightarrow> failT TokenRejected
           | Some (subject, text) \<Rightarrow>
               (case decode_claims text of
                  None \<Rightarrow> failT ClaimsUnreadable
                | Some claims \<Rightarrow>
                    bindT get_now (\<lambda>now.
                    bindT (liftE (validate_times claims now (ov_clock_skew v))) (\<lambda>_.
                    returnT \<lparr>id_subject = subject, id_roles = kc_roles claims, id_provider_id = kc_provider_id claims\<rparr>)))))"

section \<open>What an accepted token shows\<close>

text \<open>Seconds since 1970 as an instant.\<close>

definition unix_instant :: "int64 \<Rightarrow> int" where
  "unix_instant s = (sint s + 62135596800) * 1000000000"

lemma unix_time_instant: "0 \<le> sint s \<Longrightarrow> sint s < 2 ^ 62 \<Longrightarrow> instant (unix_time s) = unix_instant s"
proof -
  assume s: "0 \<le> sint s" "sint s < 2 ^ 62"
  have c: "sint (62135596800 :: int64) = 62135596800" by simp
  have "sint (s + 62135596800) = sint s + 62135596800"
    using sint64_add [of s 62135596800] s unfolding c by simp
  then show ?thesis by (simp add: unix_time_def unix_instant_def)
qed

lemma time_plus_instant:
  assumes "- (2 ^ 63) * 1000000000 \<le> instant t + sint d" "instant t + sint d < 2 ^ 63 * 1000000000"
  shows "instant (time_plus t d) = instant t + sint d"
proof -
  have "(instant t + sint d) div 1000000000 < 2 ^ 63" "- (2 ^ 63) \<le> (instant t + sint d) div 1000000000"
    using assms by linarith+
  then show ?thesis by (simp add: time_plus_def Let_def)
qed

definition within_times :: "keycloak_claims \<Rightarrow> gotime \<Rightarrow> int64 \<Rightarrow> bool" where
  "within_times c now skew \<longleftrightarrow>
     (\<exists>e. kc_expiry c = Some e \<and> (0 \<le> sint e \<and> sint e < 2 ^ 62 \<longrightarrow> instant now \<le> unix_instant e + sint skew)) \<and>
     (\<forall>n. (kc_not_before c = Some n \<or> kc_issued_at c = Some n) \<and> 0 \<le> sint n \<and> sint n < 2 ^ 62 \<longrightarrow>
       unix_instant n \<le> instant now + sint skew)"

lemma validate_times_ok:
  assumes "validate_times c now skew = Inr u" "\<bar>instant now\<bar> < 2 ^ 62 * 1000000000"
  shows "within_times c now skew"
proof -
  note skew = sint64_lower [of skew] sint64_upper [of skew]
  obtain e where e: "kc_expiry c = Some e" "instant now \<le> instant (time_plus (unix_time e) skew)"
    and n: "\<And>n. kc_not_before c = Some n \<or> kc_issued_at c = Some n \<Longrightarrow> instant (unix_time n) \<le> instant (time_plus now skew)"
    using assms(1) by (fastforce simp: validate_times_def time_after_def ok_iff split: option.splits)
  have now: "instant (time_plus now skew) = instant now + sint skew"
    by (rule time_plus_instant) (use assms(2) skew in \<open>simp_all add: abs_less_iff\<close>)
  have "instant now \<le> unix_instant e + sint skew" if r: "0 \<le> sint e" "sint e < 2 ^ 62"
  proof -
    have "instant (time_plus (unix_time e) skew) = instant (unix_time e) + sint skew"
      by (rule time_plus_instant) (use r skew in \<open>simp_all add: unix_time_instant unix_instant_def\<close>)
    then show ?thesis using e(2) r by (simp add: unix_time_instant)
  qed
  moreover have "unix_instant m \<le> instant now + sint skew"
    if "kc_not_before c = Some m \<or> kc_issued_at c = Some m" "0 \<le> sint m" "sint m < 2 ^ 62" for m
    using n [OF that(1)] that(2,3) now by (simp add: unix_time_instant)
  ultimately show ?thesis using e(1) by (auto simp: within_times_def)
qed

text \<open>An accepted token passed the library's check, and now lies between its times, within the skew.\<close>

lemma verify_ok:
  assumes "verify v token s = (Inr i, s')"
  shows "\<exists>f text claims now. ov_id_verifier v = Some f \<and> f token = Some (id_subject i, text) \<and>
     decode_claims text = Some claims \<and> id_roles i = kc_roles claims \<and> id_provider_id i = kc_provider_id claims \<and>
     fst (get_now s) = (Inr now :: unit + gotime) \<and> validate_times claims now (ov_clock_skew v) = Inr ()"
  using assms
  by (auto simp: verify_def failT_ok bindT_ok liftE_ok returnT_ok get_now_def split: option.splits list.splits prod.splits)

lemma verify_db [simp]: "db_same (verify v token)"
  unfolding verify_def by (auto intro!: db_same_bindT split: option.splits prod.splits)
end
