(* ===== verification/HttpReply.thy ===== *)
theory HttpReply
  imports WalletUseCases ProcessOperation Auth
begin

text \<open>
  Requests and replies of the HTTP API: the error envelope and the statuses of
  \<open>internal/httpapi/errors.go\<close> and \<open>wagering.go\<close>, the reading of bodies of \<open>json.go\<close> and the JSON
  shapes of \<open>wallet.go\<close>, \<open>wagering.go\<close> and \<open>wagering_read.go\<close>.
\<close>

section \<open>Requests and replies\<close>

text \<open>
  A request as \<open>net/http\<close> hands it over: the path as its segments, whether the mux finds it clean, the
  first value of each header under its canonical name, and the parameters of the query, decoded.
\<close>

record http_request =
  hq_method :: string
  hq_path :: "string list"
  hq_clean :: bool
  hq_headers :: "(string \<times> string) list"
  hq_query :: "(string \<times> string) list"
  hq_body :: string

record http_response =
  hp_status :: nat
  hp_headers :: "(string \<times> string) list"
  hp_body :: string

text \<open>\<open>Header.Get\<close> and \<open>Values.Get\<close>.\<close>

definition first_value :: "(string \<times> string) list \<Rightarrow> string \<Rightarrow> string" where
  "first_value kvs k = (case map_of kvs k of None \<Rightarrow> '''' | Some v \<Rightarrow> v)"

definition url_path :: "http_request \<Rightarrow> string" where
  "url_path q = concat (map (\<lambda>segment. ''/'' @ segment) (hq_path q))"

section \<open>JSON of the replies\<close>

text \<open>The values of the replies: those of \<open>Json\<close>, and null, booleans and arrays.\<close>

datatype reply = RJson json | RNull | RBool bool | RList "reply list" | RObj "(string \<times> reply) list"

fun reply_text :: "reply \<Rightarrow> string" where
  "reply_text (RJson j) = json_text True j"
| "reply_text RNull = ''null''"
| "reply_text (RBool b) = (if b then ''true'' else ''false'')"
| "reply_text (RList xs) = ''['' @ join '','' (map reply_text xs) @ '']''"
| "reply_text (RObj fs) = ''{'' @ join '','' (map (\<lambda>(k, v). json_string True k @ '':'' @ reply_text v) fs) @ ''}''"

abbreviation rtext :: "string \<Rightarrow> reply" where "rtext s \<equiv> RJson (JStr s)"
abbreviation rnum :: "int \<Rightarrow> reply" where "rnum i \<equiv> RJson (JNum i)"

text \<open>A struct some of whose fields may fail to encode; then the whole does.\<close>

definition robj :: "(string \<times> reply option) list \<Rightarrow> reply option" where
  "robj fs = (if list_all (\<lambda>(k, v). v \<noteq> None) fs then Some (RObj (map (\<lambda>(k, v). (k, the v)) fs)) else None)"

definition money_reply :: "money \<Rightarrow> reply option" where
  "money_reply m = (case money_json m of Inl _ \<Rightarrow> None | Inr j \<Rightarrow> Some (RJson j))"

text \<open>
  \<open>Time.MarshalJSON\<close>: RFC 3339 with the fraction's trailing zeros cut; \<open>off\<close> is the offset from UTC, in seconds,
  of the time's location at that instant. A year outside 0 to 9999 is an error.
\<close>

definition fraction_text :: "int \<Rightarrow> string" where
  "fraction_text nanos = (if nanos = 0 then ''''
     else ''.'' @ rev (dropWhile (\<lambda>c. c = CHR ''0'') (rev (pad 9 nanos))))"

definition zone_text :: "int \<Rightarrow> string" where
  "zone_text off = (if off = 0 then ''Z''
     else (let m = go_quot off 60 in (if m < 0 then ''-'' else ''+'') @ pad 2 (\<bar>m\<bar> div 60) @ '':'' @ pad 2 (\<bar>m\<bar> mod 60)))"

definition time_reply :: "int \<Rightarrow> gotime \<Rightarrow> reply option" where
  "time_reply off t =
     (let i = instant t + off * 1000000000; secs = i div 1000000000; s = secs mod 86400;
          (y, yd) = year_day (secs div 86400); (m, d) = month_day (month_lengths y) 1 yd
      in if y < 0 \<or> 9999 < y \<or> 24 * 60 \<le> \<bar>go_quot off 60\<bar> then None
         else Some (rtext (pad 4 y @ ''-'' @ pad 2 m @ ''-'' @ pad 2 d @ ''T'' @
           pad 2 (s div 3600) @ '':'' @ pad 2 (s div 60 mod 60) @ '':'' @ pad 2 (s mod 60) @
           fraction_text (i mod 1000000000) @ zone_text off)))"

text \<open>A pointer field without \<open>omitempty\<close>: nil is null.\<close>

definition null_or :: "('a \<Rightarrow> reply option) \<Rightarrow> 'a ptr \<Rightarrow> reply option" where
  "null_or f p = (case p of None \<Rightarrow> Some RNull | Some x \<Rightarrow> f x)"

section \<open>Writing a reply\<close>

definition content_json :: "string \<times> string" where
  "content_json = (''Content-Type'', ''application/json'')"

text \<open>
  \<open>json.NewEncoder(w).Encode\<close> after the status is written: the text and a line feed, or nothing when a
  field does not encode.
\<close>

definition json_response :: "nat \<Rightarrow> reply option \<Rightarrow> http_response" where
  "json_response status r = \<lparr>hp_status = status, hp_headers = [content_json],
     hp_body = (case r of None \<Rightarrow> '''' | Some x \<Rightarrow> reply_text x @ [CHR 0x0A])\<rparr>"

record error_detail_item =
  di_field :: string
  di_reason :: string

record error_detail =
  dt_code :: code
  dt_message :: string
  dt_correctable :: bool
  dt_details :: "error_detail_item list"

definition error_reply :: "error_detail \<Rightarrow> reply" where
  "error_reply d = RObj [(''error'', RObj [(''code'', rtext (dt_code d)), (''message'', rtext (dt_message d)),
     (''correctable'', RBool (dt_correctable d)),
     (''details'', RList (map (\<lambda>i. RJson (JObj [(''field'', JStr (di_field i)), (''reason'', JStr (di_reason i))])) (dt_details d)))])]"

definition write_error_envelope :: "nat \<Rightarrow> error_detail \<Rightarrow> http_response" where
  "write_error_envelope status d = \<lparr>hp_status = status,
     hp_headers = content_json # (if status = 503 then [(''Retry-After'', ''1'')] else []),
     hp_body = reply_text (error_reply d) @ [CHR 0x0A]\<rparr>"

definition write_auth_error :: "nat \<Rightarrow> string \<Rightarrow> string \<Rightarrow> http_response" where
  "write_auth_error status c message = write_error_envelope status
     \<lparr>dt_code = c, dt_message = message, dt_correctable = False, dt_details = []\<rparr>"

definition unauthorized :: "string \<Rightarrow> http_response" where
  "unauthorized message = write_auth_error 401 ''UNAUTHORIZED'' message"

definition forbidden :: "string \<Rightarrow> http_response" where
  "forbidden message = write_auth_error 403 ''FORBIDDEN'' message"

section \<open>The status of an error\<close>

definition status_for_operation_error :: "op_error \<Rightarrow> nat" where
  "status_for_operation_error e =
     (if err_code e = ''WALLET_NOT_FOUND'' then 404
      else let c = classification_for (err_code e) in
        if c = Some Correctable then 400 else if c = Some Conflict then 409
        else if c = Some Unavailable then 503 else if c = Some Definitive then 422 else 500)"

definition status_for_wagering_error :: "op_error \<Rightarrow> nat" where
  "status_for_wagering_error e =
     (if err_code e = ''INVALID_REQUEST'' \<or> err_code e = ''INVALID_MONEY'' then 400
      else if err_code e = ''WALLET_NOT_FOUND'' \<or> err_code e = ''TRANSACTION_NOT_FOUND'' then 404
      else let c = classification_for (err_code e) in
        if c = Some Correctable \<or> c = Some Definitive then 422 else if c = Some Conflict then 409
        else if c = Some Unavailable then 503 else 500)"

definition code_messages :: "(code \<times> string) list" where
  "code_messages =
     [(''INVALID_REQUEST'', ''the request body is malformed or carries fields this endpoint does not accept''),
      (''INVALID_MONEY'', ''amount must match the canonical decimal format with exactly two decimal places''),
      (''UNSUPPORTED_CURRENCY'', ''currency is not in the supported allowlist''),
      (''WALLET_NOT_FOUND'', ''no wallet exists with this id''),
      (''TRANSACTION_NOT_FOUND'', ''no transaction exists with this id, or you are not authorized to see it''),
      (''WALLET_ALREADY_EXISTS'', ''a wallet already exists for this player and currency''),
      (''TEMPORARILY_UNAVAILABLE'', ''the service is temporarily unavailable, retry with the same request''),
      (''INVALID_AMOUNT_FOR_KIND'', ''the amount is not allowed for this operation kind''),
      (''KIND_NOT_ALLOWED'', ''this operation kind cannot be submitted by a provider''),
      (''MISSING_IDEMPOTENCY_KEY'', ''the Idempotency-Key header is required''),
      (''REFERENCE_REQUIRED'', ''this operation kind requires referenceExternalTransactionId''),
      (''REFERENCE_NOT_ALLOWED'', ''this operation kind must not carry a referenceExternalTransactionId''),
      (''WALLET_PLAYER_MISMATCH'', ''the wallet belongs to a different player''),
      (''WALLET_CURRENCY_MISMATCH'', ''the wallet is in a different currency''),
      (''IDEMPOTENCY_KEY_REUSED'', ''this Idempotency-Key was already used with different content''),
      (''EXTERNAL_TRANSACTION_ID_CONFLICT'', ''this externalTransactionId was already used under a different Idempotency-Key'')]"

definition message_for_code :: "code \<Rightarrow> string" where
  "message_for_code c = (case map_of code_messages c of None \<Rightarrow> ''request rejected'' | Some m \<Rightarrow> m)"

definition operation_error_detail :: "op_error \<Rightarrow> error_detail_item list \<Rightarrow> error_detail" where
  "operation_error_detail e details = \<lparr>dt_code = err_code e, dt_message = message_for_code (err_code e),
     dt_correctable = (classification_for (err_code e) = Some Correctable), dt_details = details\<rparr>"

definition write_operation_error :: "op_error \<Rightarrow> error_detail_item list \<Rightarrow> http_response" where
  "write_operation_error e details = write_error_envelope (status_for_operation_error e) (operation_error_detail e details)"

definition write_wagering_error :: "op_error \<Rightarrow> error_detail_item list \<Rightarrow> http_response" where
  "write_wagering_error e details = write_error_envelope (status_for_wagering_error e) (operation_error_detail e details)"

definition details_for_operation_error :: "op_error \<Rightarrow> error_detail_item list" where
  "details_for_operation_error e =
     (if err_code e = ''INVALID_MONEY'' \<or> err_code e = ''UNSUPPORTED_CURRENCY''
      then [\<lparr>di_field = ''initialBalance'', di_reason = message_for_code (err_code e)\<rparr>] else [])"

text \<open>\<open>errors.As\<close> for an \<open>*operation.Error\<close>; any other error is answered as unavailable.\<close>

definition operation_error_of :: "app_error \<Rightarrow> op_error" where
  "operation_error_of e = (case e of OpErr o' \<Rightarrow> o' | _ \<Rightarrow> TemporarilyUnavailable)"

section \<open>Bodies\<close>

definition max_request_body_bytes :: nat where
  "max_request_body_bytes = 1048576"

text \<open>
  \<open>decodeJSONBody\<close> behind \<open>http.MaxBytesReader\<close>: of a longer body the decoder sees the allowed bytes and then
  an error, so that it fails in any case, with the error of an \<open>UnmarshalJSON\<close> when the first value has one.
\<close>

definition decode_json_body :: "'a setter \<Rightarrow> string list \<Rightarrow> 'a \<Rightarrow> string \<Rightarrow> money_error option + 'a" where
  "decode_json_body set_field names zero body =
     (if length body \<le> max_request_body_bytes then decode_single set_field names zero body
      else case decode_single set_field names zero (take max_request_body_bytes body) of
        Inl e \<Rightarrow> Inl e | Inr _ \<Rightarrow> Inl None)"

definition malformed_body :: "error_detail_item list" where
  "malformed_body = [\<lparr>di_field = ''body'', di_reason = ''malformed JSON, an unknown field, or trailing data after the JSON object''\<rparr>]"

definition classify_body_error :: "string \<Rightarrow> money_error option \<Rightarrow> op_error \<times> error_detail_item list" where
  "classify_body_error field e = (case e of
     Some m \<Rightarrow> (classify_money_error m, [\<lparr>di_field = field, di_reason = message_for_code (err_code (classify_money_error m))\<rparr>])
   | None \<Rightarrow> (InvalidRequest, malformed_body))"

definition classify_decode_error :: "money_error option \<Rightarrow> op_error \<times> error_detail_item list" where
  "classify_decode_error = classify_body_error ''initialBalance''"

definition classify_wagering_decode_error :: "money_error option \<Rightarrow> op_error \<times> error_detail_item list" where
  "classify_wagering_decode_error = classify_body_error ''money''"

record open_wallet_request =
  oq_player_id :: string
  oq_initial_balance :: money

definition set_open_field :: "open_wallet_request setter" where
  "set_open_field n x v =
     (if n = ''playerId'' then set_text x (oq_player_id v) (\<lambda>s. v\<lparr>oq_player_id := s\<rparr>)
      else bindE (unmarshal_money x) (\<lambda>m. Inr (False, v\<lparr>oq_initial_balance := m\<rparr>)))"

definition decode_open_request :: "string \<Rightarrow> money_error option + open_wallet_request" where
  "decode_open_request = decode_json_body set_open_field [''playerId'', ''initialBalance'']
     \<lparr>oq_player_id = '''', oq_initial_balance = zero_money\<rparr>"

text \<open>The body of \<open>POST /wagering/transactions\<close> has the fields of \<open>operation.Request\<close>.\<close>

definition zero_request :: request where
  "zero_request = \<lparr>rq_provider_id = '''', rq_external_id = '''', rq_player_id = '''', rq_wallet_id = '''',
     rq_round_id = '''', rq_game_id = '''', rq_kind = '''', rq_money = zero_money, rq_reference = None\<rparr>"

definition wagering_names :: "string list" where
  "wagering_names = [''providerId'', ''externalTransactionId'', ''playerId'', ''walletId'', ''roundId'', ''gameId'',
     ''kind'', ''money'', ''referenceExternalTransactionId'']"

definition set_wagering_field :: "request setter" where
  "set_wagering_field n x r =
     (if n = ''providerId'' then set_text x (rq_provider_id r) (\<lambda>s. r\<lparr>rq_provider_id := s\<rparr>)
      else if n = ''externalTransactionId'' then set_text x (rq_external_id r) (\<lambda>s. r\<lparr>rq_external_id := s\<rparr>)
      else if n = ''playerId'' then set_text x (rq_player_id r) (\<lambda>s. r\<lparr>rq_player_id := s\<rparr>)
      else if n = ''walletId'' then set_text x (rq_wallet_id r) (\<lambda>s. r\<lparr>rq_wallet_id := s\<rparr>)
      else if n = ''roundId'' then set_text x (rq_round_id r) (\<lambda>s. r\<lparr>rq_round_id := s\<rparr>)
      else if n = ''gameId'' then set_text x (rq_game_id r) (\<lambda>s. r\<lparr>rq_game_id := s\<rparr>)
      else if n = ''kind'' then set_text x (rq_kind r) (\<lambda>s. r\<lparr>rq_kind := s\<rparr>)
      else if n = ''money'' then bindE (unmarshal_money x) (\<lambda>m. Inr (False, r\<lparr>rq_money := m\<rparr>))
      else (case string_pointer x (rq_reference r) of (b, p) \<Rightarrow> Inr (b, r\<lparr>rq_reference := p\<rparr>)))"

definition decode_wagering_request :: "string \<Rightarrow> money_error option + request" where
  "decode_wagering_request = decode_json_body set_wagering_field wagering_names zero_request"

section \<open>Shapes of the replies\<close>

definition to_wallet_response :: "wallet \<Rightarrow> reply option" where
  "to_wallet_response w = robj [(''id'', Some (rtext (w_id w))), (''playerId'', Some (rtext (w_player_id w))),
     (''balance'', money_reply (w_balance w)), (''version'', Some (rnum (sint (w_version w))))]"

text \<open>\<open>zone\<close> gives the offset from UTC of a time in its location.\<close>

definition ledger_entry_response :: "(gotime \<Rightarrow> int) \<Rightarrow> audit_entry \<Rightarrow> reply option" where
  "ledger_entry_response zone e = robj [(''sequenceNumber'', Some (rnum (ae_sequence e))),
     (''transactionId'', Some (rtext (ae_transaction_id e))), (''direction'', Some (rtext (ae_direction e))),
     (''money'', money_reply (ae_money e)), (''balanceBefore'', money_reply (ae_before e)),
     (''balanceAfter'', money_reply (ae_after e)), (''occurredAt'', time_reply (zone (ae_occurred e)) (ae_occurred e))]"

definition ledger_response :: "(gotime \<Rightarrow> int) \<Rightarrow> ledger_page \<Rightarrow> reply option" where
  "ledger_response zone p = robj [(''entries'', map_option RList (all_some (map (ledger_entry_response zone) (lp_entries p)))),
     (''nextCursor'', null_or (\<lambda>n. Some (rtext (encode_ledger_cursor n))) (lp_next p))]"

definition reconciliation_response :: "reconciliation \<Rightarrow> bool \<Rightarrow> reply option" where
  "reconciliation_response r consistent = robj [(''walletId'', Some (rtext (rc_wallet_id r))),
     (''storedBalance'', money_reply (rc_stored r)), (''calculatedBalance'', money_reply (rc_calculated r)),
     (''difference'', money_reply (rc_difference r)), (''consistent'', Some (RBool consistent)),
     (''checkedEntries'', Some (rnum (rc_checked r)))]"

text \<open>The status and the body of a processed operation.\<close>

definition wagering_status :: "process_result \<Rightarrow> nat" where
  "wagering_status r = (if ps_status r = Rejected then 422 else if ps_status r = PendingReference then 202 else 200)"

definition wagering_response :: "(gotime \<Rightarrow> int) \<Rightarrow> process_result \<Rightarrow> reply option" where
  "wagering_response zone r = robj (
     [(''transactionId'', Some (rtext (ps_transaction_id r))), (''status'', Some (rtext (ps_status r)))] @
     (if ps_failure_code r = '''' then [] else [(''failureCode'', Some (rtext (ps_failure_code r)))]) @
     (if ps_status r \<noteq> PendingReference then [(''balance'', money_reply (ps_balance r))] else []) @
     (case ps_expires r of None \<Rightarrow> [] | Some t \<Rightarrow> [(''pendingExpiresAt'', time_reply (zone t) t)]) @
     [(''idempotentReplay'', Some (RBool (ps_replay r)))])"

definition nullable_string :: "string \<Rightarrow> string ptr" where
  "nullable_string s = (if s = '''' then None else Some s)"

definition utc_ptr :: "gotime ptr \<Rightarrow> gotime ptr" where
  "utc_ptr p = map_option utc p"

definition to_transaction_detail_response :: "transaction_detail \<Rightarrow> reply option" where
  "to_transaction_detail_response d =
     (let text = (\<lambda>s. Some (rtext s)); nullable = (\<lambda>s. null_or (\<lambda>x. Some (rtext x)) (nullable_string s));
          time = time_reply 0 in
      robj [(''transactionId'', text (td_transaction_id d)), (''externalTransactionId'', nullable (td_external_id d)),
        (''providerId'', nullable (td_provider_id d)), (''playerId'', text (td_player_id d)),
        (''walletId'', text (td_wallet_id d)), (''roundId'', nullable (td_round_id d)), (''gameId'', nullable (td_game_id d)),
        (''kind'', text (td_kind d)), (''origin'', text (td_origin d)), (''money'', money_reply (td_money d)),
        (''referenceExternalTransactionId'', nullable (td_ref_external d)),
        (''referenceTransactionId'', nullable (td_ref_id d)), (''status'', text (td_status d)),
        (''failureCode'', nullable (td_failure_code d)),
        (''resultingBalance'', null_or money_reply (td_resulting_balance d)),
        (''attempts'', Some (rnum (td_attempts d))), (''nextAttemptAt'', null_or time (utc_ptr (td_next_attempt d))),
        (''pendingExpiresAt'', null_or time (utc_ptr (td_expires d))),
        (''createdAt'', time (utc (td_created d))), (''updatedAt'', time (utc (td_updated d)))])"

section \<open>Errors and their statuses\<close>

lemma classification_of_op_error:
  "classification_for (err_code e) = Some Unavailable \<longleftrightarrow> e = TemporarilyUnavailable"
  "classification_for (err_code e) \<noteq> None"
  by (cases e; simp add: classification_for_def)+

lemma wagering_error_status:
  "status_for_wagering_error e =
     (case e of TemporarilyUnavailable \<Rightarrow> 503 | PermanentProcessingFailure \<Rightarrow> 500
      | InvalidRequest \<Rightarrow> 400 | InvalidMoney \<Rightarrow> 400 | WalletNotFound \<Rightarrow> 404 | TransactionNotFound \<Rightarrow> 404
      | IdempotencyKeyReused \<Rightarrow> 409 | ExternalTransactionIDConflict \<Rightarrow> 409 | WalletAlreadyExists \<Rightarrow> 409 | _ \<Rightarrow> 422)"
  by (cases e) (simp_all add: status_for_wagering_error_def classification_for_def)

lemma operation_error_status:
  "status_for_operation_error e =
     (case e of WalletNotFound \<Rightarrow> 404 | TemporarilyUnavailable \<Rightarrow> 503 | PermanentProcessingFailure \<Rightarrow> 500
      | IdempotencyKeyReused \<Rightarrow> 409 | ExternalTransactionIDConflict \<Rightarrow> 409 | WalletAlreadyExists \<Rightarrow> 409
      | _ \<Rightarrow> if classification_for (err_code e) = Some Correctable then 400 else 422)"
  by (cases e) (simp_all add: status_for_operation_error_def classification_for_def)
end
