(* ===== verification/HttpApi.thy ===== *)
theory HttpApi
  imports HttpReply
begin

text \<open>
  The HTTP API of \<open>internal/httpapi\<close>: the handlers of \<open>wallet.go\<close>, \<open>wagering.go\<close>, \<open>wagering_read.go\<close> and
  \<open>health.go\<close>, the middleware of \<open>auth_middleware.go\<close> and \<open>metrics.go\<close>, and the routes of \<open>server.go\<close>. A
  handler that panics gives \<open>Inl\<close>: the connection is closed without a reply.
\<close>

section \<open>The server\<close>

text \<open>
  \<open>sv_uuid_parses\<close> is whether \<open>uuid.Parse\<close> of \<open>github.com/google/uuid\<close> accepts a text, \<open>sv_metrics_page\<close> the
  answer of \<open>promhttp\<close> to what was counted, and \<open>sv_zone\<close> the offset of a location other than UTC at an instant. A
  readiness check is given by the failure it reports, if any, in a state.
\<close>

record readiness =
  rd_shutting_down :: bool
  rd_checks :: "(string \<times> (world \<Rightarrow> string option)) list"

record http_server =
  sv_verifier :: oidc_verifier
  sv_readiness :: readiness
  sv_use_case :: use_case
  sv_uuid_parses :: "string \<Rightarrow> bool"
  sv_metrics_page :: "metric list \<Rightarrow> http_response"
  sv_zone :: "string \<Rightarrow> int \<Rightarrow> int"

definition zone_offset :: "http_server \<Rightarrow> gotime \<Rightarrow> int" where
  "zone_offset sv t = (if location t = ''UTC'' then 0 else sv_zone sv (location t) (instant t))"

type_synonym handler = "(app_error, http_response) tx"

section \<open>Health\<close>

definition mark_not_ready :: "readiness \<Rightarrow> readiness" where
  "mark_not_ready r = r\<lparr>rd_shutting_down := True\<rparr>"

definition readiness_evaluate :: "readiness \<Rightarrow> world \<Rightarrow> (string \<times> string) list" where
  "readiness_evaluate r s = List.map_filter (\<lambda>(name, check). map_option (Pair name) (check s)) (rd_checks r)"

text \<open>A \<open>map[string]string\<close> encodes with its keys in the order of their bytes.\<close>

fun bytes_less :: "string \<Rightarrow> string \<Rightarrow> bool" where
  "bytes_less x [] = False"
| "bytes_less [] (b # y) = True"
| "bytes_less (a # x) (b # y) = (byte_of a < byte_of b \<or> (a = b \<and> bytes_less x y))"

fun put_reason :: "string \<Rightarrow> string \<Rightarrow> (string \<times> string) list \<Rightarrow> (string \<times> string) list" where
  "put_reason k v [] = [(k, v)]"
| "put_reason k v ((k', v') # m) =
     (if k = k' then (k, v) # m else if bytes_less k k' then (k, v) # (k', v') # m else (k', v') # put_reason k v m)"

definition status_reply :: "string \<Rightarrow> reply" where
  "status_reply status = RObj [(''status'', rtext status)]"

definition live_handler :: handler where
  "live_handler = returnT (json_response 200 (Some (status_reply ''live'')))"

definition ready_handler :: "readiness \<Rightarrow> handler" where
  "ready_handler r s =
     (if rd_shutting_down r then returnT (json_response 503 (Some (status_reply ''shutting-down''))) s
      else case readiness_evaluate r s of
        [] \<Rightarrow> returnT (json_response 200 (Some (status_reply ''ready''))) s
      | failures \<Rightarrow>
          (let reasons = fold (\<lambda>(name, err). put_reason name err) failures [] in
           returnT (json_response 503 (Some (RObj
             [(''failures'', RObj (map (\<lambda>(k, v). (k, rtext v)) reasons)), (''status'', rtext ''not-ready'')]))) s))"

section \<open>Wallets\<close>

definition correlation_id :: "http_request \<Rightarrow> (app_error, string) tx" where
  "correlation_id q = (let v = first_value (hq_headers q) ''X-Correlation-Id'' in
     if v \<noteq> '''' then returnT v else new_id)"

definition open_wallet_handler :: "http_server \<Rightarrow> http_request \<Rightarrow> handler" where
  "open_wallet_handler sv q =
     (case decode_open_request (hq_body q) of
        Inl e \<Rightarrow> (case classify_decode_error e of (err, details) \<Rightarrow> returnT (write_operation_error err details))
      | Inr req \<Rightarrow>
          if \<not> sv_uuid_parses sv (oq_player_id req)
          then returnT (write_operation_error InvalidRequest [\<lparr>di_field = ''playerId'', di_reason = ''must be a valid UUID''\<rparr>])
          else bindT (correlation_id q) (\<lambda>corr.
            tryT (open_use_case \<lparr>ow_player_id = oq_player_id req, ow_initial_balance = oq_initial_balance req,
                ow_correlation_id = corr\<rparr>) (\<lambda>r. case r of
              Inl (OpErr e) \<Rightarrow> returnT (write_operation_error e (details_for_operation_error e))
            | Inl _ \<Rightarrow> returnT (write_operation_error TemporarilyUnavailable [])
            | Inr w \<Rightarrow> returnT (json_response 201 (to_wallet_response w)))))"

text \<open>What the reads have in common: an id the route cannot have is not found, an error has its status and no details.\<close>

definition answer_read :: "(op_error \<Rightarrow> http_response) \<Rightarrow> (app_error, 'a) tx \<Rightarrow> ('a \<Rightarrow> handler) \<Rightarrow> handler" where
  "answer_read write m k = tryT m (\<lambda>r. case r of Inl e \<Rightarrow> returnT (write (operation_error_of e)) | Inr x \<Rightarrow> k x)"

definition get_wallet_handler :: "http_server \<Rightarrow> string \<Rightarrow> handler" where
  "get_wallet_handler sv i =
     (if \<not> sv_uuid_parses sv i then returnT (write_operation_error WalletNotFound [])
      else answer_read (\<lambda>e. write_operation_error e []) (get_wallet i) (\<lambda>w.
        returnT (json_response 200 (to_wallet_response w))))"

definition ledger_handler :: "http_server \<Rightarrow> string \<Rightarrow> http_request \<Rightarrow> handler" where
  "ledger_handler sv i q =
     (if \<not> sv_uuid_parses sv i then returnT (write_operation_error WalletNotFound [])
      else case decode_ledger_cursor (first_value (hq_query q) ''cursor'') of
        None \<Rightarrow> returnT (write_operation_error InvalidRequest [\<lparr>di_field = ''cursor'', di_reason = ''must be a valid ledger cursor''\<rparr>])
      | Some after \<Rightarrow> (case ledger_limit (first_value (hq_query q) ''limit'') of
          None \<Rightarrow> returnT (write_operation_error InvalidRequest [\<lparr>di_field = ''limit'', di_reason = ''must be an integer from 1 to 200''\<rparr>])
        | Some limit \<Rightarrow> answer_read (\<lambda>e. write_operation_error e []) (audit_list i after limit) (\<lambda>page.
            returnT (json_response 200 (ledger_response (zone_offset sv) page)))))"

definition reconciliation_handler :: "http_server \<Rightarrow> string \<Rightarrow> handler" where
  "reconciliation_handler sv i =
     (if \<not> sv_uuid_parses sv i then returnT (write_operation_error WalletNotFound [])
      else answer_read (\<lambda>e. write_operation_error e []) (audit_reconcile i) (\<lambda>result.
        case money_compare (rc_stored result) (rc_calculated result) of
          Inl _ \<Rightarrow> returnT (write_operation_error TemporarilyUnavailable [])
        | Inr c \<Rightarrow>
            bindT (if c \<noteq> 0 then observe (Count ''wallet_reconciliation_divergences_total'') else returnT ()) (\<lambda>_.
            returnT (json_response 200 (reconciliation_response result (c = 0))))))"

section \<open>Operations\<close>

abbreviation ChannelHTTP :: string where "ChannelHTTP \<equiv> ''http''"

definition missing_token :: http_response where
  "missing_token = unauthorized ''missing or malformed bearer token''"

definition wrong_provider :: http_response where
  "wrong_provider = forbidden ''providerId does not match the authenticated caller''"

definition wagering_input :: "request \<Rightarrow> string \<Rightarrow> string \<Rightarrow> process_input" where
  "wagering_input req key corr = \<lparr>pr_request = req, pr_key = key, pr_correlation_id = corr, pr_causation_id = '''',
     pr_channel = ChannelHTTP\<rparr>"

definition wagering_transactions_handler :: "http_server \<Rightarrow> identity option \<Rightarrow> http_request \<Rightarrow> handler" where
  "wagering_transactions_handler sv ctx q = (case ctx of
     None \<Rightarrow> returnT missing_token
   | Some caller \<Rightarrow> (case decode_wagering_request (hq_body q) of
       Inl e \<Rightarrow> (case classify_wagering_decode_error e of (err, details) \<Rightarrow> returnT (write_wagering_error err details))
     | Inr req \<Rightarrow>
         if rq_provider_id req \<noteq> id_provider_id caller then returnT wrong_provider
         else bindT (correlation_id q) (\<lambda>corr.
           let key = first_value (hq_headers q) ''Idempotency-Key'' in
           if key = '''' then returnT (write_wagering_error MissingIdempotencyKey [])
           else answer_read (\<lambda>e. write_wagering_error e []) (process (sv_use_case sv) (wagering_input req key corr)) (\<lambda>res.
             returnT (json_response (wagering_status res) (wagering_response (zone_offset sv) res))))))"

definition caller_from_identity :: "identity \<Rightarrow> caller" where
  "caller_from_identity i = \<lparr>ca_provider_id = id_provider_id i, ca_is_admin = has_role i RoleWalletAdmin\<rparr>"

definition detail_response :: "transaction_detail \<Rightarrow> handler" where
  "detail_response d = returnT (json_response 200 (to_transaction_detail_response d))"

definition transaction_by_id_handler :: "identity option \<Rightarrow> string \<Rightarrow> handler" where
  "transaction_by_id_handler ctx i = (case ctx of
     None \<Rightarrow> returnT missing_token
   | Some caller \<Rightarrow>
       if \<not> is_canonical_uuid i
       then returnT (write_wagering_error InvalidRequest [\<lparr>di_field = ''transactionId'', di_reason = ''must be a canonical lowercase UUID''\<rparr>])
       else answer_read (\<lambda>e. write_wagering_error e []) (get_by_id i (caller_from_identity caller)) detail_response)"

definition max_opaque_identifier_bytes :: nat where
  "max_opaque_identifier_bytes = 255"

definition is_valid_opaque_identifier :: "string \<Rightarrow> bool" where
  "is_valid_opaque_identifier s \<longleftrightarrow> 1 \<le> length s \<and> length s \<le> max_opaque_identifier_bytes"

definition opaque_error :: "string \<Rightarrow> http_response" where
  "opaque_error field = write_wagering_error InvalidRequest [\<lparr>di_field = field, di_reason = ''must be 1 to 255 bytes''\<rparr>]"

definition provider_transaction_handler :: "identity option \<Rightarrow> string \<Rightarrow> string \<Rightarrow> handler" where
  "provider_transaction_handler ctx provider external = (case ctx of
     None \<Rightarrow> returnT missing_token
   | Some caller \<Rightarrow>
       if \<not> is_valid_opaque_identifier provider then returnT (opaque_error ''providerId'')
       else if \<not> is_valid_opaque_identifier external then returnT (opaque_error ''externalTransactionId'')
       else tryT (get_by_provider_external_id provider external (caller_from_identity caller)) (\<lambda>r. case r of
         Inl e \<Rightarrow> returnT (if e = ErrForbiddenProvider then wrong_provider
           else write_wagering_error (operation_error_of e) [])
       | Inr d \<Rightarrow> detail_response d))"

section \<open>Roles\<close>

definition require_role :: "string \<Rightarrow> identity option \<Rightarrow> handler \<Rightarrow> handler" where
  "require_role role ctx h = (case ctx of
     None \<Rightarrow> returnT missing_token
   | Some i \<Rightarrow>
       if has_role i RoleProvider \<and> id_provider_id i = '''' then returnT (forbidden ''provider token carries no provider_id claim'')
       else if \<not> has_role i role then returnT (forbidden ''caller does not have the required role'')
       else h)"

definition role_accepted :: "string list \<Rightarrow> string \<Rightarrow> bool" where
  "role_accepted roles role = list_ex (\<lambda>c. c = role) roles"

definition require_any_role :: "string list \<Rightarrow> identity option \<Rightarrow> handler \<Rightarrow> handler" where
  "require_any_role roles ctx h = (case ctx of
     None \<Rightarrow> returnT missing_token
   | Some i \<Rightarrow>
       if role_accepted roles RoleWalletAdmin \<and> has_role i RoleWalletAdmin then h
       else if role_accepted roles RoleProvider \<and> has_role i RoleProvider then
         (if id_provider_id i = '''' then returnT (forbidden ''provider token carries no provider_id claim'') else h)
       else returnT (forbidden ''caller does not have the required role''))"

section \<open>Routes\<close>

datatype segment = Literal string | Wildcard string

datatype endpoint =
    Live | Ready | Metrics | OpenWallet | GetWallet | ReadLedger | Reconcile
  | PostTransaction | TransactionById | ProviderTransaction

text \<open>The patterns given to the mux: their text, method and segments.\<close>

definition routes :: "(string \<times> string \<times> segment list \<times> endpoint) list" where
  "routes =
     [(''GET /health/live'', ''GET'', [Literal ''health'', Literal ''live''], Live),
      (''GET /health/ready'', ''GET'', [Literal ''health'', Literal ''ready''], Ready),
      (''GET /metrics'', ''GET'', [Literal ''metrics''], Metrics),
      (''POST /wallets'', ''POST'', [Literal ''wallets''], OpenWallet),
      (''GET /wallets/{walletId}'', ''GET'', [Literal ''wallets'', Wildcard ''walletId''], GetWallet),
      (''GET /wallets/{walletId}/ledger'', ''GET'', [Literal ''wallets'', Wildcard ''walletId'', Literal ''ledger''], ReadLedger),
      (''POST /wallets/{walletId}/reconciliation'', ''POST'',
         [Literal ''wallets'', Wildcard ''walletId'', Literal ''reconciliation''], Reconcile),
      (''POST /wagering/transactions'', ''POST'', [Literal ''wagering'', Literal ''transactions''], PostTransaction),
      (''GET /wagering/transactions/{transactionId}'', ''GET'',
         [Literal ''wagering'', Literal ''transactions'', Wildcard ''transactionId''], TransactionById),
      (''GET /providers/{providerId}/wagering/transactions/{externalTransactionId}'', ''GET'',
         [Literal ''providers'', Wildcard ''providerId'', Literal ''wagering'', Literal ''transactions'',
          Wildcard ''externalTransactionId''], ProviderTransaction)]"

text \<open>A wildcard stands for one segment that is not empty.\<close>

fun match_segments :: "segment list \<Rightarrow> string list \<Rightarrow> (string \<times> string) list option" where
  "match_segments [] [] = Some []"
| "match_segments (Literal l # ps) (x # xs) = (if x = l then match_segments ps xs else None)"
| "match_segments (Wildcard n # ps) (x # xs) = (if x = '''' then None else map_option (Cons (n, x)) (match_segments ps xs))"
| "match_segments _ _ = None"

text \<open>A pattern for GET takes HEAD too.\<close>

definition method_matches :: "string \<Rightarrow> string \<Rightarrow> bool" where
  "method_matches pattern m \<longleftrightarrow> m = pattern \<or> (pattern = ''GET'' \<and> m = ''HEAD'')"

definition find_route :: "http_request \<Rightarrow> (string \<times> endpoint \<times> (string \<times> string) list) option" where
  "find_route q = (case List.map_filter (\<lambda>(label, m, ps, e).
       if method_matches m (hq_method q) then map_option (\<lambda>vars. (label, e, vars)) (match_segments ps (hq_path q)) else None) routes of
     [] \<Rightarrow> None | r # _ \<Rightarrow> Some r)"

text \<open>The methods some pattern takes for the path, for the reply 405.\<close>

definition allowed_methods :: "http_request \<Rightarrow> string list" where
  "allowed_methods q = concat (map (\<lambda>(label, m, ps, e).
     if match_segments ps (hq_path q) = None then [] else if m = ''GET'' then [''GET'', ''HEAD''] else [m]) routes)"

definition plain_response :: "nat \<Rightarrow> (string \<times> string) list \<Rightarrow> string \<Rightarrow> http_response" where
  "plain_response status hs text = \<lparr>hp_status = status,
     hp_headers = hs @ [(''Content-Type'', ''text/plain; charset=utf-8''), (''X-Content-Type-Options'', ''nosniff'')],
     hp_body = text @ [CHR 0x0A]\<rparr>"

text \<open>The latency of a request is counted under its pattern and status once the handler has returned.\<close>

definition latency_wrap :: "string \<Rightarrow> handler \<Rightarrow> handler" where
  "latency_wrap label h = bindT h (\<lambda>r. bindT (observe (ObserveRequest label (hp_status r))) (\<lambda>_. returnT r))"

definition provider_or_admin :: "string list" where
  "provider_or_admin = [RoleProvider, RoleWalletAdmin]"

definition metrics_handler :: "http_server \<Rightarrow> handler" where
  "metrics_handler sv s = (Inr (sv_metrics_page sv (st_metrics s)), s)"

definition endpoint_handler :: "http_server \<Rightarrow> identity option \<Rightarrow> http_request \<Rightarrow> endpoint \<Rightarrow> (string \<times> string) list \<Rightarrow> handler" where
  "endpoint_handler sv ctx q e vars =
     (let var = first_value vars; admin = require_role RoleWalletAdmin ctx in
      case e of
        Live \<Rightarrow> live_handler
      | Ready \<Rightarrow> ready_handler (sv_readiness sv)
      | Metrics \<Rightarrow> metrics_handler sv
      | OpenWallet \<Rightarrow> admin (open_wallet_handler sv q)
      | GetWallet \<Rightarrow> admin (get_wallet_handler sv (var ''walletId''))
      | ReadLedger \<Rightarrow> admin (ledger_handler sv (var ''walletId'') q)
      | Reconcile \<Rightarrow> admin (reconciliation_handler sv (var ''walletId''))
      | PostTransaction \<Rightarrow> require_role RoleProvider ctx (wagering_transactions_handler sv ctx q)
      | TransactionById \<Rightarrow> require_any_role provider_or_admin ctx (transaction_by_id_handler ctx (var ''transactionId''))
      | ProviderTransaction \<Rightarrow> require_any_role provider_or_admin ctx
          (provider_transaction_handler ctx (var ''providerId'') (var ''externalTransactionId'')))"

definition is_timed :: "endpoint \<Rightarrow> bool" where
  "is_timed e \<longleftrightarrow> e \<noteq> Live \<and> e \<noteq> Ready \<and> e \<noteq> Metrics"

text \<open>
  The mux redirects a request whose path is not clean, answers one that no pattern takes, and calls the handler
  of the pattern otherwise. The \<open>Location\<close> of the redirect is left out.
\<close>

definition mux :: "http_server \<Rightarrow> identity option \<Rightarrow> http_request \<Rightarrow> handler" where
  "mux sv ctx q =
     (if \<not> hq_clean q \<and> hq_method q \<noteq> ''CONNECT'' then returnT \<lparr>hp_status = 301, hp_headers = [], hp_body = ''''\<rparr>
      else case find_route q of
        Some (label, e, vars) \<Rightarrow>
          (if is_timed e then latency_wrap label else (\<lambda>h. h)) (endpoint_handler sv ctx q e vars)
      | None \<Rightarrow> returnT (
          if allowed_methods q \<noteq> [] then plain_response 405 [(''Allow'', join '', '' (allowed_methods q))] ''Method Not Allowed''
          else plain_response 404 [] ''404 page not found''))"

section \<open>Authentication\<close>

text \<open>The bytes of a white-space rune at the front: Unicode's, as \<open>strings.Fields\<close> knows them.\<close>

definition space_size :: "string \<Rightarrow> nat option" where
  "space_size s = (case s of [] \<Rightarrow> None
   | c # r \<Rightarrow>
       if c = CHR '' '' \<or> (9 \<le> byte_of c \<and> byte_of c \<le> 13) then Some 1
       else if take 2 s = [CHR 0xC2, CHR 0x85] \<or> take 2 s = [CHR 0xC2, CHR 0xA0] then Some 2
       else if List.member [[CHR 0xE1, CHR 0x9A, CHR 0x80], [CHR 0xE2, CHR 0x80, CHR 0xA8], [CHR 0xE2, CHR 0x80, CHR 0xA9],
           [CHR 0xE2, CHR 0x80, CHR 0xAF], [CHR 0xE2, CHR 0x81, CHR 0x9F], [CHR 0xE3, CHR 0x80, CHR 0x80]] (take 3 s) then Some 3
       else if take 2 s = [CHR 0xE2, CHR 0x80] \<and> 2 < length s \<and> 128 \<le> byte_of (s ! 2) \<and> byte_of (s ! 2) \<le> 138 then Some 3
       else None)"

lemma space_size_pos: "space_size s = Some n \<Longrightarrow> 0 < n \<and> s \<noteq> []"
  by (auto simp: space_size_def split: list.splits if_splits)

function split_fields :: "string \<Rightarrow> string \<Rightarrow> string list" where
  "split_fields cur s =
     (if s = [] then (if cur = [] then [] else [cur])
      else case space_size s of
        Some n \<Rightarrow> (if cur = [] then [] else [cur]) @ split_fields [] (drop n s)
      | None \<Rightarrow> split_fields (cur @ [hd s]) (tl s))"
  by auto
termination
  by (relation "measure (\<lambda>(_, s). length s)") (auto dest: space_size_pos)

declare split_fields.simps [simp del]

definition scheme_lower :: "char \<Rightarrow> char" where
  "scheme_lower c = (if 65 \<le> byte_of c \<and> byte_of c \<le> 90 then char_of (byte_of c + 32) else c)"

text \<open>No rune outside ASCII folds to a letter of the scheme's name.\<close>

definition bearer_token :: "http_request \<Rightarrow> string option" where
  "bearer_token q = (case split_fields [] (first_value (hq_headers q) ''Authorization'') of
     [scheme, token] \<Rightarrow> if map scheme_lower scheme = ''bearer'' then Some token else None
   | _ \<Rightarrow> None)"

definition is_public_route :: "http_request \<Rightarrow> bool" where
  "is_public_route q \<longleftrightarrow> url_path q = ''/metrics'' \<or> take 8 (url_path q) = ''/health/''"

definition authenticate :: "oidc_verifier \<Rightarrow> http_request \<Rightarrow> (identity option \<Rightarrow> handler) \<Rightarrow> handler" where
  "authenticate v q h =
     (if is_public_route q then h None
      else case bearer_token q of
        None \<Rightarrow> returnT missing_token
      | Some token \<Rightarrow> tryT (verify v token) (\<lambda>r. case r of
          Inl _ \<Rightarrow> returnT (unauthorized ''invalid, unsigned or expired token'')
        | Inr i \<Rightarrow> h (Some i)))"

text \<open>What the server does with a request.\<close>

definition serve :: "http_server \<Rightarrow> http_request \<Rightarrow> handler" where
  "serve sv q = authenticate (sv_verifier sv) q (\<lambda>ctx. mux sv ctx q)"
end
