(* ===== verification/Backoff.thy ===== *)
theory Backoff
  imports Prelude
begin

text \<open>
  The retry schedule of \<open>internal/backoff/backoff.go\<close>: the base delay doubled once per attempt and
  capped, on 64-bit durations.
\<close>

text \<open>The loop, with the passes still to do.\<close>

fun doubling :: "nat \<Rightarrow> int64 \<Rightarrow> int64 \<Rightarrow> int64" where
  "doubling 0 delay cap = delay"
| "doubling (Suc n) delay cap =
     (if int64_div cap 2 <s delay then cap else doubling n (delay * 2) cap)"

definition exponential :: "int \<Rightarrow> int64 \<Rightarrow> int64 \<Rightarrow> int64" where
  "exponential attempt base cap =
     (if cap \<le>s base then cap
      else if attempt \<le> 0 then base
      else doubling (nat attempt) base cap)"

lemma half_nonneg: "0 \<le> sint (m :: int64) \<Longrightarrow> sint (int64_div m 2) = sint m div 2"
  using sint64_upper [of m] by (simp add: int64_div_def sint64_of_int)

lemma sint64_double: "sint d * 2 < 2 ^ 63 \<Longrightarrow> 0 \<le> sint d \<Longrightarrow> sint (d * 2 :: int64) = sint d * 2"
  using sint64_add [of d d] by (simp add: mult_2_right)

lemma doubling_value:
  "0 \<le> sint delay \<Longrightarrow> sint delay \<le> sint cap \<Longrightarrow>
     sint (doubling n delay cap) = min (sint delay * 2 ^ n) (sint cap)"
proof (induction n arbitrary: delay)
  case 0
  then show ?case by simp
next
  case (Suc n)
  have half: "sint (int64_div cap 2) = sint cap div 2" using Suc.prems by (intro half_nonneg) simp
  show ?case
  proof (cases "sint cap div 2 < sint delay")
    case True
    have "sint cap < sint delay * 2" using True by simp
    moreover have "sint delay * 2 \<le> sint delay * 2 ^ Suc n"
      using Suc.prems(1) by (intro mult_left_mono) simp_all
    ultimately show ?thesis using True half by (simp add: word_sless_alt)
  next
    case False
    then have le: "sint delay * 2 \<le> sint cap" by simp
    then have dbl: "sint (delay * 2) = sint delay * 2"
      using Suc.prems sint64_upper [of cap] by (intro sint64_double) simp_all
    have "sint (doubling n (delay * 2) cap) = min (sint (delay * 2) * 2 ^ n) (sint cap)"
      using Suc.prems(1) le dbl by (intro Suc.IH) simp_all
    then show ?thesis using False half dbl by (simp add: word_sless_alt algebra_simps)
  qed
qed

section \<open>Properties\<close>

text \<open>
  C40: the backoff delay is exactly the base delay doubled once per attempt and capped at the maximum;
  no attempt count makes the doubling overflow, so a delay is never negative nor above the cap.
\<close>

theorem backoff_closed_form:
  assumes "0 \<le> sint base"
  shows "sint (exponential n base cap) =
      (if sint cap \<le> sint base then sint cap else min (sint base * 2 ^ nat n) (sint cap))"
  using assms by (auto simp: exponential_def word_sle_eq doubling_value)

theorem backoff_closed_form_witness:
  "sint (exponential 1000 1000000000 60000000000) = 60000000000 \<and> sint (exponential 3 1000000000 60000000000) = 8000000000"
proof -
  have "sint (exponential 1000 1000000000 60000000000) = min (1000000000 * 2 ^ nat 1000) 60000000000"
    using backoff_closed_form [of 1000000000 1000 60000000000] by simp
  moreover have "(60000000000::int) \<le> 1000000000 * 2 ^ nat 1000"
  proof -
    have "(2::int) ^ 6 \<le> 2 ^ nat 1000" by (intro power_increasing) simp_all
    then show ?thesis by simp
  qed
  ultimately show ?thesis using backoff_closed_form [of 1000000000 3 60000000000] by simp
qed
end
