(* ===== verification/ReferenceWorker.thy ===== *)
theory ReferenceWorker
  imports ProcessOperation Backoff
begin

text \<open>
  The worker of \<open>internal/referenceworker/worker.go\<close> and its store
  \<open>internal/referenceworkerpg/store.go\<close>: claiming ready rows under a lease and resuming each. The
  polling loop repeats \<open>process_batch\<close> until it is stopped.
\<close>

section \<open>The store\<close>

record worker_record =
  rk_transaction_id :: string
  rk_wallet_id :: string
  rk_attempts :: int

text \<open>Rows locked by another session are skipped; \<open>NULL <= now()\<close> does not select a row.\<close>

definition ready_row :: "world \<Rightarrow> tx_row \<Rightarrow> bool" where
  "ready_row s r \<longleftrightarrow> tr_status r = PendingReference \<and>
     (case tr_next_attempt r of None \<Rightarrow> False | Some t \<Rightarrow> instant t \<le> instant (st_pg_now s)) \<and>
     \<not> List.member (st_locked s) (tr_id r)"

text \<open>\<open>ORDER BY next_attempt_at, created_at\<close>, by two stable sorts.\<close>

definition ready_ids :: "nat \<Rightarrow> world \<Rightarrow> string list" where
  "ready_ids batch s = map tr_id (take batch
     (sort_key (\<lambda>r. case tr_next_attempt r of None \<Rightarrow> 0 | Some t \<Rightarrow> instant t)
       (sort_key (\<lambda>r. instant (tr_created r)) (filter (ready_row s) (db_txs (st_db s))))))"

text \<open>\<open>RETURNING\<close> promises no order of its own; here the rows come in the order of the table.\<close>

definition sql_claim_pending :: "nat \<Rightarrow> int64 \<Rightarrow> world \<Rightarrow> pg_error + (db \<times> worker_record list)" where
  "sql_claim_pending batch lease s =
     (let d = st_db s; ids = ready_ids batch s;
          hit = (\<lambda>r. tr_status r = PendingReference \<and> List.member ids (tr_id r))
      in Inr (d\<lparr>db_txs := map (\<lambda>r. if hit r then r\<lparr>tr_next_attempt := Some (time_add (st_pg_now s) lease)\<rparr> else r)
                 (db_txs d)\<rparr>,
              map (\<lambda>r. \<lparr>rk_transaction_id = tr_id r, rk_wallet_id = tr_wallet r, rk_attempts = tr_attempts r\<rparr>)
                (filter hit (db_txs d))))"

definition worker_claim :: "nat \<Rightarrow> int64 \<Rightarrow> (app_error, worker_record list) tx" where
  "worker_claim batch lease = within_tx (execute (sql_claim_pending batch lease))"

definition worker_pending :: "(app_error, nat) tx" where
  "worker_pending = query (\<lambda>s. length (filter (\<lambda>r. tr_status r = PendingReference) (db_txs (st_db s))))"

section \<open>The worker\<close>

text \<open>\<open>wk_random\<close> is \<open>rand.Int64N\<close>, whose next value depends on the run.\<close>

record worker =
  wk_batch :: nat
  wk_lease :: int64
  wk_retry_base :: int64
  wk_retry_max :: int64
  wk_max_attempts :: int
  wk_random :: "world \<Rightarrow> int64 \<Rightarrow> int64"

definition jitter :: "int64 \<Rightarrow> (int64 \<Rightarrow> int64) \<Rightarrow> int64" where
  "jitter delay random = (if delay \<le>s 0 then delay else delay + random (int64_div delay 2 + 1))"

definition worker_jitter :: "worker \<Rightarrow> int64 \<Rightarrow> (app_error, int64) tx" where
  "worker_jitter w delay s = (Inr (jitter delay (wk_random w s)), s)"

definition is_transient :: "app_error \<Rightarrow> bool" where
  "is_transient e \<longleftrightarrow> e \<noteq> ErrInvalidPersistedTransaction \<and> e \<noteq> ErrCorruptedResultingBalance"

definition worker_permanent :: "app_error \<Rightarrow> bool" where
  "worker_permanent e \<longleftrightarrow> \<not> is_transient e"

definition worker_metrics :: "(app_error, unit) tx" where
  "worker_metrics = tryT worker_pending (\<lambda>r. case r of
     Inl _ \<Rightarrow> returnT () | Inr n \<Rightarrow> observe (Gauge ''pending_reference_active'' (int n)))"

text \<open>What follows a failed resumption.\<close>

definition after_failure :: "worker \<Rightarrow> worker_record \<Rightarrow> app_error \<Rightarrow> (app_error, bool) tx" where
  "after_failure w rec e =
     (let delay = exponential (rk_attempts rec) (wk_retry_base w) (wk_retry_max w);
          i = rk_transaction_id rec; wallet = rk_wallet_id rec in
      bindT ctx_err (\<lambda>stopped.
         if stopped then returnT False
         else if \<not> worker_permanent e then
           bindT (worker_jitter w delay) (\<lambda>failure_delay.
           tryT (reschedule_pending_after_failure i wallet failure_delay) (\<lambda>res'. case res' of
             Inl _ \<Rightarrow> returnT True
           | Inr _ \<Rightarrow> bindT (observe (Count ''pending_reference_retries_total'')) (\<lambda>_. returnT True)))
         else
           tryT (fail_pending i wallet) (\<lambda>res'. case res' of
             Inl _ \<Rightarrow> returnT True
           | Inr _ \<Rightarrow> bindT (observe (Count ''pending_reference_failures_total'')) (\<lambda>_. returnT True))))"

text \<open>One record; \<open>False\<close> stops the batch because the context was cancelled.\<close>

definition process_record :: "worker \<Rightarrow> worker_record \<Rightarrow> (app_error, bool) tx" where
  "process_record w rec =
     (let delay = exponential (rk_attempts rec) (wk_retry_base w) (wk_retry_max w) in
     bindT (worker_jitter w delay) (\<lambda>retry_delay.
     tryT (resume_pending (rk_transaction_id rec) (rk_wallet_id rec)
        \<lparr>rs_max_attempts = wk_max_attempts w, rs_retry_delay = retry_delay\<rparr>) (\<lambda>res.
     case res of
       Inl e \<Rightarrow> after_failure w rec e
     | Inr outcome \<Rightarrow>
         if outcome = PendingRescheduled
         then bindT (observe (Count ''pending_reference_retries_total'')) (\<lambda>_. returnT True)
         else returnT True)))"

fun process_records :: "worker \<Rightarrow> worker_record list \<Rightarrow> (app_error, unit) tx" where
  "process_records w [] = worker_metrics"
| "process_records w (r # rs) = bindT (process_record w r) (\<lambda>go. if go then process_records w rs else returnT ())"

definition process_batch :: "worker \<Rightarrow> (app_error, unit) tx" where
  "process_batch w = bindT (worker_claim (wk_batch w) (wk_lease w)) (\<lambda>claimed. process_records w claimed)"
end
