(* ===== verification/Ledger.thy ===== *)
theory Ledger
  imports Repositories
begin

text \<open>
  The abstract ledger: what one committed unit of work may do to the database, as a step relation,
  and the invariants every such step keeps. The use cases are shown to refine it in
  \<open>ProcessSteps\<close> and \<open>WalletSteps\<close>.
\<close>

section \<open>Audited balances\<close>

text \<open>Rows that lead from balance \<open>b\<close> to balance \<open>c\<close>, each starting where the one before it ended.\<close>

fun audited :: "int \<Rightarrow> ledger_row list \<Rightarrow> int \<Rightarrow> bool" where
  "audited b [] c = (b = c)"
| "audited b (r # rs) c = (ledger_checks r \<and> sint (lr_before r) = b \<and> audited (sint (lr_after r)) rs c)"

lemma audited_snoc:
  "audited b (rs @ [r]) c \<longleftrightarrow> audited b rs (sint (lr_before r)) \<and> ledger_checks r \<and> sint (lr_after r) = c"
  by (induction rs arbitrary: b) auto

lemma ledger_checks_effect: "ledger_checks r \<Longrightarrow> sint (lr_after r) = sint (lr_before r) + row_effect r"
  by (auto simp: ledger_checks_def row_effect_def)

lemma audited_sum: "audited b rs c \<Longrightarrow> c = b + (\<Sum>r\<leftarrow>rs. row_effect r)"
proof (induction rs arbitrary: b)
  case (Cons r rs)
  then have "c = sint (lr_after r) + (\<Sum>x\<leftarrow>rs. row_effect x)" by simp
  with Cons.prems show ?case by (simp add: ledger_checks_effect)
qed simp

section \<open>Invariants\<close>

definition books_ok :: "db \<Rightarrow> bool" where
  "books_ok d \<longleftrightarrow> distinct (map wr_id (db_wallets d)) \<and> (\<forall>e \<in> set (db_ledger d). has_wallet d (lr_wallet e)) \<and>
     (\<forall>w \<in> set (db_wallets d). wallet_checks w \<and> audited 0 (wallet_rows d (wr_id w)) (sint (wr_balance w)))"

text \<open>The unique indexes, pairwise over the table.\<close>

definition no_conflicts :: "tx_row list \<Rightarrow> bool" where
  "no_conflicts rs = sorted_wrt (\<lambda>r q. \<not> tx_conflict r q) rs"

definition txs_ok :: "db \<Rightarrow> bool" where
  "txs_ok d \<longleftrightarrow> no_conflicts (db_txs d) \<and> (\<forall>t \<in> set (db_txs d). tx_checks t \<and> has_wallet d (tr_wallet t))"

text \<open>Every entry belongs to a processed transaction of its wallet and amount, and the other way around.\<close>

definition entry_of :: "tx_row \<Rightarrow> ledger_row \<Rightarrow> bool" where
  "entry_of t e \<longleftrightarrow> lr_tx e = tr_id t \<and> lr_wallet e = tr_wallet t \<and> lr_amount e = tr_amount t"

definition moves_money :: "tx_row \<Rightarrow> bool" where
  "moves_money t \<longleftrightarrow> tr_status t = Processed \<and> tr_kind t \<noteq> Loss"

definition links_ok :: "db \<Rightarrow> bool" where
  "links_ok d \<longleftrightarrow>
     (\<forall>e \<in> set (db_ledger d). \<exists>t \<in> set (db_txs d). entry_of t e \<and> moves_money t) \<and>
     (\<forall>t \<in> set (db_txs d). moves_money t \<longrightarrow> (\<exists>e \<in> set (db_ledger d). entry_of t e))"

text \<open>The event that announces a transaction's state; a failed one has none.\<close>

definition announces :: "tx_row \<Rightarrow> outbox_row \<Rightarrow> bool" where
  "announces t o' \<longleftrightarrow> or_aggregate_id o' = tr_id t \<and>
     or_event_type o' = (if tr_status t = Processed then ProcessedEventType
       else if tr_status t = Rejected then RejectedEventType else PendingReferenceEventType)"

definition announced :: "db \<Rightarrow> tx_row \<Rightarrow> bool" where
  "announced d t \<longleftrightarrow> tr_status t = Failed \<or> (\<exists>o' \<in> set (db_outbox d). announces t o')"

definition events_ok :: "db \<Rightarrow> bool" where
  "events_ok d \<longleftrightarrow> (\<forall>t \<in> set (db_txs d). announced d t)"

text \<open>The unique keys of the other tables.\<close>

definition keys_ok :: "db \<Rightarrow> bool" where
  "keys_ok d \<longleftrightarrow> distinct (map (\<lambda>w. (wr_player w, wr_currency w)) (db_wallets d)) \<and>
     sorted_wrt (\<lambda>a b. \<not> ledger_conflict b a) (db_ledger d) \<and> distinct (map or_event_id (db_outbox d)) \<and>
     sorted_wrt (\<lambda>a b. \<not> inbox_conflict b a) (db_inbox d)"

text \<open>Every row of the outbox carries the JSON of an event of a wallet, under the event's own id.\<close>

definition event_row :: "outbox_row \<Rightarrow> bool" where
  "event_row o' \<longleftrightarrow> (\<exists>e. event_json e = Inr (or_payload o') \<and> ev_event_id (event_envelope_of e) = or_event_id o' \<and>
     event_wallet e \<noteq> '''')"

definition outbox_ok :: "db \<Rightarrow> bool" where
  "outbox_ok d \<longleftrightarrow> (\<forall>o' \<in> set (db_outbox d). event_row o')"

definition db_ok :: "db \<Rightarrow> bool" where
  "db_ok d \<longleftrightarrow> books_ok d \<and> txs_ok d \<and> links_ok d \<and> events_ok d \<and> keys_ok d \<and> outbox_ok d"

definition empty_db :: db where
  "empty_db = \<lparr>db_wallets = [], db_txs = [], db_ledger = [], db_outbox = [], db_inbox = []\<rparr>"

lemma empty_db_ok: "db_ok empty_db"
  by (simp add: db_ok_def books_ok_def txs_ok_def links_ok_def events_ok_def keys_ok_def outbox_ok_def empty_db_def no_conflicts_def)

section \<open>Steps\<close>

definition adds_wallet :: "db \<Rightarrow> wallet_row \<Rightarrow> db \<Rightarrow> bool" where
  "adds_wallet d w d' \<longleftrightarrow> wallet_checks w \<and> \<not> has_wallet d (wr_id w) \<and>
     (\<forall>r \<in> set (db_wallets d). \<not> (wr_player r = wr_player w \<and> wr_currency r = wr_currency w)) \<and>
     d' = d\<lparr>db_wallets := db_wallets d @ [w]\<rparr>"

definition adds_events :: "db \<Rightarrow> outbox_row list \<Rightarrow> db \<Rightarrow> bool" where
  "adds_events d es d' \<longleftrightarrow> distinct (map or_event_id es) \<and>
     or_event_id ` set es \<inter> or_event_id ` set (db_outbox d) = {} \<and>
     (\<forall>o' \<in> set es. event_row o' \<and> or_published o' = None) \<and> d' = d\<lparr>db_outbox := db_outbox d @ es\<rparr>"

text \<open>
  One movement: the entry starts at the balance of the wallet's row, and that row gets the balance
  the entry ends at and the next version.
\<close>

definition moves :: "db \<Rightarrow> ledger_row \<Rightarrow> db \<Rightarrow> bool" where
  "moves d e d' \<longleftrightarrow> (\<exists>d1 r w u. adds_entry d e d1 \<and> r \<in> set (db_wallets d) \<and> wr_id r = lr_wallet e \<and>
     wr_balance r = lr_before e \<and> minor_units (w_balance w) = lr_after e \<and> w_version w = wr_version r + 1 \<and>
     1 \<le> sint (w_version w) \<and> d' = set_balance (lr_wallet e) (wr_version r) w u d1)"

text \<open>The request a row records, which no update touches.\<close>

definition same_tx :: "tx_row \<Rightarrow> tx_row \<Rightarrow> bool" where
  "same_tx r q \<longleftrightarrow> tr_id q = tr_id r \<and> tr_external q = tr_external r \<and> tr_provider q = tr_provider r \<and>
     tr_key q = tr_key r \<and> tr_hash q = tr_hash r \<and> tr_wallet q = tr_wallet r \<and> tr_player q = tr_player r \<and>
     tr_round q = tr_round r \<and> tr_game q = tr_game r \<and> tr_kind q = tr_kind r \<and> tr_origin q = tr_origin r \<and>
     tr_amount q = tr_amount r \<and> tr_currency q = tr_currency r \<and> tr_ref_external q = tr_ref_external r \<and>
     tr_created q = tr_created r"

lemma same_tx_refl [simp]: "same_tx r r"
  by (simp add: same_tx_def)

lemma same_tx_trans: "same_tx a b \<Longrightarrow> same_tx b c \<Longrightarrow> same_tx a c"
  by (simp add: same_tx_def)

lemma same_tx_id: "same_tx r q \<Longrightarrow> tr_id q = tr_id r \<and> tr_wallet q = tr_wallet r"
  by (simp add: same_tx_def)

text \<open>What the publisher may do to the outbox, the worker's lease to the pending rows, the consumer to its inbox.\<close>

definition same_event :: "outbox_row \<Rightarrow> outbox_row \<Rightarrow> bool" where
  "same_event o' q \<longleftrightarrow> or_event_id q = or_event_id o' \<and> or_aggregate_type q = or_aggregate_type o' \<and>
     or_aggregate_id q = or_aggregate_id o' \<and> or_event_type q = or_event_type o' \<and>
     or_event_version q = or_event_version o' \<and> or_payload q = or_payload o' \<and> or_occurred q = or_occurred o'"

lemma same_event_refl [simp]: "same_event r r"
  by (simp add: same_event_def)

lemma same_event_trans: "same_event a b \<Longrightarrow> same_event b c \<Longrightarrow> same_event a c"
  by (simp add: same_event_def)

definition marks_events :: "db \<Rightarrow> (outbox_row \<Rightarrow> outbox_row) \<Rightarrow> db \<Rightarrow> bool" where
  "marks_events d f d' \<longleftrightarrow> (\<forall>o'. same_event o' (f o')) \<and> d' = d\<lparr>db_outbox := map f (db_outbox d)\<rparr>"

definition leases :: "db \<Rightarrow> (tx_row \<Rightarrow> gotime option) \<Rightarrow> db \<Rightarrow> bool" where
  "leases d g d' \<longleftrightarrow> (\<forall>r. tr_status r \<noteq> PendingReference \<longrightarrow> g r = tr_next_attempt r) \<and>
     d' = d\<lparr>db_txs := map (\<lambda>r. r\<lparr>tr_next_attempt := g r\<rparr>) (db_txs d)\<rparr>"

definition adds_message :: "db \<Rightarrow> inbox_row \<Rightarrow> db \<Rightarrow> bool" where
  "adds_message d m d' \<longleftrightarrow> inbox_checks m \<and> \<not> list_ex (inbox_conflict m) (db_inbox d) \<and>
     d' = d\<lparr>db_inbox := db_inbox d @ [m]\<rparr>"

definition completes_messages :: "db \<Rightarrow> (inbox_row \<Rightarrow> gotime option) \<Rightarrow> db \<Rightarrow> bool" where
  "completes_messages d g d' \<longleftrightarrow> d' = d\<lparr>db_inbox := map (\<lambda>m. m\<lparr>ir_completed := g m\<rparr>) (db_inbox d)\<rparr>"

inductive db_step :: "db \<Rightarrow> db \<Rightarrow> bool" where
  open_empty: "adds_wallet d w d' \<Longrightarrow> sint (wr_balance w) = 0 \<Longrightarrow> db_step d d'"
| open_funded: "adds_wallet d w d1 \<Longrightarrow> adds_tx d1 t d2 \<Longrightarrow> adds_entry d2 e d3 \<Longrightarrow> adds_events d3 os d' \<Longrightarrow>
     tr_kind t = Opening \<Longrightarrow> tr_status t = Processed \<Longrightarrow> entry_of t e \<Longrightarrow> lr_wallet e = wr_id w \<Longrightarrow>
     lr_before e = 0 \<Longrightarrow> lr_after e = wr_balance w \<Longrightarrow> \<exists>o' \<in> set os. announces t o' \<Longrightarrow> db_step d d'"
| recorded: "adds_tx d t d1 \<Longrightarrow> adds_events d1 os d' \<Longrightarrow> \<not> moves_money t \<Longrightarrow>
     \<exists>o' \<in> set os. announces t o' \<Longrightarrow> db_step d d'"
| processed: "adds_tx d t d1 \<Longrightarrow> moves d1 e d2 \<Longrightarrow> adds_events d2 os d' \<Longrightarrow> moves_money t \<Longrightarrow> entry_of t e \<Longrightarrow>
     \<exists>o' \<in> set os. announces t o' \<Longrightarrow> db_step d d'"
| settled: "sets_pending d i f d1 \<Longrightarrow> adds_events d1 os d' \<Longrightarrow>
     (\<And>r. r \<in> set (db_txs d) \<Longrightarrow> tr_id r = i \<Longrightarrow> tr_status r = PendingReference \<Longrightarrow>
        same_tx r (f r) \<and> \<not> moves_money (f r) \<and>
        (tr_status (f r) \<in> {PendingReference, Failed} \<or> (\<exists>o' \<in> set os. announces (f r) o'))) \<Longrightarrow>
     db_step d d'"
| settled_processed: "sets_pending d i f d1 \<Longrightarrow> moves d1 e d2 \<Longrightarrow> adds_events d2 os d' \<Longrightarrow>
     (\<And>r. r \<in> set (db_txs d) \<Longrightarrow> tr_id r = i \<Longrightarrow> tr_status r = PendingReference \<Longrightarrow>
        same_tx r (f r) \<and> moves_money (f r) \<and> entry_of (f r) e \<and>
        (\<exists>o' \<in> set os. announces (f r) o')) \<Longrightarrow>
     db_step d d'"
| leased: "leases d g d' \<Longrightarrow> db_step d d'"
| received: "adds_message d m d' \<Longrightarrow> db_step d d'"
| completed: "completes_messages d g d' \<Longrightarrow> db_step d d'"

text \<open>The publisher's steps beside those.\<close>

inductive ledger_step :: "db \<Rightarrow> db \<Rightarrow> bool" where
  business: "db_step d d' \<Longrightarrow> ledger_step d d'"
| marked: "marks_events d f d' \<Longrightarrow> ledger_step d d'"

inductive_simps ledger_step_iff: "ledger_step d d'"

section \<open>The books\<close>

lemma has_wallet_iff: "has_wallet d i \<longleftrightarrow> i \<in> set (map wr_id (db_wallets d))"
  by (auto simp: has_wallet_def list_ex_iff)

lemma adds_tx_books: "adds_tx d t d' \<Longrightarrow> books_ok d \<Longrightarrow> books_ok d'"
  by (auto simp: adds_tx_def books_ok_def has_wallet_iff wallet_rows_def)

lemma sets_pending_books: "sets_pending d i f d' \<Longrightarrow> books_ok d \<Longrightarrow> books_ok d'"
  by (auto simp: sets_pending_def books_ok_def has_wallet_iff wallet_rows_def)

lemma adds_events_books: "adds_events d es d' \<Longrightarrow> books_ok d' \<longleftrightarrow> books_ok d"
  by (simp add: adds_events_def books_ok_def has_wallet_def wallet_rows_def)

lemma no_rows_of_new_wallet: "books_ok d \<Longrightarrow> \<not> has_wallet d i \<Longrightarrow> wallet_rows d i = []"
  by (auto simp: books_ok_def wallet_rows_def filter_empty_conv)

lemma adds_wallet_books:
  assumes "adds_wallet d w d'" "books_ok d" "sint (wr_balance w) = 0"
  shows "books_ok d'"
  using assms no_rows_of_new_wallet [OF assms(2), of "wr_id w"]
  by (auto simp: adds_wallet_def books_ok_def has_wallet_iff wallet_rows_def)

lemma map_id_set_balance [simp]: "map wr_id (db_wallets (set_balance i v w u d)) = map wr_id (db_wallets d)"
  by (auto simp: set_balance_def)

lemma moves_books:
  assumes "moves d e d'" "books_ok d"
  shows "books_ok d'"
proof -
  obtain d1 r w u where m: "adds_entry d e d1" "r \<in> set (db_wallets d)" "wr_id r = lr_wallet e"
      "wr_balance r = lr_before e" "minor_units (w_balance w) = lr_after e" "w_version w = wr_version r + 1"
      "1 \<le> sint (w_version w)" "d' = set_balance (lr_wallet e) (wr_version r) w u d1"
    using assms(1) unfolding moves_def by blast
  have e: "ledger_checks e" "d1 = d\<lparr>db_ledger := db_ledger d @ [e]\<rparr>"
    using m(1) by (simp_all add: adds_entry_def)
  have same: "x = r" if "x \<in> set (db_wallets d)" "wr_id x = lr_wallet e" for x
    using assms(2) that m(2,3) by (metis books_ok_def distinct_map inj_on_contraD)
  have rows: "wallet_rows d' i = wallet_rows d i @ (if i = lr_wallet e then [e] else [])" for i
    by (simp add: m(8) e(2) wallet_rows_def set_balance_def)
  have audit: "audited 0 (wallet_rows d (lr_wallet e)) (sint (lr_before e))"
    using assms(2) m(2-4) by (auto simp: books_ok_def)
  have old: "wallet_checks x \<and> audited 0 (wallet_rows d (wr_id x)) (sint (wr_balance x))" if "x \<in> set (db_wallets d)" for x
    using assms(2) that by (simp add: books_ok_def)
  have "wallet_checks y \<and> audited 0 (wallet_rows d' (wr_id y)) (sint (wr_balance y))" if y: "y \<in> set (db_wallets d')" for y
  proof -
    obtain x where x: "x \<in> set (db_wallets d)"
      "y = (if wr_id x = lr_wallet e \<and> wr_version x = wr_version r
            then x\<lparr>wr_balance := minor_units (w_balance w), wr_version := w_version w, wr_updated := u\<rparr> else x)"
      using y by (auto simp: m(8) e(2) set_balance_def)
    show ?thesis
    proof (cases "wr_id x = lr_wallet e")
      case True
      then have "x = r" using same x(1) by blast
      then have "y = x\<lparr>wr_balance := lr_after e, wr_version := w_version w, wr_updated := u\<rparr>"
        using x(2) True m(5) by simp
      then show ?thesis using True m(7) e(1) audit
        by (simp add: rows audited_snoc wallet_checks_def) (simp add: ledger_checks_def)
    next
      case False
      then show ?thesis using x old by (simp add: rows)
    qed
  qed
  moreover have "distinct (map wr_id (db_wallets d'))"
    using assms(2) by (simp add: m(8) e(2) books_ok_def)
  moreover have "\<forall>x \<in> set (db_ledger d'). has_wallet d' (lr_wallet x)"
  proof
    fix x assume x: "x \<in> set (db_ledger d')"
    have ids: "has_wallet d' i \<longleftrightarrow> has_wallet d i" for i
      unfolding has_wallet_iff by (simp add: m(8) e(2) del: set_map)
    have "x = e \<or> x \<in> set (db_ledger d)" using x by (auto simp: m(8) e(2) set_balance_def)
    then have "has_wallet d (lr_wallet x)"
      using assms(2) m(1) by (auto simp: books_ok_def adds_entry_def)
    then show "has_wallet d' (lr_wallet x)" by (simp only: ids)
  qed
  ultimately show ?thesis by (simp add: books_ok_def)
qed

lemma open_funded_books:
  assumes "adds_wallet d w d1" "adds_tx d1 t d2" "adds_entry d2 e d3" "lr_wallet e = wr_id w"
    "lr_before e = 0" "lr_after e = wr_balance w" "books_ok d"
  shows "books_ok d3"
proof -
  have none: "wallet_rows d (wr_id w) = []"
    using assms(1,7) by (intro no_rows_of_new_wallet) (auto simp: adds_wallet_def)
  have d3: "db_wallets d3 = db_wallets d @ [w]" "db_ledger d3 = db_ledger d @ [e]" "ledger_checks e"
    "wallet_checks w" "wr_id w \<notin> set (map wr_id (db_wallets d))"
    using assms(1-3) by (auto simp: adds_wallet_def adds_tx_def adds_entry_def has_wallet_iff)
  have rows: "wallet_rows d3 i = wallet_rows d i @ (if i = wr_id w then [e] else [])" for i
    using assms(4) by (simp add: wallet_rows_def d3)
  show ?thesis unfolding books_ok_def
  proof (intro conjI ballI)
    show "distinct (map wr_id (db_wallets d3))" using assms(7) d3 by (simp add: books_ok_def)
    fix x assume "x \<in> set (db_ledger d3)"
    then show "has_wallet d3 (lr_wallet x)" using assms(4,7) d3 by (auto simp: books_ok_def has_wallet_iff)
  next
    fix x assume x: "x \<in> set (db_wallets d3)"
    then show "wallet_checks x" using assms(7) d3 by (auto simp: books_ok_def)
    show "audited 0 (wallet_rows d3 (wr_id x)) (sint (wr_balance x))"
    proof (cases "x = w")
      case True
      then show ?thesis using none d3(3) assms(5,6) by (simp add: rows)
    next
      case False
      then have "x \<in> set (db_wallets d)" using x d3(1) by auto
      moreover from this have "wr_id x \<noteq> wr_id w" using d3(5) by (metis in_set_conv_nth length_map nth_map nth_mem)
      ultimately show ?thesis using assms(7) by (simp add: rows books_ok_def)
    qed
  qed
qed

lemma books_ok_cong: "db_wallets d' = db_wallets d \<Longrightarrow> db_ledger d' = db_ledger d \<Longrightarrow> books_ok d \<Longrightarrow> books_ok d'"
  by (simp add: books_ok_def has_wallet_def wallet_rows_def)

lemmas aside_defs = marks_events_def leases_def adds_message_def completes_messages_def

lemma aside_books:
  "marks_events d f d' \<Longrightarrow> books_ok d \<Longrightarrow> books_ok d'" "leases d g d' \<Longrightarrow> books_ok d \<Longrightarrow> books_ok d'"
  "adds_message d m d' \<Longrightarrow> books_ok d \<Longrightarrow> books_ok d'" "completes_messages d h d' \<Longrightarrow> books_ok d \<Longrightarrow> books_ok d'"
  by (auto simp: aside_defs intro: books_ok_cong [of _ d])

lemma db_step_books: "db_step d d' \<Longrightarrow> books_ok d \<Longrightarrow> books_ok d'"
  by (induction rule: db_step.induct)
     (auto dest: adds_wallet_books open_funded_books adds_tx_books sets_pending_books moves_books aside_books
           simp: adds_events_books)

section \<open>The other invariants\<close>

lemma same_key_sym: "same_key x y \<Longrightarrow> same_key y x"
  by (auto simp: same_key_def)

lemma tx_conflict_flip: "tx_conflict a b \<Longrightarrow> tx_conflict b a"
  unfolding tx_conflict_def
  by (elim disjE conjE) (simp_all add: same_key_sym)

lemma tx_conflict_sym: "tx_conflict a b \<longleftrightarrow> tx_conflict b a"
  using tx_conflict_flip by blast

lemma adds_tx_txs:
  assumes "adds_tx d t d'" "txs_ok d" shows "txs_ok d'"
proof -
  have t: "tx_checks t" "has_wallet d (tr_wallet t)" "db_txs d' = db_txs d @ [t]" "db_wallets d' = db_wallets d"
    and no: "\<forall>q \<in> set (db_txs d). \<not> tx_conflict t q"
    using assms(1) by (simp_all add: adds_tx_def tx_references_ok_def list_ex_iff)
  have "\<forall>q \<in> set (db_txs d). \<not> tx_conflict q t"
    using no by (metis tx_conflict_sym)
  then show ?thesis using assms(2) t
    by (simp add: txs_ok_def no_conflicts_def sorted_wrt_append has_wallet_def)
qed

lemma sets_pending_txs:
  assumes "sets_pending d i f d'" "txs_ok d"
    and "\<And>r. r \<in> set (db_txs d) \<Longrightarrow> tr_id r = i \<Longrightarrow> tr_status r = PendingReference \<Longrightarrow> tr_wallet (f r) = tr_wallet r"
  shows "txs_ok d'"
proof -
  let ?hit = "\<lambda>r. tr_id r = i \<and> tr_status r = PendingReference"
  have "sorted_wrt (\<lambda>r q. \<not> tx_conflict (if ?hit r then f r else r) (if ?hit q then f q else q)) (db_txs d)"
  proof (rule sorted_wrt_mono_rel [of _ "\<lambda>r q. \<not> tx_conflict r q"])
    show "sorted_wrt (\<lambda>r q. \<not> tx_conflict r q) (db_txs d)"
      using assms(2) by (simp add: txs_ok_def no_conflicts_def)
    fix x y assume xy: "x \<in> set (db_txs d)" "y \<in> set (db_txs d)" "\<not> tx_conflict x y"
    then have "tr_id x \<noteq> tr_id y" by (simp add: tx_conflict_def)
    moreover have "\<not> tx_conflict (f x) y" if "?hit x" "tr_id y \<noteq> i"
      using assms(1) xy that by (auto simp: sets_pending_def)
    moreover have "\<not> tx_conflict x (f y)" if "?hit y" "tr_id x \<noteq> i"
      using assms(1) xy that tx_conflict_sym [of x "f y"] by (auto simp: sets_pending_def)
    ultimately show "\<not> tx_conflict (if ?hit x then f x else x) (if ?hit y then f y else y)"
      using xy(3) by auto
  qed
  then show ?thesis using assms
    by (auto simp: txs_ok_def no_conflicts_def sets_pending_def sorted_wrt_map has_wallet_def)
qed

lemma moves_fields: "moves d e d' \<Longrightarrow> db_txs d' = db_txs d \<and> db_outbox d' = db_outbox d \<and>
    db_ledger d' = db_ledger d @ [e] \<and> (\<forall>i. has_wallet d' i = has_wallet d i)"
proof -
  assume "moves d e d'"
  then obtain v w u d1 where m: "adds_entry d e d1" "d' = set_balance (lr_wallet e) v w u d1"
    unfolding moves_def by blast
  have "has_wallet d' i = has_wallet d i" for i
    unfolding has_wallet_iff using m by (simp add: adds_entry_def del: set_map)
  with m show ?thesis by (simp add: adds_entry_def set_balance_def)
qed

lemma adds_entry_fields: "adds_entry d e d' \<Longrightarrow> db_txs d' = db_txs d \<and> db_outbox d' = db_outbox d \<and>
    db_ledger d' = db_ledger d @ [e] \<and> db_wallets d' = db_wallets d"
  by (simp add: adds_entry_def)

lemma adds_wallet_fields: "adds_wallet d w d' \<Longrightarrow> db_txs d' = db_txs d \<and> db_outbox d' = db_outbox d \<and>
    db_ledger d' = db_ledger d \<and> db_wallets d' = db_wallets d @ [w]"
  by (simp add: adds_wallet_def)

lemma adds_tx_fields: "adds_tx d t d' \<Longrightarrow> db_txs d' = db_txs d @ [t] \<and> db_outbox d' = db_outbox d \<and>
    db_ledger d' = db_ledger d \<and> db_wallets d' = db_wallets d"
  by (simp add: adds_tx_def)

lemma marks_events_fields: "marks_events d f d' \<Longrightarrow> db_txs d' = db_txs d \<and> db_outbox d' = map f (db_outbox d) \<and>
    db_ledger d' = db_ledger d \<and> db_wallets d' = db_wallets d \<and> db_inbox d' = db_inbox d"
  by (simp add: marks_events_def)

lemma leases_fields: "leases d g d' \<Longrightarrow> db_txs d' = map (\<lambda>r. r\<lparr>tr_next_attempt := g r\<rparr>) (db_txs d) \<and>
    db_outbox d' = db_outbox d \<and> db_ledger d' = db_ledger d \<and> db_wallets d' = db_wallets d \<and> db_inbox d' = db_inbox d"
  by (simp add: leases_def)

lemma message_fields:
  "adds_message d m d' \<Longrightarrow> db_txs d' = db_txs d \<and> db_outbox d' = db_outbox d \<and> db_ledger d' = db_ledger d \<and>
     db_wallets d' = db_wallets d"
  "completes_messages d h d' \<Longrightarrow> db_txs d' = db_txs d \<and> db_outbox d' = db_outbox d \<and> db_ledger d' = db_ledger d \<and>
     db_wallets d' = db_wallets d"
  by (simp_all add: adds_message_def completes_messages_def)

lemma adds_events_fields: "adds_events d es d' \<Longrightarrow> db_txs d' = db_txs d \<and> db_outbox d' = db_outbox d @ es \<and>
    db_ledger d' = db_ledger d \<and> db_wallets d' = db_wallets d"
  by (simp add: adds_events_def)

lemma sets_pending_fields: "sets_pending d i f d' \<Longrightarrow> db_outbox d' = db_outbox d \<and>
    db_ledger d' = db_ledger d \<and> db_wallets d' = db_wallets d \<and>
    db_txs d' = map (\<lambda>r. if tr_id r = i \<and> tr_status r = PendingReference then f r else r) (db_txs d)"
  by (simp add: sets_pending_def)

lemmas step_fields = moves_fields adds_entry_fields adds_wallet_fields adds_tx_fields adds_events_fields
  sets_pending_fields marks_events_fields leases_fields message_fields

lemma txs_ok_cong: "db_txs d' = db_txs d \<Longrightarrow> (\<And>i. has_wallet d i \<Longrightarrow> has_wallet d' i) \<Longrightarrow> txs_ok d \<Longrightarrow> txs_ok d'"
  by (simp add: txs_ok_def)

text \<open>A lease leaves everything a row is looked at for.\<close>

lemma lease_row [simp]:
  "tx_conflict (r\<lparr>tr_next_attempt := x\<rparr>) (q\<lparr>tr_next_attempt := y\<rparr>) = tx_conflict r q"
  "tx_checks (r\<lparr>tr_next_attempt := x\<rparr>) = tx_checks r"
  "moves_money (r\<lparr>tr_next_attempt := x\<rparr>) = moves_money r" "entry_of (r\<lparr>tr_next_attempt := x\<rparr>) e = entry_of r e"
  "announces (r\<lparr>tr_next_attempt := x\<rparr>) o' = announces r o'" "same_tx r (r\<lparr>tr_next_attempt := x\<rparr>)"
  by (simp_all add: tx_conflict_def is_opening_row_def is_reversal_row_def tx_checks_def tx_origin_check_def
      tx_balance_check_def tx_amount_check_def moves_money_def entry_of_def announces_def same_tx_def)

lemma aside_txs:
  "marks_events d f d' \<Longrightarrow> txs_ok d \<Longrightarrow> txs_ok d'" "leases d g d' \<Longrightarrow> txs_ok d \<Longrightarrow> txs_ok d'"
  "adds_message d m d' \<Longrightarrow> txs_ok d \<Longrightarrow> txs_ok d'" "completes_messages d h d' \<Longrightarrow> txs_ok d \<Longrightarrow> txs_ok d'"
  by (auto simp: aside_defs txs_ok_def no_conflicts_def sorted_wrt_map has_wallet_def)

lemma db_step_txs: "db_step d d' \<Longrightarrow> txs_ok d \<Longrightarrow> txs_ok d'"
proof (induction rule: db_step.induct)
  case (open_empty d w d')
  then show ?case by (auto intro!: txs_ok_cong [of d' d] dest!: adds_wallet_fields simp: has_wallet_def)
next
  case (open_funded d w d1 t d2 e d3 os d')
  have "txs_ok d1" by (rule txs_ok_cong [OF _ _ open_funded.prems])
    (use adds_wallet_fields [OF open_funded.hyps(1)] in \<open>auto simp: has_wallet_def\<close>)
  then have "txs_ok d2" by (rule adds_tx_txs [OF open_funded.hyps(2)])
  then show ?case by (rule txs_ok_cong [rotated 2])
    (use adds_entry_fields [OF open_funded.hyps(3)] adds_events_fields [OF open_funded.hyps(4)] in
      \<open>auto simp: has_wallet_def\<close>)
next
  case (recorded d t d1 os d')
  from adds_tx_txs [OF recorded.hyps(1) recorded.prems] show ?case
    by (rule txs_ok_cong [rotated 2]) (use adds_events_fields [OF recorded.hyps(2)] in \<open>auto simp: has_wallet_def\<close>)
next
  case (processed d t d1 e d2 os d')
  from adds_tx_txs [OF processed.hyps(1) processed.prems] show ?case
    by (rule txs_ok_cong [rotated 2])
      (use adds_events_fields [OF processed.hyps(3)] moves_fields [OF processed.hyps(2)] in \<open>auto simp: has_wallet_def\<close>)
next
  case (settled d i f d1 os d')
  have "txs_ok d1" by (rule sets_pending_txs [OF settled.hyps(1) settled.prems]) (use settled.hyps(3) same_tx_id in blast)
  then show ?case
    by (rule txs_ok_cong [rotated 2]) (use adds_events_fields [OF settled.hyps(2)] in \<open>auto simp: has_wallet_def\<close>)
next
  case (settled_processed d i f d1 e d2 os d')
  have "txs_ok d1"
    by (rule sets_pending_txs [OF settled_processed.hyps(1) settled_processed.prems]) (use settled_processed.hyps(4) same_tx_id in blast)
  then show ?case
    by (rule txs_ok_cong [rotated 2])
      (use adds_events_fields [OF settled_processed.hyps(3)] moves_fields [OF settled_processed.hyps(2)] in
        \<open>auto simp: has_wallet_def\<close>)
qed (rule aside_txs; assumption)+

text \<open>What a step does to the three tables the links are about.\<close>


lemma settled_row_cases:
  assumes "sets_pending d i f d'" "t \<in> set (db_txs d')"
  obtains "t \<in> set (db_txs d)" | r where "r \<in> set (db_txs d)" "tr_id r = i" "tr_status r = PendingReference" "t = f r"
  using assms by (auto simp: sets_pending_def split: if_splits)

lemma moves_money_kept:
  assumes "sets_pending d i f d'" "t \<in> set (db_txs d)" "tr_status t \<noteq> PendingReference"
  shows "t \<in> set (db_txs d')"
  using assms by (auto simp: sets_pending_def)

lemma aside_links:
  "marks_events d f d' \<Longrightarrow> links_ok d \<Longrightarrow> links_ok d'" "leases d g d' \<Longrightarrow> links_ok d \<Longrightarrow> links_ok d'"
  "adds_message d m d' \<Longrightarrow> links_ok d \<Longrightarrow> links_ok d'" "completes_messages d h d' \<Longrightarrow> links_ok d \<Longrightarrow> links_ok d'"
  by (auto simp: aside_defs links_ok_def)

lemma db_step_links: "db_step d d' \<Longrightarrow> links_ok d \<Longrightarrow> links_ok d'"
proof (induction rule: db_step.induct)
  case (open_empty d w d')
  then show ?case by (auto simp: links_ok_def dest!: adds_wallet_fields)
next
  case (open_funded d w d1 t d2 e d3 os d')
  then have "db_txs d' = db_txs d @ [t]" "db_ledger d' = db_ledger d @ [e]" "moves_money t"
    by (auto dest!: step_fields simp: moves_money_def)
  with open_funded.prems open_funded.hyps(7) show ?case by (auto simp: links_ok_def)
next
  case (recorded d t d1 os d')
  then have "db_txs d' = db_txs d @ [t]" "db_ledger d' = db_ledger d" by (auto dest!: step_fields)
  with recorded.prems recorded.hyps(3) show ?case by (auto simp: links_ok_def)
next
  case (processed d t d1 e d2 os d')
  then have "db_txs d' = db_txs d @ [t]" "db_ledger d' = db_ledger d @ [e]" by (auto dest!: step_fields)
  with processed.prems processed.hyps(4,5) show ?case by (auto simp: links_ok_def)
next
  case (settled d i f d1 os d')
  have f: "db_txs d' = db_txs d1" "db_ledger d' = db_ledger d"
    using settled.hyps(1,2) by (auto dest!: step_fields)
  have "\<exists>t \<in> set (db_txs d1). entry_of t e \<and> moves_money t" if "e \<in> set (db_ledger d)" for e
    using settled.prems that moves_money_kept [OF settled.hyps(1)] by (fastforce simp: links_ok_def moves_money_def)
  moreover have "\<exists>e \<in> set (db_ledger d). entry_of t e" if "t \<in> set (db_txs d1)" "moves_money t" for t
    using settled.hyps(1) that(1)
  proof (rule settled_row_cases)
    show ?thesis if "t \<in> set (db_txs d)" using settled.prems that \<open>moves_money t\<close> by (simp add: links_ok_def)
    show ?thesis if "r \<in> set (db_txs d)" "tr_id r = i" "tr_status r = PendingReference" "t = f r" for r
      using settled.hyps(3) [OF that(1-3)] that(4) \<open>moves_money t\<close> by blast
  qed
  ultimately show ?case by (simp add: links_ok_def f)
next
  case (settled_processed d i f d1 e d2 os d')
  have f: "db_txs d' = db_txs d1" "db_ledger d' = db_ledger d @ [e]"
    using settled_processed.hyps(1-3) by (auto dest!: step_fields)
  obtain r where r: "r \<in> set (db_txs d)" "tr_id r = i" "tr_status r = PendingReference"
    using settled_processed.hyps(1) unfolding sets_pending_def by blast
  then have "f r \<in> set (db_txs d1)" using settled_processed.hyps(1) by (auto simp: sets_pending_def)
  then have "\<exists>t \<in> set (db_txs d1). entry_of t e \<and> moves_money t"
    using settled_processed.hyps(4) [OF r] by blast
  moreover have "\<exists>t \<in> set (db_txs d1). entry_of t x \<and> moves_money t" if "x \<in> set (db_ledger d)" for x
    using settled_processed.prems that moves_money_kept [OF settled_processed.hyps(1)]
    by (fastforce simp: links_ok_def moves_money_def)
  moreover have "\<exists>x \<in> set (db_ledger d @ [e]). entry_of t x" if "t \<in> set (db_txs d1)" "moves_money t" for t
    using settled_processed.hyps(1) that(1)
  proof (rule settled_row_cases)
    show ?thesis if "t \<in> set (db_txs d)"
      using settled_processed.prems that \<open>moves_money t\<close> by (fastforce simp: links_ok_def)
    show ?thesis if "q \<in> set (db_txs d)" "tr_id q = i" "tr_status q = PendingReference" "t = f q" for q
      using settled_processed.hyps(4) [OF that(1-3)] that(4) by auto
  qed
  ultimately show ?case by (auto simp: links_ok_def f)
qed (rule aside_links; assumption)+

lemma announced_mono: "announced d t \<Longrightarrow> set (db_outbox d) \<subseteq> set (db_outbox d') \<Longrightarrow> announced d' t"
  by (auto simp: announced_def)

lemma announces_marked [simp]: "\<forall>o'. same_event o' (f o') \<Longrightarrow> announces t (f o') = announces t o'"
  by (simp add: announces_def same_event_def)

lemma aside_events:
  "marks_events d f d' \<Longrightarrow> events_ok d \<Longrightarrow> events_ok d'" "leases d g d' \<Longrightarrow> events_ok d \<Longrightarrow> events_ok d'"
  "adds_message d m d' \<Longrightarrow> events_ok d \<Longrightarrow> events_ok d'" "completes_messages d h d' \<Longrightarrow> events_ok d \<Longrightarrow> events_ok d'"
  by (auto simp: aside_defs events_ok_def announced_def)

text \<open>The unique keys.\<close>

lemma adds_entry_keys: "adds_entry d e d' \<Longrightarrow> keys_ok d \<Longrightarrow> keys_ok d'"
  by (simp add: adds_entry_def keys_ok_def sorted_wrt_append list_ex_iff)

lemma set_balance_keys [simp]: "keys_ok (set_balance i v w u d) = keys_ok d"
proof -
  have "map (\<lambda>x. (wr_player x, wr_currency x)) (db_wallets (set_balance i v w u d)) =
      map (\<lambda>x. (wr_player x, wr_currency x)) (db_wallets d)"
    by (auto simp: set_balance_def)
  then show ?thesis by (simp only: keys_ok_def) (simp add: set_balance_def)
qed

lemma moves_keys: "moves d e d' \<Longrightarrow> keys_ok d \<Longrightarrow> keys_ok d'"
  using adds_entry_keys by (auto simp: moves_def)

lemma adds_keys:
  "adds_wallet d w d' \<Longrightarrow> keys_ok d \<Longrightarrow> keys_ok d'" "adds_tx d t d' \<Longrightarrow> keys_ok d \<Longrightarrow> keys_ok d'"
  "sets_pending d i g d' \<Longrightarrow> keys_ok d \<Longrightarrow> keys_ok d'" "adds_events d es d' \<Longrightarrow> keys_ok d \<Longrightarrow> keys_ok d'"
  by (auto simp: adds_wallet_def adds_tx_def sets_pending_def adds_events_def keys_ok_def)

lemma aside_keys:
  "marks_events d f d' \<Longrightarrow> keys_ok d \<Longrightarrow> keys_ok d'" "leases d g d' \<Longrightarrow> keys_ok d \<Longrightarrow> keys_ok d'"
  "adds_message d m d' \<Longrightarrow> keys_ok d \<Longrightarrow> keys_ok d'" "completes_messages d h d' \<Longrightarrow> keys_ok d \<Longrightarrow> keys_ok d'"
  by (auto simp: aside_defs keys_ok_def same_event_def comp_def sorted_wrt_append sorted_wrt_map list_ex_iff
      inbox_conflict_def)

lemma db_step_keys: "db_step d d' \<Longrightarrow> keys_ok d \<Longrightarrow> keys_ok d'"
  by (induction rule: db_step.induct)
     (assumption | erule adds_keys aside_keys moves_keys adds_entry_keys)+

lemma db_step_events: "db_step d d' \<Longrightarrow> events_ok d \<Longrightarrow> events_ok d'"
proof (induction rule: db_step.induct)
  case (open_empty d w d')
  then show ?case by (auto simp: events_ok_def announced_def dest!: adds_wallet_fields)
next
  case (open_funded d w d1 t d2 e d3 os d')
  then have "db_txs d' = db_txs d @ [t]" "db_outbox d' = db_outbox d @ os" by (auto dest!: step_fields)
  with open_funded.prems open_funded.hyps(11) show ?case by (fastforce simp: events_ok_def announced_def)
next
  case (recorded d t d1 os d')
  then have "db_txs d' = db_txs d @ [t]" "db_outbox d' = db_outbox d @ os" by (auto dest!: step_fields)
  with recorded.prems recorded.hyps(4) show ?case by (fastforce simp: events_ok_def announced_def)
next
  case (processed d t d1 e d2 os d')
  then have "db_txs d' = db_txs d @ [t]" "db_outbox d' = db_outbox d @ os" by (auto dest!: step_fields)
  with processed.prems processed.hyps(6) show ?case by (fastforce simp: events_ok_def announced_def)
next
  case (settled d i f d1 os d')
  have f: "db_txs d' = db_txs d1" "db_outbox d' = db_outbox d @ os"
    using settled.hyps(1,2) by (auto dest!: step_fields)
  have "announced d' t" if "t \<in> set (db_txs d1)" for t
    using settled.hyps(1) that
  proof (rule settled_row_cases)
    show ?thesis if "t \<in> set (db_txs d)"
      using settled.prems that announced_mono [of d t d'] by (simp add: events_ok_def f)
    show ?thesis if r: "r \<in> set (db_txs d)" "tr_id r = i" "tr_status r = PendingReference" "t = f r" for r
    proof -
      have "announced d r" using settled.prems r(1) by (simp add: events_ok_def)
      then have old: "\<exists>o' \<in> set (db_outbox d). announces r o'" using r(3) by (simp add: announced_def)
      have "tr_status t = PendingReference \<Longrightarrow> \<forall>o'. announces r o' \<longrightarrow> announces t o'"
        using settled.hyps(3) [OF r(1-3)] r by (simp add: announces_def same_tx_def)
      then show ?thesis using settled.hyps(3) [OF r(1-3)] old r(4) by (auto simp: announced_def f)
    qed
  qed
  then show ?case by (simp add: events_ok_def f)
next
  case (settled_processed d i f d1 e d2 os d')
  have f: "db_txs d' = db_txs d1" "db_outbox d' = db_outbox d @ os"
    using settled_processed.hyps(1-3) by (auto dest!: step_fields)
  have "announced d' t" if "t \<in> set (db_txs d1)" for t
    using settled_processed.hyps(1) that
  proof (rule settled_row_cases)
    show ?thesis if "t \<in> set (db_txs d)"
      using settled_processed.prems that announced_mono [of d t d'] by (simp add: events_ok_def f)
    show ?thesis if r: "r \<in> set (db_txs d)" "tr_id r = i" "tr_status r = PendingReference" "t = f r" for r
      using settled_processed.hyps(4) [OF r(1-3)] r(4) by (auto simp: announced_def f)
  qed
  then show ?case by (simp add: events_ok_def f)
qed (rule aside_events; assumption)+

text \<open>The outbox only gets unpublished events, and no step of the ledger touches the ones it has.\<close>

lemma message_outbox:
  "adds_message d m d' \<Longrightarrow> db_outbox d' = db_outbox d" "completes_messages d h d' \<Longrightarrow> db_outbox d' = db_outbox d"
  "leases d g d' \<Longrightarrow> db_outbox d' = db_outbox d"
  by (simp_all add: aside_defs)

lemma adds_events_fresh: "adds_events d es d' \<Longrightarrow> db_outbox d' = db_outbox d @ es \<and> (\<forall>o' \<in> set es. event_row o' \<and> or_published o' = None)"
  by (simp add: adds_events_def)

lemmas outbox_fields = moves_fields adds_entry_fields adds_wallet_fields adds_tx_fields sets_pending_fields adds_events_fresh

lemma db_step_outbox:
  "db_step d d' \<Longrightarrow> \<exists>os. db_outbox d' = db_outbox d @ os \<and> (\<forall>o' \<in> set os. event_row o' \<and> or_published o' = None)"
proof (induction rule: db_step.induct)
  case (open_funded d w d1 t d2 e d3 os d')
  then show ?case by (intro exI [of _ os]) (auto dest!: outbox_fields)
next
  case (recorded d t d1 os d')
  then show ?case by (intro exI [of _ os]) (auto dest!: outbox_fields)
next
  case (processed d t d1 e d2 os d')
  then show ?case by (intro exI [of _ os]) (auto dest!: outbox_fields)
next
  case (settled d i f d1 os d')
  then show ?case by (intro exI [of _ os]) (auto dest!: outbox_fields)
next
  case (settled_processed d i f d1 e d2 os d')
  then show ?case by (intro exI [of _ os]) (auto dest!: outbox_fields)
qed (auto dest!: adds_wallet_fields message_outbox)

lemma db_step_payloads: "db_step d d' \<Longrightarrow> outbox_ok d \<Longrightarrow> outbox_ok d'"
  using db_step_outbox by (fastforce simp: outbox_ok_def)

lemma marks_payloads: "marks_events d f d' \<Longrightarrow> outbox_ok d \<Longrightarrow> outbox_ok d'"
  by (simp add: outbox_ok_def marks_events_def event_row_def same_event_def)

lemma db_step_ok: "db_step d d' \<Longrightarrow> db_ok d \<Longrightarrow> db_ok d'"
  by (simp add: db_ok_def db_step_books db_step_txs db_step_links db_step_events db_step_keys db_step_payloads)

lemma marks_ok: "marks_events d f d' \<Longrightarrow> db_ok d \<Longrightarrow> db_ok d'"
  by (simp add: db_ok_def aside_books(1) aside_txs(1) aside_links(1) aside_events(1) aside_keys(1) marks_payloads)

lemma ledger_step_ok: "ledger_step d d' \<Longrightarrow> db_ok d \<Longrightarrow> db_ok d'"
  by (auto simp: ledger_step_iff intro: db_step_ok marks_ok)

lemma db_steps_ok: "db_step\<^sup>*\<^sup>* d d' \<Longrightarrow> db_ok d \<Longrightarrow> db_ok d'"
  by (induction rule: rtranclp_induct) (simp_all add: db_step_ok)

section \<open>What never changes\<close>

text \<open>
  The ledger and the outbox are append-only, every transaction keeps its request, and a terminal
  one's row stays as it is.
\<close>

definition preserved :: "db \<Rightarrow> db \<Rightarrow> bool" where
  "preserved d d' \<longleftrightarrow> (\<exists>es. db_ledger d' = db_ledger d @ es) \<and>
     (\<forall>t \<in> set (db_txs d). \<exists>t' \<in> set (db_txs d'). same_tx t t' \<and> (is_terminal (tr_status t) \<longrightarrow> t' = t)) \<and>
     (\<forall>o' \<in> set (db_outbox d). \<exists>q \<in> set (db_outbox d'). same_event o' q) \<and>
     (\<forall>i. has_wallet d i \<longrightarrow> has_wallet d' i)"

lemma kept:
  "t \<in> A \<Longrightarrow> \<exists>t' \<in> A. same_tx t t' \<and> (P \<longrightarrow> t' = t)" "o' \<in> B \<Longrightarrow> \<exists>q \<in> B. same_event o' q"
  using same_tx_refl same_event_refl by blast+

lemma preserved_refl [simp]: "preserved d d"
  unfolding preserved_def using same_tx_refl same_event_refl by blast

lemma preserved_trans:
  assumes "preserved a b" "preserved b c"
  shows "preserved a c"
proof -
  have "\<exists>t' \<in> set (db_txs c). same_tx t t' \<and> (is_terminal (tr_status t) \<longrightarrow> t' = t)" if "t \<in> set (db_txs a)" for t
  proof -
    obtain u where u: "u \<in> set (db_txs b)" "same_tx t u" "is_terminal (tr_status t) \<longrightarrow> u = t"
      using assms(1) \<open>t \<in> set (db_txs a)\<close> unfolding preserved_def by blast
    obtain v where "v \<in> set (db_txs c)" "same_tx u v" "is_terminal (tr_status u) \<longrightarrow> v = u"
      using assms(2) u(1) unfolding preserved_def by blast
    then show ?thesis using u same_tx_trans by (intro bexI [of _ v]) auto
  qed
  moreover have "\<exists>q \<in> set (db_outbox c). same_event o' q" if "o' \<in> set (db_outbox a)" for o'
  proof -
    obtain u where "u \<in> set (db_outbox b)" "same_event o' u"
      using assms(1) \<open>o' \<in> set (db_outbox a)\<close> unfolding preserved_def by blast
    moreover from this obtain v where "v \<in> set (db_outbox c)" "same_event u v"
      using assms(2) unfolding preserved_def by blast
    ultimately show ?thesis using same_event_trans by (intro bexI [of _ v]) auto
  qed
  ultimately show ?thesis using assms by (auto simp: preserved_def)
qed

lemma preserved_appends:
  "db_txs d' = db_txs d @ ts \<Longrightarrow> db_ledger d' = db_ledger d @ es \<Longrightarrow> db_outbox d' = db_outbox d @ os \<Longrightarrow>
     (\<And>i. has_wallet d i \<Longrightarrow> has_wallet d' i) \<Longrightarrow> preserved d d'"
  unfolding preserved_def using same_tx_refl same_event_refl by fastforce

lemma preserved_settles:
  assumes "sets_pending d i f d1" "db_txs d' = db_txs d1" "db_ledger d' = db_ledger d @ es"
    "db_outbox d' = db_outbox d @ os" "\<And>i. has_wallet d i \<Longrightarrow> has_wallet d' i"
    and f: "\<And>r. r \<in> set (db_txs d) \<Longrightarrow> tr_id r = i \<Longrightarrow> tr_status r = PendingReference \<Longrightarrow> same_tx r (f r)"
  shows "preserved d d'"
proof -
  have "\<exists>t' \<in> set (db_txs d'). same_tx t t' \<and> (is_terminal (tr_status t) \<longrightarrow> t' = t)" if t: "t \<in> set (db_txs d)" for t
  proof (cases "tr_status t = PendingReference")
    case True
    let ?t = "if tr_id t = i \<and> tr_status t = PendingReference then f t else t"
    have "?t \<in> set (db_txs d')" using sets_pending_fields [OF assms(1)] assms(2) t by auto
    moreover have "same_tx t ?t" using f t by simp
    ultimately show ?thesis using True by (intro bexI [of _ ?t]) (auto simp: is_terminal_def)
  next
    case False
    then show ?thesis using moves_money_kept [OF assms(1) t] assms(2) by (intro bexI [of _ t]) auto
  qed
  then show ?thesis using assms(3-5) by (auto simp: preserved_def intro: kept UnI1)
qed

lemma aside_preserved:
  "marks_events d f d' \<Longrightarrow> preserved d d'" "leases d g d' \<Longrightarrow> preserved d d'"
  "adds_message d m d' \<Longrightarrow> preserved d d'" "completes_messages d h d' \<Longrightarrow> preserved d d'"
proof -
  show "preserved d d'" if "leases d g d'"
    using that by (auto simp: leases_def preserved_def has_wallet_def is_terminal_def intro!: bexI)
qed (auto simp: aside_defs preserved_def has_wallet_def intro: kept)

lemma db_step_preserved: "db_step d d' \<Longrightarrow> preserved d d'"
proof (induction rule: db_step.induct)
  case (open_empty d w d')
  then show ?case
    by (intro preserved_appends [of _ _ "[]" "[]" "[]"]) (auto dest!: adds_wallet_fields simp: has_wallet_def)
next
  case (open_funded d w d1 t d2 e d3 os d')
  then show ?case
    by (intro preserved_appends [of _ _ "[t]" "[e]" os]) (auto dest!: step_fields simp: has_wallet_def)
next
  case (recorded d t d1 os d')
  then show ?case
    by (intro preserved_appends [of _ _ "[t]" "[]" os]) (auto dest!: step_fields simp: has_wallet_def)
next
  case (processed d t d1 e d2 os d')
  then show ?case
    by (intro preserved_appends [of _ _ "[t]" "[e]" os]) (auto dest!: step_fields simp: has_wallet_def)
next
  case (settled d i f d1 os d')
  from settled.hyps(1) show ?case
    by (rule preserved_settles [of _ _ _ _ _ "[]" os])
      (use settled.hyps(1,2) in \<open>auto dest!: step_fields simp: has_wallet_def\<close>, use settled.hyps(3) in blast)
next
  case (settled_processed d i f d1 e d2 os d')
  from settled_processed.hyps(1) show ?case
    by (rule preserved_settles [of _ _ _ _ _ "[e]" os])
      (use settled_processed.hyps(1-3) in \<open>auto dest!: step_fields simp: has_wallet_def\<close>,
       use settled_processed.hyps(4) in blast)
qed (rule aside_preserved; assumption)+

lemma ledger_step_preserved: "ledger_step d d' \<Longrightarrow> preserved d d'"
  by (auto simp: ledger_step_iff intro: db_step_preserved aside_preserved(1))

lemma db_steps_preserved: "db_step\<^sup>*\<^sup>* d d' \<Longrightarrow> preserved d d'"
  by (induction rule: rtranclp_induct) (auto intro: preserved_trans db_step_preserved)

section \<open>Consequences\<close>

lemma wallet_row_unique:
  "books_ok d \<Longrightarrow> r \<in> set (db_wallets d) \<Longrightarrow> q \<in> set (db_wallets d) \<Longrightarrow> wr_id r = wr_id q \<Longrightarrow> r = q"
  by (metis books_ok_def distinct_map inj_on_contraD)

lemma tx_rows_unique:
  assumes "txs_ok d" "r \<in> set (db_txs d)" "q \<in> set (db_txs d)" "tx_conflict r q"
  shows "r = q"
proof -
  have sorted: "sorted_wrt (\<lambda>r q. \<not> tx_conflict r q) (db_txs d)"
    using assms(1) by (simp add: txs_ok_def no_conflicts_def)
  obtain i j where ij: "i < length (db_txs d)" "j < length (db_txs d)" "r = db_txs d ! i" "q = db_txs d ! j"
    using assms(2,3) by (metis in_set_conv_nth)
  have "i = j"
    using sorted_wrt_nth_less [OF sorted, of i j] sorted_wrt_nth_less [OF sorted, of j i] ij assms(4)
      tx_conflict_sym [of r q] by (cases i j rule: linorder_cases) auto
  then show ?thesis using ij by simp
qed

lemma balance_is_sum:
  "db_ok d \<Longrightarrow> r \<in> set (db_wallets d) \<Longrightarrow>
     sint (wr_balance r) = (\<Sum>e\<leftarrow>wallet_rows d (wr_id r). row_effect e) \<and> 0 \<le> sint (wr_balance r)"
  using audited_sum [of 0 "wallet_rows d (wr_id r)" "sint (wr_balance r)"]
  by (auto simp: db_ok_def books_ok_def wallet_checks_def)
end
