(* ===== verification/Contracts.thy ===== *)
theory Contracts
  imports Ledger
begin

text \<open>
  The two interfaces the use cases rely on, as the client sees them: the unit of work
  (\<open>walletapp.UnitOfWork\<close>) and the ports a movement goes through (\<open>WalletRepository\<close> and
  \<open>LedgerRepository\<close>). The Postgres adapter's model satisfies both.
\<close>

section \<open>The unit of work\<close>

locale unit_of_work =
  fixes within :: "(app_error, 'a) tx \<Rightarrow> (app_error, 'a) tx"
  assumes outcome: "within body s = (r, s') \<Longrightarrow>
      (st_db s' = st_db s \<and> (\<exists>e. r = Inl e)) \<or>
      (\<exists>s1 s2 x. st_db s1 = st_db s \<and> body s1 = (Inr x, s2) \<and> st_db s' = st_db s2 \<and> (r = Inr x \<or> r = Inl Infra))"
begin

text \<open>A relation that every successful body establishes holds of the whole unit of work.\<close>

lemma refines:
  assumes "\<And>s1 x s2. st_db s1 = st_db s \<Longrightarrow> body s1 = (Inr x, s2) \<Longrightarrow> R (st_db s) (st_db s2)"
    and "within body s = (r, s')"
  shows "st_db s' = st_db s \<or> R (st_db s) (st_db s')"
  using outcome [OF assms(2)] assms(1) by metis

lemma result:
  assumes "\<And>s1 x s2. st_db s1 = st_db s \<Longrightarrow> body s1 = (Inr x, s2) \<Longrightarrow> Q x (st_db s) (st_db s2)"
    and "within body s = (Inr x, s')"
  shows "Q x (st_db s) (st_db s')"
  using outcome [OF assms(2)] assms(1) by auto

end

interpretation pg_uow: unit_of_work within_tx
proof
  fix body :: "(app_error, 'a) tx" and s r s'
  assume "within_tx body s = (r, s')"
  then show "(st_db s' = st_db s \<and> (\<exists>e. r = Inl e)) \<or>
      (\<exists>s1 s2 x. st_db s1 = st_db s \<and> body s1 = (Inr x, s2) \<and> st_db s' = st_db s2 \<and> (r = Inr x \<or> r = Inl Infra))"
    by (rule within_tx_cases) blast+
qed

section \<open>The ports of a movement\<close>

text \<open>The row a wallet was rehydrated from.\<close>

definition stored :: "wallet_row \<Rightarrow> wallet \<Rightarrow> bool" where
  "stored r w \<longleftrightarrow> wallet_ok w \<and> wr_id r = w_id w \<and> wr_player r = w_player_id w \<and> wr_currency r = w_currency w \<and>
     wr_balance r = minor_units (w_balance w) \<and> wr_version r = w_version w"

definition holds :: "db \<Rightarrow> wallet \<Rightarrow> bool" where
  "holds d w \<longleftrightarrow> (\<exists>r \<in> set (db_wallets d). stored r w)"

locale movement_ports =
  fixes find :: "string \<Rightarrow> (app_error, wallet) tx"
    and append :: "ledger_entry \<Rightarrow> (app_error, unit) tx"
    and update :: "wallet \<Rightarrow> int64 \<Rightarrow> (app_error, unit) tx"
  assumes find_law: "find i s = (Inr w, s') \<Longrightarrow> st_db s' = st_db s \<and> w_id w = i \<and> holds (st_db s) w"
    and append_law: "append e s = (Inr u, s') \<Longrightarrow> \<exists>t n. adds_entry (st_db s) (entry_row e t n) (st_db s')"
    and update_law: "update w v s = (Inr u, s') \<Longrightarrow> 1 \<le> sint (w_version w) \<and>
      (\<exists>t. st_db s' = set_balance (w_id w) v w t (st_db s))"
begin

lemma find_ok: "find i s = (Inr w, s') \<Longrightarrow> wallet_ok w"
  using find_law by (auto simp: holds_def stored_def)

text \<open>
  A wallet that is stored, moved, appended to the ledger and updated under the version it was read
  with is one \<open>moves\<close> step.
\<close>

lemma movement:
  assumes "holds (st_db s) w" "d = Debit \<or> d = Credit" "wallet_move d (Some w) m = Inr (e, w')"
    and "append e s = (Inr u, s1)" "update w' (w_version w' - 1) s1 = (Inr u', s2)"
  shows "\<exists>row. moves (st_db s) row (st_db s2) \<and> lr_tx row = mi_transaction_id m \<and> lr_wallet row = w_id w \<and>
     lr_amount row = minor_units (mi_money m) \<and> lr_direction row = d \<and>
     lr_before row = minor_units (w_balance w) \<and> lr_after row = minor_units (w_balance w')"
proof -
  obtain r where r: "r \<in> set (db_wallets (st_db s))" "stored r w"
    using assms(1) by (auto simp: holds_def)
  have ok: "wallet_ok w" using r(2) by (simp add: stored_def)
  have mv: "e = movement_entry d w m" "w' = moved_wallet d w m"
    using assms(3) by (simp_all add: wallet_move_ok [OF ok assms(2)])
  obtain t n where a: "adds_entry (st_db s) (entry_row e t n) (st_db s1)"
    using append_law [OF assms(4)] by blast
  obtain t' where u: "1 \<le> sint (w_version w')" "st_db s2 = set_balance (w_id w') (w_version w' - 1) w' t' (st_db s1)"
    using update_law [OF assms(5)] by blast
  have "moves (st_db s) (entry_row e t n) (st_db s2)"
    unfolding moves_def
    by (intro exI [of _ "st_db s1"] exI [of _ r] exI [of _ w'] exI [of _ t'])
      (use a u r mv in \<open>auto simp: stored_def entry_row_def movement_entry_def moved_wallet_def\<close>)
  then show ?thesis using mv
    by (intro exI [of _ "entry_row e t n"]) (simp add: entry_row_def movement_entry_def moved_wallet_def)
qed

end

lemma decoded_stored: "decode_wallet r = Inr w \<Longrightarrow> stored r w"
  by (auto simp: decode_wallet_ok stored_def)

interpretation pg_ports: movement_ports wallets_find_for_update ledger_insert wallets_update_balance
proof
  show "st_db s' = st_db s \<and> w_id w = i \<and> holds (st_db s) w"
    if "wallets_find_for_update i s = (Inr w, s')" for i s w s'
  proof -
    have "wallets_find i s = (Inr w, s')" using that by (simp add: wallets_find_for_update_def)
    then obtain r where "r \<in> set (db_wallets (st_db s))" "wr_id r = i" "decode_wallet r = Inr w" "st_db s' = st_db s"
      by (rule wallets_find_ok)
    then show ?thesis using decoded_stored [of r w] by (auto simp: holds_def stored_def)
  qed
  show "\<exists>t n. adds_entry (st_db s) (entry_row e t n) (st_db s')"
    if "ledger_insert e s = (Inr u, s')" for e s u s'
    using ledger_insert_ok [OF that] by blast
  show "1 \<le> sint (w_version w) \<and> (\<exists>t. st_db s' = set_balance (w_id w) v w t (st_db s))"
    if "wallets_update_balance w v s = (Inr u, s')" for w v s u s'
    using wallets_update_balance_ok [OF that] by blast
qed
end
