(* ===== verification/ProcessSteps.thy ===== *)
theory ProcessSteps
  imports ProcessOperation Contracts
begin

text \<open>
  The processing use case refines the abstract ledger: every call leaves the database as it was or
  takes one \<open>db_step\<close>, and the answer it gives is the one the committed row would give again.
\<close>

section \<open>Reads inside the attempt\<close>

lemma find_existing_db_same [intro, simp]: "db_same m \<Longrightarrow> db_same (find_existing m)"
  unfolding find_existing_def by (intro db_same_tryT) (auto split: sum.splits)

lemma lookup_existing_db_same [intro, simp]: "db_same (lookup_existing r k h)"
  unfolding lookup_existing_def Let_def
  by (intro db_same_bindT) (auto split: option.splits)

lemma resolve_decision_db_same [intro, simp]: "db_same (resolve_decision r d)"
  unfolding resolve_decision_def
  by (auto intro!: db_same_tryT db_same_bindT split: option.splits sum.splits)

text \<open>What a decision must look like for the code after it; \<open>Evaluate\<close> only gives such ones.\<close>

definition decision_fits :: "wager_kind \<Rightarrow> decision \<Rightarrow> bool" where
  "decision_fits k d \<longleftrightarrow> dc_action d \<in> {Process, Reject, WaitForReference} \<and>
     (dc_action d = Reject \<longrightarrow> dc_error d \<noteq> None) \<and>
     (dc_action d = Process \<longrightarrow> dc_direction d \<in> {'''', Debit, Credit} \<and> (dc_direction d = '''' \<longleftrightarrow> k = Loss))"

lemma movement_decision_fits:
  "kind_rules (rq_kind r) = Some rule \<Longrightarrow> decision_fits (rq_kind r) (movement_decision (rq_kind r) p)"
  by (erule kind_rules_Some_cases) (auto simp: decision_fits_def movement_decision_def kind_rule_of_def)

lemma evaluate_fits: "evaluate r p b = Inr d \<Longrightarrow> decision_fits (rq_kind r) d"
proof (erule evaluate_cases)
  fix rule assume "kind_rules (rq_kind r) = Some rule" "d = movement_decision (rq_kind r) None"
  then show ?thesis using movement_decision_fits by blast
next
  fix rule t assume "kind_rules (rq_kind r) = Some rule" "d = movement_decision (rq_kind r) (Some t)"
  then show ?thesis using movement_decision_fits by blast
qed (auto simp: decision_fits_def)

lemma evaluate_loss: "evaluate r p b = Inr d \<Longrightarrow> rq_kind r = Loss \<Longrightarrow> amount (rq_money r) = 0 \<and> rq_reference r = None"
  by (erule evaluate_cases) (auto simp: valid_amount_def)

lemma resolve_decision_ok:
  assumes "resolve_decision r d s = (Inr (d', ref), s')" "decision_fits (rq_kind r) d"
  shows "decision_fits (rq_kind r) d' \<and> st_db s' = st_db s \<and>
     (d' = d \<and> ref = None \<or> (\<exists>t b. ref = Some t \<and> evaluate r (Some t) b = Inr d'))"
proof -
  have "st_db s' = st_db s" by (rule db_sameD [OF resolve_decision_db_same assms(1)])
  moreover have "d' = d \<and> ref = None \<or> (\<exists>t b. ref = Some t \<and> evaluate r (Some t) b = Inr d')"
  proof (cases "dc_action d \<noteq> WaitForReference")
    case True
    with assms(1) show ?thesis by (simp add: resolve_decision_def returnT_ok)
  next
    case False
    with assms(1) obtain x where x: "rq_reference r = Some x"
      by (auto simp: resolve_decision_def failT_ok split: option.splits)
    obtain res s1 where res: "txs_find_reference (rq_provider_id r) x s = (res, s1)" by fastforce
    show ?thesis
    proof (cases res)
      case (Inl e)
      with assms(1) False x res show ?thesis
        by (simp add: resolve_decision_def tryT_def returnT_ok failT_ok split: if_splits)
    next
      case (Inr t)
      with assms(1) False x res obtain b where "evaluate r (Some t) b = Inr d'" "ref = Some t"
        by (auto simp: resolve_decision_def tryT_def bindT_ok liftE_ok map_err_ok returnT_ok)
      then show ?thesis by blast
    qed
  qed
  ultimately show ?thesis using assms(2) evaluate_fits by blast
qed

section \<open>Outbox events\<close>

lemma adds_events_Nil: "adds_events d [] d"
  by (simp add: adds_events_def)

lemma adds_events_trans: "adds_events a xs b \<Longrightarrow> adds_events b ys c \<Longrightarrow> adds_events a (xs @ ys) c"
  by (auto simp: adds_events_def)

lemma outbox_insert_adds:
  assumes "outbox_insert (outbox_record_of agg e now) s = (Inr u, s')" "event_wallet e \<noteq> ''''"
  obtains o' where "adds_events (st_db s) [o'] (st_db s')"
    "or_aggregate_id o' = ev_aggregate_id (event_envelope_of e)" "or_event_type o' = ev_event_type (event_envelope_of e)"
proof (rule outbox_insert_ok [OF assms(1)])
  fix o' assume o': "or_event_id o' = ob_event_id (outbox_record_of agg e now)"
    "event_json (ob_payload (outbox_record_of agg e now)) = Inr (or_payload o')" "or_published o' = None"
    "or_aggregate_id o' = ob_aggregate_id (outbox_record_of agg e now)"
    "or_event_type o' = ob_event_type (outbox_record_of agg e now)"
    "\<forall>q \<in> set (db_outbox (st_db s)). or_event_id q \<noteq> or_event_id o'"
    "st_db s' = (st_db s)\<lparr>db_outbox := db_outbox (st_db s) @ [o']\<rparr>"
  show thesis by (rule that [of o']) (use o' assms(2) in \<open>auto simp: adds_events_def event_row_def outbox_record_of_def Let_def\<close>)
qed

text \<open>The event types a transaction in a given state is announced with.\<close>

definition state_event :: "string \<Rightarrow> string" where
  "state_event st = (if st = Processed then ProcessedEventType
     else if st = Rejected then RejectedEventType else PendingReferenceEventType)"

lemma write_outbox_events_ok:
  assumes "write_outbox_events t w entry c ca now s = (Inr u, s')" "wt_wallet_id t \<noteq> ''''"
  obtains os where "adds_events (st_db s) os (st_db s')"
    "wt_status t \<noteq> Failed \<Longrightarrow> \<exists>o' \<in> set os. or_aggregate_id o' = wt_id t \<and> or_event_type o' = state_event (wt_status t)"
    "wt_status t = Processed \<Longrightarrow> entry \<noteq> None \<Longrightarrow>
       \<exists>o' \<in> set os. or_aggregate_id o' = w_id w \<and> or_event_type o' = BalanceChangedEventType"
proof -
  obtain i s1 where i: "new_id s = (Inr i, s1)" using assms(1) by (auto simp: write_outbox_events_def bindT_ok)
  have d1: "st_db s1 = st_db s" by (rule new_id_db [OF i])
  let ?m = "\<lparr>em_event_id = i, em_correlation_id = c, em_causation_id = ca, em_occurred_at = now\<rparr>"
  consider (rejected) "wt_status t = Rejected" | (failed) "wt_status t = Failed"
    | (other) "wt_status t \<noteq> Rejected" "wt_status t \<noteq> Failed" by blast
  then show thesis
  proof cases
    case rejected
    then obtain e where e: "new_rejected_event ?m (Some t) = Inr e"
        "outbox_insert (outbox_record_of ''WagerTransaction'' e now) s1 = (Inr u, s')"
      using assms(1) i by (auto simp: write_outbox_events_def bindT_ok liftE_ok map_err_ok Let_def)
    from new_rejected_event_SomeD [OF e(1)] obtain env da where "e = RejectedEvent env da" "rd_wallet_id da = wt_wallet_id t"
      "ev_event_type env = RejectedEventType" "ev_aggregate_id env = wt_id t" by auto
    then obtain o' where "adds_events (st_db s) [o'] (st_db s')" "or_aggregate_id o' = wt_id t"
        "or_event_type o' = RejectedEventType"
      using outbox_insert_adds [OF e(2)] d1 assms(2) by auto
    then show thesis using that [of "[o']"] rejected by (simp add: state_event_def)
  next
    case failed
    then have "st_db s' = st_db s"
      using assms(1) i d1 by (auto simp: write_outbox_events_def bindT_ok returnT_ok Let_def)
    then show thesis using that [of "[]"] failed by (simp add: adds_events_Nil)
  next
    case other
    then obtain e s2 where e: "new_processed_event ?m (Some t) = Inr e"
        "outbox_insert (outbox_record_of ''WagerTransaction'' e now) s1 = (Inr (), s2)"
        "(if entry = None then returnT () else bindT new_id (\<lambda>j. bindT (liftE (map_err WalletErr
           (new_balance_event \<lparr>em_event_id = j, em_correlation_id = c, em_causation_id = ca, em_occurred_at = now\<rparr>
             (Some w) entry))) (\<lambda>b. outbox_insert (outbox_record_of ''Wallet'' b now)))) s2 = (Inr u, s')"
      using assms(1) i by (auto simp: write_outbox_events_def bindT_ok liftE_ok map_err_ok Let_def)
    from new_processed_event_SomeD [OF e(1)] obtain env da where env: "e = ProcessedEvent env da" "pd_wallet_id da = wt_wallet_id t"
      "ev_event_type env = ProcessedEventType" "ev_aggregate_id env = wt_id t" "wt_status t = Processed" by auto
    obtain o1 where o1: "adds_events (st_db s) [o1] (st_db s2)" "or_aggregate_id o1 = wt_id t"
        "or_event_type o1 = ProcessedEventType"
      using outbox_insert_adds [OF e(2)] env d1 assms(2) by auto
    show thesis
    proof (cases "entry = None")
      case True
      then have "st_db s' = st_db s2" using e(3) by (simp add: returnT_ok)
      then show thesis using that [of "[o1]"] o1 env(5) True by (simp add: state_event_def)
    next
      case False
      then obtain j s3 b where b: "new_id s2 = (Inr j, s3)"
          "new_balance_event \<lparr>em_event_id = j, em_correlation_id = c, em_causation_id = ca, em_occurred_at = now\<rparr>
             (Some w) entry = Inr b"
          "outbox_insert (outbox_record_of ''Wallet'' b now) s3 = (Inr u, s')"
        using e(3) by (auto simp: bindT_ok liftE_ok map_err_ok)
      have d3: "st_db s3 = st_db s2" by (rule new_id_db [OF b(1)])
      from new_balance_event_SomeD [OF b(2)] obtain env' da' where env': "b = BalanceChangedEvent env' da'" "bd_wallet_id da' = w_id w" "w_id w \<noteq> ''''"
        "ev_event_type env' = BalanceChangedEventType" "ev_aggregate_id env' = w_id w" by auto
      obtain o2 where o2: "adds_events (st_db s2) [o2] (st_db s')" "or_aggregate_id o2 = w_id w"
          "or_event_type o2 = BalanceChangedEventType"
        using outbox_insert_adds [OF b(3)] env' d3 by auto
      show thesis using that [of "[o1, o2]"] adds_events_trans [OF o1(1) o2(1)] o1 o2 env(5)
        by (simp add: state_event_def)
    qed
  qed
qed

section \<open>A new operation\<close>

lemma move_new_ok:
  assumes "move_new w0 d r tx now s = (Inr (w, entry, rejected), s')"
    and "decision_fits (rq_kind r) d" "dc_action d \<noteq> WaitForReference"
  obtains (rejected) "rejected \<noteq> None" "entry = None" "w = w0" "st_db s' = st_db s"
  | (loss) "rejected = None" "entry = None" "w = w0" "rq_kind r = Loss" "dc_action d = Process" "st_db s' = st_db s"
  | (moved) e m where "rejected = None" "entry = Some e" "rq_kind r \<noteq> Loss" "dc_action d = Process"
      "dc_direction d = Debit \<or> dc_direction d = Credit" "wallet_move (dc_direction d) (Some w0) m = Inr (e, w)"
      "mi_transaction_id m = tx" "mi_money m = rq_money r" "st_db s' = st_db s"
proof (cases "dc_action d = Reject")
  case True
  with assms(1,2) that(1) show thesis by (auto simp: move_new_def returnT_ok decision_fits_def)
next
  case False
  with assms(2,3) have dir: "dc_action d = Process" "dc_direction d \<in> {'''', Debit, Credit}"
      "dc_direction d = '''' \<longleftrightarrow> rq_kind r = Loss"
    by (auto simp: decision_fits_def)
  show thesis
  proof (cases "dc_direction d = ''''")
    case True
    with assms(1) dir that(2) show thesis by (auto simp: move_new_def returnT_ok)
  next
    case moving: False
    let ?m = "\<lambda>i. \<lparr>mi_ledger_entry_id = i, mi_transaction_id = tx, mi_money = rq_money r, mi_occurred_at = now\<rparr>"
    obtain i s1 where i: "new_id s = (Inr i, s1)" and
      k: "(case (if dc_direction d = Debit then wallet_debit (Some w0) (?m i) else wallet_credit (Some w0) (?m i)) of
          Inl e \<Rightarrow> if e \<noteq> ErrInsufficientFunds then failT (WalletErr e)
                   else returnT (w0, None, Some (insufficient_funds_for (rq_kind r)))
        | Inr (entry, w') \<Rightarrow> returnT (w', Some entry, None)) s1 = (Inr (w, entry, rejected), s')"
      using assms(1) moving dir(1) by (auto simp: move_new_def bindT_ok Let_def)
    have move: "(if dc_direction d = Debit then wallet_debit (Some w0) (?m i) else wallet_credit (Some w0) (?m i)) =
        wallet_move (dc_direction d) (Some w0) (?m i)"
      using dir moving by (auto simp: wallet_debit_def wallet_credit_def)
    have d1: "st_db s1 = st_db s" by (rule new_id_db [OF i])
    show thesis
    proof (cases "wallet_move (dc_direction d) (Some w0) (?m i)")
      case (Inl e)
      with k move d1 that(1) show thesis by (auto simp: returnT_ok failT_ok split: if_splits)
    next
      case (Inr p)
      then obtain e w' where p: "wallet_move (dc_direction d) (Some w0) (?m i) = Inr (e, w')" by (cases p) simp
      then have "w = w' \<and> entry = Some e \<and> rejected = None \<and> s' = s1" using k move by (auto simp: returnT_ok)
      then show thesis using that(3) [of e "?m i"] p dir moving d1 by auto
    qed
  qed
qed

lemma persist_movement_None: "persist_movement w None s = (Inr u, s') \<longleftrightarrow> s' = s"
  by (auto simp: persist_movement_def returnT_ok)

lemma persist_movement_Some:
  assumes "persist_movement w (Some e) s = (Inr u, s')"
  shows "\<exists>s1. ledger_insert e s = (Inr (), s1) \<and> wallets_update_balance w (w_version w - 1) s1 = (Inr (), s')"
proof -
  obtain s1 where s1: "ledger_insert e s = (Inr (), s1)" and
    k: "tryT (wallets_update_balance w (w_version w - 1)) (\<lambda>res. case res of
       Inl err \<Rightarrow> bindT (if err = ErrConcurrencyConflict then observe ObserveConcurrencyConflict else returnT ()) (\<lambda>_. failT err)
     | Inr _ \<Rightarrow> returnT ()) s1 = (Inr u, s')"
    using assms by (auto simp: persist_movement_def bindT_ok)
  obtain res s2 where res: "wallets_update_balance w (w_version w - 1) s1 = (res, s2)" by fastforce
  show ?thesis using s1 k res by (cases res) (auto simp: tryT_def bindT_ok failT_ok returnT_ok)
qed

text \<open>The row that records an answer.\<close>

definition answer_row :: "process_input \<Rightarrow> string \<Rightarrow> process_result \<Rightarrow> tx_row \<Rightarrow> bool" where
  "answer_row i hash res row \<longleftrightarrow>
     has_key (rq_provider_id (pr_request i)) (pr_key i) row \<and>
     has_external (rq_provider_id (pr_request i)) (rq_external_id (pr_request i)) row \<and>
     tr_hash row = Some hash \<and> tr_wallet row = rq_wallet_id (pr_request i) \<and> tr_kind row = rq_kind (pr_request i) \<and>
     tr_amount row = minor_units (rq_money (pr_request i)) \<and>
     tr_currency row = currency_of (rq_money (pr_request i)) \<and>
     tr_id row = ps_transaction_id res \<and> tr_status row = ps_status res \<and>
     or_empty (tr_failure row) = ps_failure_code res \<and> tr_expires row = ps_expires res \<and>
     ps_replay res = False \<and> ps_kind res = rq_kind (pr_request i) \<and>
     (case tr_balance row of None \<Rightarrow> ps_balance res = zero_money
      | Some b \<Rightarrow> money_new b (tr_currency row) = Inr (ps_balance res))"

lemma or_empty_null [simp]: "or_empty (null_if_empty s) = s"
  by (simp add: or_empty_def null_if_empty_def)

lemma mark_outcome_ok:
  assumes "mark_outcome t0 rejected now = Inr t"
  shows "t = t0\<lparr>wt_status := wt_status t, wt_failure := wt_failure t, wt_updated_at := wt_updated_at t\<rparr> \<and>
     wt_status t = (if rejected = None then Processed else Rejected)"
  using assms by (auto simp: mark_outcome_def mark_rejected_def mark_processed_def tx_transition_ok split: option.splits)

lemma minor_units_ok: "money_minor_units m = Inr u \<longleftrightarrow> is_supported (currency_of m) \<and> u = minor_units m"
  by (auto simp: money_minor_units_def bindE_ok ok_iff)

lemma record_new_ok:
  assumes "record_new i w entry t now s = (Inr (Some res), s')"
  obtains s2 s3 where
    "txs_insert_new t (Some (minor_units (w_balance w))) s = (Inr True, s2)"
    "persist_movement w entry s2 = (Inr (), s3)"
    "write_outbox_events t w entry (pr_correlation_id i) (pr_causation_id i) now s3 = (Inr (), s')"
    "money_new (minor_units (w_balance w)) (w_currency w) = Inr (ps_balance res)"
    "res = \<lparr>ps_transaction_id = wt_id t, ps_status = wt_status t, ps_failure_code = wt_failure t,
         ps_balance = ps_balance res, ps_expires = None, ps_replay = False, ps_kind = rq_kind (pr_request i)\<rparr>"
proof -
  obtain ins s2 where ins: "txs_insert_new t (Some (minor_units (w_balance w))) s = (Inr ins, s2)" and
    k: "(if \<not> ins then returnT None
     else
       bindT (persist_movement w entry) (\<lambda>_.
       bindT (write_outbox_events t w entry (pr_correlation_id i) (pr_causation_id i) now) (\<lambda>_.
       bindT (liftE (case money_new (minor_units (w_balance w)) (w_currency w) of
           Inl _ \<Rightarrow> Inl ErrCorruptedResultingBalance | Inr m \<Rightarrow> Inr m)) (\<lambda>m.
       returnT (Some \<lparr>ps_transaction_id = wt_id t, ps_status = wt_status t, ps_failure_code = wt_failure t,
         ps_balance = m, ps_expires = None, ps_replay = False, ps_kind = rq_kind (pr_request i)\<rparr>))))) s2 = (Inr (Some res), s')"
    using assms by (auto simp: record_new_def bindT_ok liftE_ok map_err_ok minor_units_ok)
  show thesis
  proof (cases ins)
    case True
    then obtain s3 m where "persist_movement w entry s2 = (Inr (), s3)"
      "write_outbox_events t w entry (pr_correlation_id i) (pr_causation_id i) now s3 = (Inr (), s')"
      "money_new (minor_units (w_balance w)) (w_currency w) = Inr m"
      "res = \<lparr>ps_transaction_id = wt_id t, ps_status = wt_status t, ps_failure_code = wt_failure t,
         ps_balance = m, ps_expires = None, ps_replay = False, ps_kind = rq_kind (pr_request i)\<rparr>"
      using k by (auto simp: bindT_ok liftE_ok returnT_ok split: sum.splits)
    then show thesis using that ins True by simp
  next
    case False
    then show thesis using k by (simp add: returnT_ok)
  qed
qed

lemma process_new_ok:
  assumes "process_new w0 i hash d ref now s = (Inr r, s')"
  obtains tx s0 t0 w entry rejected s1 t where
    "new_id s = (Inr tx, s0)" "new_external_transaction (external_input_of i hash tx (tx_id_of ref) now) = Inr t0"
    "move_new w0 d (pr_request i) tx now s0 = (Inr (w, entry, rejected), s1)"
    "mark_outcome t0 rejected now = Inr t" "record_new i w entry t now s1 = (Inr r, s')"
proof -
  obtain tx s0 t0 x s1 where a: "new_id s = (Inr tx, s0)"
    "new_external_transaction (external_input_of i hash tx (tx_id_of ref) now) = Inr t0"
    "move_new w0 d (pr_request i) tx now s0 = (Inr x, s1)" and
    k: "(case x of (w, entry, rejected) \<Rightarrow> bindT (liftE (map_err WalletErr (mark_outcome t0 rejected now))) (\<lambda>t.
        record_new i w entry t now)) s1 = (Inr r, s')"
    using assms unfolding process_new_def bindT_ok liftE_ok map_err_ok by blast
  obtain w entry rejected where x: "x = (w, entry, rejected)" by (cases x)
  with k obtain t where "mark_outcome t0 rejected now = Inr t" "record_new i w entry t now s1 = (Inr r, s')"
    by (auto simp: bindT_ok liftE_ok map_err_ok)
  then show thesis using that a x by blast
qed

text \<open>
  What a new, not pending answer does to the tables: one transaction row that records it and, for an
  operation that moves money, one ledger entry of its amount ending at the answered balance.
\<close>

definition takes_effect :: "process_input \<Rightarrow> string \<Rightarrow> direction \<Rightarrow> process_result \<Rightarrow> db \<Rightarrow> db \<Rightarrow> bool" where
  "takes_effect i hash dir res d d' \<longleftrightarrow>
     (\<exists>row. db_txs d' = db_txs d @ [row] \<and> answer_row i hash res row \<and>
        (if moves_money row
         then \<exists>e. db_ledger d' = db_ledger d @ [e] \<and> entry_of row e \<and> lr_direction e = dir \<and>
           lr_after e = minor_units (ps_balance res)
         else db_ledger d' = db_ledger d))"

lemma takes_effectD: "takes_effect i hash dir res d d' \<Longrightarrow> \<exists>row \<in> set (db_txs d'). answer_row i hash res row"
  by (auto simp: takes_effect_def)

lemma new_external_wallet: "new_external_transaction i = Inr t \<Longrightarrow> wt_wallet_id t \<noteq> ''''"
  by (simp only: new_external_transaction_ok tx_ok_def) blast

lemma new_row_answers:
  assumes "new_external_transaction (external_input_of i hash tx rid now) = Inr t0"
    and "t = t0\<lparr>wt_status := wt_status t, wt_failure := wt_failure t, wt_updated_at := wt_updated_at t\<rparr>"
    and "transaction_fields s t b = Inr row"
    and "res = \<lparr>ps_transaction_id = wt_id t, ps_status = wt_status t, ps_failure_code = wt_failure t,
         ps_balance = m, ps_expires = x, ps_replay = False, ps_kind = rq_kind (pr_request i)\<rparr>"
    and "case b of None \<Rightarrow> m = zero_money | Some u \<Rightarrow> money_new u (currency_of (rq_money (pr_request i))) = Inr m"
  shows "answer_row i hash res (row\<lparr>tr_next_attempt := na, tr_expires := x\<rparr>)" "wt_id t = tx"
    "wt_kind t = rq_kind (pr_request i)" "wt_wallet_id t = rq_wallet_id (pr_request i)" "wt_wallet_id t \<noteq> ''''"
proof -
  show "wt_wallet_id t \<noteq> ''''" by (subst assms(2)) (simp add: new_external_wallet [OF assms(1)])
  have t: "wt_id t = tx" "wt_kind t = rq_kind (pr_request i)" "wt_wallet_id t = rq_wallet_id (pr_request i)"
    "wt_origin t = External" "wt_provider_id t = rq_provider_id (pr_request i)" "wt_key t = pr_key i"
    "wt_hash t = hash" "wt_external_id t = rq_external_id (pr_request i)" "wt_money t = rq_money (pr_request i)"
    by (subst assms(2), use assms(1) in \<open>simp add: new_external_transaction_ok external_input_of_def Let_def\<close>)+
  show "wt_id t = tx" "wt_kind t = rq_kind (pr_request i)" "wt_wallet_id t = rq_wallet_id (pr_request i)"
    using t by simp_all
  show "answer_row i hash res (row\<lparr>tr_next_attempt := na, tr_expires := x\<rparr>)"
    using assms(3,4,5) t
    by (simp add: answer_row_def transaction_fields_ok has_key_def has_external_def split: option.splits)
qed

lemma holds_cong: "db_wallets d' = db_wallets d \<Longrightarrow> holds d w \<Longrightarrow> holds d' w"
  by (simp add: holds_def)

lemma announces_state_event:
  "announces t o' \<longleftrightarrow> or_aggregate_id o' = tr_id t \<and> or_event_type o' = state_event (tr_status t)"
  by (auto simp: announces_def state_event_def)

lemma process_new_step:
  assumes p: "process_new w0 i hash d ref now s = (Inr (Some res), s')"
    and fit: "decision_fits (rq_kind (pr_request i)) d" "dc_action d \<noteq> WaitForReference"
    and w0: "holds (st_db s) w0" "w_id w0 = rq_wallet_id (pr_request i)"
      "w_currency w0 = currency_of (rq_money (pr_request i))"
  shows "db_step (st_db s) (st_db s') \<and> takes_effect i hash (dc_direction d) res (st_db s) (st_db s')"
proof -
  obtain tx s0 t0 w entry rejected s1 t where a: "new_id s = (Inr tx, s0)"
      "new_external_transaction (external_input_of i hash tx (tx_id_of ref) now) = Inr t0"
      "move_new w0 d (pr_request i) tx now s0 = (Inr (w, entry, rejected), s1)"
      "mark_outcome t0 rejected now = Inr t" "record_new i w entry t now s1 = (Inr (Some res), s')"
    by (rule process_new_ok [OF p])
  obtain s2 s3 where b: "txs_insert_new t (Some (minor_units (w_balance w))) s1 = (Inr True, s2)"
      "persist_movement w entry s2 = (Inr (), s3)"
      "write_outbox_events t w entry (pr_correlation_id i) (pr_causation_id i) now s3 = (Inr (), s')"
      "money_new (minor_units (w_balance w)) (w_currency w) = Inr (ps_balance res)"
      "res = \<lparr>ps_transaction_id = wt_id t, ps_status = wt_status t, ps_failure_code = wt_failure t,
         ps_balance = ps_balance res, ps_expires = None, ps_replay = False, ps_kind = rq_kind (pr_request i)\<rparr>"
    by (rule record_new_ok [OF a(5)])
  obtain row where row: "transaction_fields s1 t (Some (minor_units (w_balance w))) = Inr row"
      "adds_tx (st_db s1) row (st_db s2)"
    by (rule txs_insert_new_ok [OF b(1)])
  have mark: "t = t0\<lparr>wt_status := wt_status t, wt_failure := wt_failure t, wt_updated_at := wt_updated_at t\<rparr>"
      "wt_status t = (if rejected = None then Processed else Rejected)"
    using mark_outcome_ok [OF a(4)] by blast+
  have wallet: "wt_wallet_id t \<noteq> ''''"
    by (subst mark(1)) (simp add: new_external_wallet [OF a(2)])
  obtain os where os: "adds_events (st_db s3) os (st_db s')"
      "wt_status t \<noteq> Failed \<Longrightarrow> \<exists>o' \<in> set os. or_aggregate_id o' = wt_id t \<and> or_event_type o' = state_event (wt_status t)"
    by (rule write_outbox_events_ok [OF b(3) wallet]) blast
  have s0: "st_db s0 = st_db s" by (rule new_id_db [OF a(1)])
  have wc: "w_currency w = w_currency w0 \<and> st_db s1 = st_db s"
    using a(3) fit
  proof (rule move_new_ok)
    fix e m assume mv: "dc_direction d = Debit \<or> dc_direction d = Credit"
        "wallet_move (dc_direction d) (Some w0) m = Inr (e, w)" "st_db s1 = st_db s0"
    have "wallet_ok w0" using w0(1) by (auto simp: holds_def stored_def)
    then show ?thesis using mv s0 by (simp add: wallet_move_ok moved_wallet_def)
  qed (use s0 in auto)
  have bal: "money_new (minor_units (w_balance w)) (currency_of (rq_money (pr_request i))) = Inr (ps_balance res)"
    using b(4) wc w0(3) by simp
  have bal_units: "minor_units (ps_balance res) = minor_units (w_balance w)" using b(4) by (auto simp: ok_iff)
  have "answer_row i hash res (row\<lparr>tr_next_attempt := tr_next_attempt row, tr_expires := None\<rparr>)"
    "wt_id t = tx" "wt_kind t = rq_kind (pr_request i)" "wt_wallet_id t = rq_wallet_id (pr_request i)"
    by (rule new_row_answers [OF a(2) mark(1) row(1) b(5)]; use bal in simp)+
  moreover have row_eq: "row = row\<lparr>tr_next_attempt := tr_next_attempt row, tr_expires := None\<rparr>"
    using row(1) by (simp add: transaction_fields_ok)
  ultimately have ans: "answer_row i hash res row" and t: "wt_id t = tx" "wt_kind t = rq_kind (pr_request i)"
      "wt_wallet_id t = rq_wallet_id (pr_request i)" by simp_all
  have r: "tr_status row = wt_status t" "tr_id row = tx" "tr_kind row = rq_kind (pr_request i)"
      "tr_wallet row = w_id w0" "tr_amount row = minor_units (rq_money (pr_request i))"
    using row(1) t ans w0(2) by (simp_all add: transaction_fields_ok answer_row_def)
  have ann: "\<exists>o' \<in> set os. announces row o'"
    using os(2) mark(2) r t by (simp add: announces_state_event split: if_splits)
  have tx: "adds_tx (st_db s) row (st_db s2)" using row(2) wc by simp
  show ?thesis using a(3) fit
  proof (rule move_new_ok)
    assume "rejected \<noteq> None" "entry = None"
    then have n: "\<not> moves_money row" "st_db s3 = st_db s2"
      using mark(2) r b(2) by (auto simp: moves_money_def persist_movement_None)
    have "db_step (st_db s) (st_db s')"
      by (rule db_step.recorded [OF tx _ n(1) ann]) (use os(1) n(2) in simp)
    then show ?thesis using n tx os(1) ans
      by (auto simp: takes_effect_def dest!: adds_tx_fields adds_events_fields)
  next
    assume "entry = None" "rq_kind (pr_request i) = Loss"
    then have n: "\<not> moves_money row" "st_db s3 = st_db s2"
      using r b(2) by (auto simp: moves_money_def persist_movement_None)
    have "db_step (st_db s) (st_db s')"
      by (rule db_step.recorded [OF tx _ n(1) ann]) (use os(1) n(2) in simp)
    then show ?thesis using n tx os(1) ans
      by (auto simp: takes_effect_def dest!: adds_tx_fields adds_events_fields)
  next
    fix e m assume mv: "rejected = None" "entry = Some e" "rq_kind (pr_request i) \<noteq> Loss"
      "dc_direction d = Debit \<or> dc_direction d = Credit" "wallet_move (dc_direction d) (Some w0) m = Inr (e, w)"
      "mi_transaction_id m = tx" "mi_money m = rq_money (pr_request i)"
    have h: "holds (st_db s2) w0"
      by (rule holds_cong [OF _ w0(1)]) (use adds_tx_fields [OF tx] in simp)
    obtain s4 where "ledger_insert e s2 = (Inr (), s4)" "wallets_update_balance w (w_version w - 1) s4 = (Inr (), s3)"
      using persist_movement_Some [of w e s2 "()" s3] b(2) mv(2) by auto
    from pg_ports.movement [OF h mv(4,5) this] obtain er where er: "moves (st_db s2) er (st_db s3)" "lr_tx er = tx"
        "lr_wallet er = w_id w0" "lr_amount er = minor_units (rq_money (pr_request i))" "lr_direction er = dc_direction d"
        "lr_after er = minor_units (w_balance w)"
      using mv(6,7) by auto
    have n: "moves_money row" "entry_of row er" using mark(2) mv(1,3) r er by (simp_all add: moves_money_def entry_of_def)
    have "db_step (st_db s) (st_db s')" by (rule db_step.processed [OF tx er(1) os(1) n ann])
    then show ?thesis using n er tx os(1) ans bal_units
      by (auto simp: takes_effect_def dest!: adds_tx_fields adds_events_fields moves_fields)
  qed
qed

lemma process_pending_new_step:
  assumes p: "process_pending_new uc w i hash now s = (Inr (Some res), s')"
  shows "db_step (st_db s) (st_db s') \<and> takes_effect i hash dir res (st_db s) (st_db s')"
proof -
  obtain tx s0 t0 t x s1 where a: "new_id s = (Inr tx, s0)"
      "new_external_transaction (external_input_of i hash tx '''' now) = Inr t0"
      "mark_pending_reference (Some t0) now = Inr t"
      "txs_insert_pending t now (uc_pending_ttl uc) s0 = (Inr x, s1)"
    and k: "(case x of (expires, inserted) \<Rightarrow>
     if \<not> inserted then returnT None
     else bindT new_id (\<lambda>event_id.
       bindT (liftE (map_err WalletErr (new_pending_event
         \<lparr>em_event_id = event_id, em_correlation_id = pr_correlation_id i,
          em_causation_id = pr_causation_id i, em_occurred_at = now\<rparr> (Some t) expires))) (\<lambda>e.
       bindT (outbox_insert (outbox_record_of ''WagerTransaction'' e now)) (\<lambda>_.
       returnT (Some \<lparr>ps_transaction_id = wt_id t, ps_status = PendingReference, ps_failure_code = '''',
         ps_balance = zero_money, ps_expires = Some expires, ps_replay = False,
         ps_kind = rq_kind (pr_request i)\<rparr>))))) s1 = (Inr (Some res), s')"
    using p unfolding process_pending_new_def bindT_ok liftE_ok map_err_ok by blast
  obtain expires where x: "x = (expires, True)" using k by (cases x) (auto simp: returnT_ok split: if_splits)
  obtain eid s2 e where b: "new_id s1 = (Inr eid, s2)"
      "new_pending_event \<lparr>em_event_id = eid, em_correlation_id = pr_correlation_id i,
          em_causation_id = pr_causation_id i, em_occurred_at = now\<rparr> (Some t) expires = Inr e"
      "outbox_insert (outbox_record_of ''WagerTransaction'' e now) s2 = (Inr (), s')"
    and res: "res = \<lparr>ps_transaction_id = wt_id t, ps_status = PendingReference, ps_failure_code = '''',
         ps_balance = zero_money, ps_expires = Some expires, ps_replay = False, ps_kind = rq_kind (pr_request i)\<rparr>"
    using k x by (auto simp: bindT_ok liftE_ok map_err_ok returnT_ok)
  obtain row where row: "transaction_fields s0 t None = Inr row"
      "adds_tx (st_db s0) (row\<lparr>tr_next_attempt := Some (st_time s0 now), tr_expires := Some expires\<rparr>) (st_db s1)"
    using a(4) unfolding x by (rule txs_insert_pending_ok)
  let ?row = "row\<lparr>tr_next_attempt := Some (st_time s0 now), tr_expires := Some expires\<rparr>"
  have d: "st_db s0 = st_db s" "st_db s2 = st_db s1" by (rule new_id_db [OF a(1)], rule new_id_db [OF b(1)])
  have t: "t = t0\<lparr>wt_status := wt_status t, wt_failure := wt_failure t, wt_updated_at := wt_updated_at t\<rparr>"
      "wt_status t = PendingReference" "wt_failure t = ''''"
    using a(3) by (simp_all add: mark_pending_reference_def tx_transition_ok)
  have wallet: "wt_wallet_id t \<noteq> ''''"
    by (subst t(1)) (simp add: new_external_wallet [OF a(2)])
  have ans: "answer_row i hash res ?row"
    by (rule new_row_answers [OF a(2) t(1) row(1), where m = zero_money and x = "Some expires"]) (use res t in simp_all)
  from new_pending_event_SomeD [OF b(2)] obtain env da where env: "e = PendingReferenceEvent env da" "nd_wallet_id da = wt_wallet_id t"
      "ev_event_type env = PendingReferenceEventType" "ev_aggregate_id env = wt_id t" by auto
  obtain o' where o': "adds_events (st_db s2) [o'] (st_db s')" "or_aggregate_id o' = wt_id t"
      "or_event_type o' = PendingReferenceEventType"
    using outbox_insert_adds [OF b(3)] env wallet by auto
  have r: "tr_status ?row = PendingReference" "tr_id ?row = wt_id t" using row(1) t by (simp_all add: transaction_fields_ok)
  have n: "\<not> moves_money ?row" using r by (simp add: moves_money_def)
  have tx: "adds_tx (st_db s) ?row (st_db s1)" using row(2) d by simp
  have ann: "\<exists>q \<in> set [o']. announces ?row q" using o' r by (simp add: announces_def)
  have ev: "adds_events (st_db s1) [o'] (st_db s')" using o'(1) d(2) by simp
  have "db_step (st_db s) (st_db s')" by (rule db_step.recorded [OF tx ev n ann])
  then show ?thesis using ans n adds_tx_fields [OF tx] adds_events_fields [OF ev]
    unfolding takes_effect_def by (intro conjI exI [of _ ?row]) simp_all
qed

section \<open>Replays\<close>

text \<open>A replayed answer is read off the row that has the idempotency key.\<close>

definition replays_row :: "process_input \<Rightarrow> string \<Rightarrow> process_result \<Rightarrow> tx_row \<Rightarrow> bool" where
  "replays_row i hash res row \<longleftrightarrow>
     has_key (rq_provider_id (pr_request i)) (pr_key i) row \<and> tr_hash row = Some hash \<and>
     ps_transaction_id res = tr_id row \<and> ps_status res = tr_status row \<and>
     ps_failure_code res = or_empty (tr_failure row) \<and> ps_expires res = tr_expires row \<and>
     ps_replay res \<and> ps_kind res = rq_kind (pr_request i) \<and>
     (case tr_balance row of None \<Rightarrow> ps_balance res = zero_money
      | Some b \<Rightarrow> money_new b (tr_currency row) = Inr (ps_balance res))"

lemma find_existing_Inr:
  assumes "find_existing m s = (Inr q, s')"
  shows "(case q of Some x \<Rightarrow> m s = (Inr x, s') | None \<Rightarrow> m s = (Inl ErrNotFound, s'))"
proof -
  obtain r s1 where r: "m s = (r, s1)" by fastforce
  then show ?thesis using assms
    by (cases r) (auto simp: find_existing_def tryT_def returnT_def failT_def split: if_splits)
qed

lemma txs_find_existing_Inr:
  assumes "txs_find_existing P s = (Inr x, s')"
  shows "\<exists>row \<in> set (db_txs (st_db s)). P row \<and> tr_external row = Some (ex_external_id x) \<and>
     tr_key row = Some (ex_key x) \<and> tr_hash row = Some (ex_hash x) \<and> ex_id x = tr_id row \<and>
     ex_status x = tr_status row \<and> ex_failure_code x = or_empty (tr_failure row) \<and>
     ex_resulting_balance x = tr_balance row \<and> ex_currency x = tr_currency row \<and> ex_expires x = tr_expires row"
proof -
  obtain row s1 where "find_tx P s = (Inr (Some row), s1)" "decode_existing row = Inr x"
    using assms by (auto simp: txs_find_existing_def bindT_ok liftE_ok found_ok)
  then show ?thesis using find_tx_ok by (fastforce simp: decode_existing_def bindE_ok scan_ok)
qed

lemma replay_result_Inr:
  "replay_result x = Inr r \<longleftrightarrow>
     (\<exists>m. r = \<lparr>ps_transaction_id = ex_id x, ps_status = ex_status x, ps_failure_code = ex_failure_code x,
        ps_balance = m, ps_expires = ex_expires x, ps_replay = True, ps_kind = ''''\<rparr> \<and>
     (case ex_resulting_balance x of None \<Rightarrow> m = zero_money | Some b \<Rightarrow> money_new b (ex_currency x) = Inr m))"
  by (auto simp: replay_result_def Let_def split: option.splits sum.splits)

lemma lookup_existing_Some:
  assumes "lookup_existing (pr_request i) (pr_key i) hash s = (Inr (Some res), s')"
  shows "\<exists>row \<in> set (db_txs (st_db s)). replays_row i hash res row"
proof -
  let ?r = "pr_request i"
  obtain p s1 q s2 where a: "find_existing (txs_find_by_key (rq_provider_id ?r) (pr_key i)) s = (Inr p, s1)"
      "find_existing (txs_find_by_external (rq_provider_id ?r) (rq_external_id ?r)) s1 = (Inr q, s2)"
    and k: "(let c = classify_attempt \<lparr>at_key = pr_key i, at_hash = hash, at_external_id = rq_external_id ?r\<rparr>
               (to_attempt p) (to_attempt q)
     in if ad_kind c = Replay then
          (case p of None \<Rightarrow> failT Infra
           | Some x \<Rightarrow> bindT (liftE (replay_result x)) (\<lambda>res. returnT (Some (res\<lparr>ps_kind := rq_kind ?r\<rparr>))))
        else if ad_kind c = AttemptConflict then
          (case ad_error c of None \<Rightarrow> failT Infra | Some e \<Rightarrow> failT (OpErr e))
        else returnT None) s2 = (Inr (Some res), s')"
    using assms unfolding lookup_existing_def bindT_ok by blast
  obtain x where x: "p = Some x" using k by (cases p) (auto simp: Let_def failT_ok returnT_ok split: if_splits option.splits)
  have hash: "ex_hash x = hash"
    using k x by (auto simp: Let_def classify_attempt_def to_attempt_def failT_ok returnT_ok split: if_splits)
  obtain r0 where r0: "replay_result x = Inr r0" "res = r0\<lparr>ps_kind := rq_kind ?r\<rparr>"
    using k x hash by (auto simp: Let_def classify_attempt_def to_attempt_def bindT_ok liftE_ok returnT_ok)
  have "txs_find_existing (has_key (rq_provider_id ?r) (pr_key i)) s = (Inr x, s1)"
    using find_existing_Inr [OF a(1)] x by (simp add: txs_find_by_key_def)
  from txs_find_existing_Inr [OF this] obtain row where "row \<in> set (db_txs (st_db s))"
      "has_key (rq_provider_id ?r) (pr_key i) row" "tr_hash row = Some hash" "ex_id x = tr_id row"
      "ex_status x = tr_status row" "ex_failure_code x = or_empty (tr_failure row)"
      "ex_resulting_balance x = tr_balance row" "ex_currency x = tr_currency row" "ex_expires x = tr_expires row"
    using hash by blast
  then show ?thesis using r0
    by (intro bexI [of _ row]) (auto simp: replays_row_def replay_result_Inr split: option.splits)
qed

section \<open>The attempt, its transaction and its retry\<close>

text \<open>An answer is a replay that changes nothing, or the effect of a decision in one step of the ledger.\<close>

definition answered :: "process_input \<Rightarrow> string \<Rightarrow> process_result \<Rightarrow> db \<Rightarrow> db \<Rightarrow> bool" where
  "answered i hash res d d' \<longleftrightarrow>
     (d' = d \<and> (\<exists>row \<in> set (db_txs d). replays_row i hash res row)) \<or>
     (db_step d d' \<and> (\<exists>p b dec. evaluate (pr_request i) p b = Inr dec \<and>
        takes_effect i hash (dc_direction dec) res d d'))"

lemma attempt_answered:
  assumes a: "attempt uc i hash d now s = (Inr (Some res), s')"
    and d: "evaluate (pr_request i) None False = Inr d"
  shows "answered i hash res (st_db s) (st_db s')"
proof -
  let ?r = "pr_request i"
  obtain q s1 where q: "wallets_find_for_update (rq_wallet_id ?r) s = (q, s1)" by fastforce
  obtain w where w: "q = Inr w" using a q
    by (cases q) (auto simp: attempt_def Let_def tryT_def failT_ok split: if_splits)
  note find = pg_ports.find_law [OF q [unfolded w]]
  obtain c existing s2 where c: "money_currency (rq_money ?r) = Inr c" "w_currency w = c"
    and l: "lookup_existing ?r (pr_key i) hash s1 = (Inr existing, s2)"
    and k: "(case existing of
         Some answer \<Rightarrow> returnT (Some answer)
       | None \<Rightarrow>
         bindT (resolve_decision ?r d) (\<lambda>(resolved, reference).
         if dc_action resolved = WaitForReference then process_pending_new uc w i hash now
         else process_new w i hash resolved reference now)) s2 = (Inr (Some res), s')"
    using a q w by (auto simp: attempt_def Let_def tryT_def failT_ok bindT_ok liftE_ok map_err_ok split: if_splits)
  have d1: "st_db s1 = st_db s" using find by simp
  have d2: "st_db s2 = st_db s" using db_sameD [OF lookup_existing_db_same l] d1 by simp
  show ?thesis
  proof (cases existing)
    case (Some answer)
    then have "answer = res" "s' = s2" using k by (simp_all add: returnT_ok)
    then show ?thesis using lookup_existing_Some [of i hash s1 res s2] l Some d1 d2 by (simp add: answered_def)
  next
    case None
    then obtain d' ref s3 where r: "resolve_decision ?r d s2 = (Inr (d', ref), s3)"
      and k': "(if dc_action d' = WaitForReference then process_pending_new uc w i hash now
         else process_new w i hash d' ref now) s3 = (Inr (Some res), s')"
      using k by (auto simp: bindT_ok)
    from resolve_decision_ok [OF r evaluate_fits [OF d]]
    have fit: "decision_fits (rq_kind ?r) d'" and d3: "st_db s3 = st_db s"
      and src: "\<exists>p b. evaluate ?r p b = Inr d'"
      using d d2 by auto
    have "db_step (st_db s3) (st_db s') \<and> takes_effect i hash (dc_direction d') res (st_db s3) (st_db s')"
    proof (cases "dc_action d' = WaitForReference")
      case True
      then show ?thesis using process_pending_new_step k' by auto
    next
      case False
      have "currency_of (rq_money ?r) = c" using c(1) by (simp add: money_currency_ok)
      then show ?thesis using False k' fit find c(2) d3 by (intro process_new_step) auto
    qed
    then show ?thesis using src d3 unfolding answered_def by auto
  qed
qed

lemma prepare_ok:
  "prepare i = Inr p \<longleftrightarrow> is_valid_idempotency_key (pr_key i) \<and> po_input p = i \<and> po_ready p \<and>
     payload_hash (pr_request i) = Inr (po_hash p) \<and> evaluate (pr_request i) None False = Inr (po_decision p) "
  by (cases p) (auto simp: prepare_def bindE_ok map_err_ok)

lemma execute_in_tx_answered:
  assumes "execute_in_tx uc p s = (Inr res, s')" "prepare i = Inr p"
  shows "answered i (po_hash p) res (st_db s) (st_db s')"
proof -
  note prep = assms(2) [unfolded prepare_ok]
  obtain now s1 r s2 where n: "get_now s = (Inr now :: app_error + gotime, s1)"
    and a: "attempt uc i (po_hash p) (po_decision p) now s1 = (Inr r, s2)"
    and k: "(case r of None \<Rightarrow> failT ErrRetryInNewTransaction | Some answer \<Rightarrow> returnT answer) s2 = (Inr res, s')"
    using assms(1) conjunct1 [OF conjunct2 [OF conjunct2 [OF prep]]] conjunct1 [OF conjunct2 [OF prep]]
    unfolding execute_in_tx_def by (simp only: simp_thms if_False bindT_ok) blast
  obtain answer where "r = Some answer" using k by (cases r) (auto simp: failT_ok)
  then have "r = Some res" "s' = s2" using k by (simp_all add: returnT_ok)
  with attempt_answered [of uc i "po_hash p" "po_decision p" now s1 res s2] a prep get_now_db [OF n]
  show ?thesis by simp
qed

lemma run_in_new_tx_db:
  assumes "run_in_new_tx uc p s = (r, s')" "prepare i = Inr p"
  shows "(st_db s' = st_db s \<and> (\<exists>e. r = Inl e)) \<or>
     (\<exists>res. (r = Inr res \<or> r = Inl Infra) \<and> answered i (po_hash p) res (st_db s) (st_db s'))"
  using pg_uow.outcome [OF assms(1) [unfolded run_in_new_tx_def]] execute_in_tx_answered [OF _ assms(2)]
  by metis

lemma process_with_retry_db:
  assumes "process_with_retry uc p s = (r, s')" "prepare i = Inr p"
  shows "(st_db s' = st_db s \<and> (\<exists>e. r = Inl e)) \<or>
     (\<exists>res. (r = Inr res \<or> r = Inl Infra) \<and> answered i (po_hash p) res (st_db s) (st_db s'))"
proof -
  obtain r1 s1 where one: "run_in_new_tx uc p s = (r1, s1)" by fastforce
  note first = run_in_new_tx_db [OF one assms(2)]
  show ?thesis
  proof (cases "r1 = Inl ErrRetryInNewTransaction")
    case False
    then have "r = r1" "s' = s1" using assms(1) one by (auto simp: process_with_retry_def tryT_def liftE_def)
    then show ?thesis using first by simp
  next
    case True
    then have d1: "st_db s1 = st_db s" using first by auto
    obtain u s2 where ob: "observe ObserveConcurrencyConflict s1 = (Inr u :: app_error + unit, s2)" by (simp add: observe_def)
    then have d2: "st_db s2 = st_db s" using d1 by (auto simp: observe_ok)
    obtain r2 s3 where two: "run_in_new_tx uc p s2 = (r2, s3)" by fastforce
    note second = run_in_new_tx_db [OF two assms(2)]
    have "r = (if r2 = Inl ErrRetryInNewTransaction then Inl (OpErr TemporarilyUnavailable) else r2) \<and> s' = s3"
      using assms(1) one True ob two
      by (cases "r2 = Inl ErrRetryInNewTransaction")
        (simp_all add: process_with_retry_def tryT_def bindT_def liftE_def failT_def)
    then show ?thesis using second d2 by auto
  qed
qed

lemma get_now_total: "\<exists>t s'. get_now s = (Inr t, s')"
  by (cases "st_now s") (simp_all add: get_now_def)

lemma process_db:
  assumes "process uc i s = (r, s')"
  shows "(st_db s' = st_db s \<and> (\<exists>e. r = Inl e)) \<or>
     (\<exists>res hash. (r = Inr res \<or> r = Inl Infra) \<and> payload_hash (pr_request i) = Inr hash \<and>
        answered i hash res (st_db s) (st_db s'))"
proof -
  obtain t s1 where n: "get_now s = (Inr t :: app_error + gotime, s1)" using get_now_total by blast
  have d1: "st_db s1 = st_db s" by (rule get_now_db [OF n])
  show ?thesis
  proof (cases "prepare i")
    case (Inl e)
    then have "s' = s1 \<and> r = Inl e" using assms n by (auto simp: process_def bindT_def liftE_def)
    then show ?thesis using d1 by auto
  next
    case (Inr p)
    obtain r1 s2 where w: "process_with_retry uc p s1 = (r1, s2)" by fastforce
    have "st_db s' = st_db s2 \<and> r = r1"
    proof (cases r1)
      case (Inl e)
      then show ?thesis using assms n Inr w by (auto simp: process_def bindT_def liftE_def)
    next
      case r1: (Inr res)
      obtain t2 s3 where n2: "get_now s2 = (Inr t2 :: app_error + gotime, s3)" using get_now_total by blast
      obtain u s4 where m: "record_outcome (pr_channel i) res s3 = (Inr u, s4)"
        by (cases "ps_replay res") (simp_all add: record_outcome_def bindT_def observe_def returnT_def)
      have "db_same (record_outcome (pr_channel i) res)"
        unfolding record_outcome_def by (intro db_same_bindT) auto
      then have "st_db s4 = st_db s2" using db_sameD m get_now_db [OF n2] by metis
      then show ?thesis using assms n Inr w r1 n2 m by (auto simp: process_def bindT_def liftE_def returnT_def)
    qed
    then show ?thesis
      using process_with_retry_db [OF w Inr] Inr d1 prepare_ok by metis
  qed
qed
end
