(* ===== verification/PendingSteps.thy ===== *)
theory PendingSteps
  imports ProcessSteps
begin

text \<open>
  The resumption, the failure and the rescheduling of an operation that waits for its reference:
  each leaves the database as it was or settles that one row in one step of the ledger.
\<close>

section \<open>The locked row\<close>

lemma find_pending_ok:
  assumes "txs_find_pending_for_update i s = (Inr pending, s')"
  shows "\<exists>r \<in> set (db_txs (st_db s)). tr_id r = i \<and> decode_transaction r = Inr (pt_transaction pending) \<and>
     pt_attempts pending = tr_attempts r \<and> tr_expires r = Some (pt_expires pending)"
proof -
  obtain row s1 where "find_tx (\<lambda>r. tr_id r = i) s = (Inr (Some row), s1)" "tr_expires row = Some (pt_expires pending)"
      "decode_transaction row = Inr (pt_transaction pending)" "pt_attempts pending = tr_attempts row"
    using assms by (auto simp: txs_find_pending_for_update_def bindT_ok liftE_ok found_ok scan_ok returnT_ok get_world_ok)
  then show ?thesis using find_tx_ok by fastforce
qed

lemma decode_transaction_fields:
  assumes "decode_transaction r = Inr t"
  shows "wt_id t = tr_id r \<and> wt_kind t = tr_kind r \<and> wt_status t = tr_status r \<and> wt_wallet_id t = tr_wallet r \<and>
     minor_units (wt_money t) = tr_amount r \<and> currency_of (wt_money t) = tr_currency r \<and>
     tr_external r = Some (wt_external_id t) \<and> tr_provider r = Some (wt_provider_id t) \<and>
     wt_ref_external t = or_empty (tr_ref_external r) \<and> wt_ref_id t = or_empty (tr_ref_id r) \<and> tx_ok t"
  using assms by (auto simp: decode_transaction_def bindE_ok map_err_ok scan_ok rehydrate_transaction_ok money_new_ok)

text \<open>A completed row keeps its request.\<close>

lemma same_tx_complete_row [simp]: "same_tx r (complete_row w t b r)"
  by (simp add: same_tx_def complete_row_def)

lemma complete_row_status [simp]: "tr_status (complete_row w t b r) = wt_status t" "tr_id (complete_row w t b r) = tr_id r"
  "tr_kind (complete_row w t b r) = tr_kind r" "tr_wallet (complete_row w t b r) = tr_wallet r"
  "tr_amount (complete_row w t b r) = tr_amount r"
  by (simp_all add: complete_row_def)

text \<open>The row of a pending operation, before and after.\<close>

definition settles :: "string \<Rightarrow> transaction_status \<Rightarrow> db \<Rightarrow> db \<Rightarrow> bool" where
  "settles i st d d' \<longleftrightarrow> db_step d d' \<and>
     (\<exists>r \<in> set (db_txs d). tr_id r = i \<and> tr_status r = PendingReference \<and>
        (\<exists>r' \<in> set (db_txs d'). same_tx r r' \<and> tr_status r' = st))"

lemma settlesI:
  assumes "db_step d d'" "sets_pending d i f d1" "db_txs d' = db_txs d1"
    and "\<And>r. r \<in> set (db_txs d) \<Longrightarrow> same_tx r (f r) \<and> tr_status (f r) = st"
  shows "settles i st d d'"
proof -
  obtain r where r: "r \<in> set (db_txs d)" "tr_id r = i" "tr_status r = PendingReference"
    using assms(2) unfolding sets_pending_def by blast
  then have "f r \<in> set (db_txs d')" using sets_pending_fields [OF assms(2)] assms(3) by auto
  then show ?thesis using assms(1,4) r unfolding settles_def by blast
qed

section \<open>Rejecting and rescheduling\<close>

lemma reject_pending_step:
  assumes "reject_pending t w e now s = (Inr out, s')" "wt_wallet_id t \<noteq> ''''"
  shows "out = PendingRejected \<and> settles (wt_id t) Rejected (st_db s) (st_db s')"
proof -
  obtain t' s1 where a: "mark_rejected (Some t) (err_code e) now = Inr t'"
      "txs_complete_pending (Some t') (Some (minor_units (w_balance w))) s = (Inr (), s1)"
      "write_outbox_events t' w None (wt_id t') (wt_id t') now s1 = (Inr (), s')" "out = PendingRejected"
    using assms(1) by (auto simp: reject_pending_def bindT_ok liftE_ok map_err_ok returnT_ok minor_units_ok)
  have t': "wt_status t' = Rejected" "wt_id t' = wt_id t" "wt_wallet_id t' \<noteq> ''''" using a(1) assms(2) by (auto simp: mark_rejected_def tx_transition_ok)
  obtain wd where sp: "sets_pending (st_db s) (wt_id t) (complete_row wd t' (Some (minor_units (w_balance w)))) (st_db s1)"
    using txs_complete_pending_ok [OF a(2)] t' by auto
  obtain os where os: "adds_events (st_db s1) os (st_db s')"
      "wt_status t' \<noteq> Failed \<Longrightarrow> \<exists>o' \<in> set os. or_aggregate_id o' = wt_id t' \<and> or_event_type o' = state_event (wt_status t')"
    by (rule write_outbox_events_ok [OF a(3) t'(3)]) blast
  have "db_step (st_db s) (st_db s')"
    by (rule db_step.settled [OF sp os(1)])
       (use os(2) t' in \<open>auto simp: moves_money_def announces_state_event\<close>)
  then show ?thesis using a(4) t' adds_events_fields [OF os(1)]
    by (auto intro!: settlesI [OF _ sp])
qed

lemma reschedule_step:
  assumes "txs_reschedule_pending i n delay s = (Inr u, s')"
  shows "settles i PendingReference (st_db s) (st_db s')"
proof -
  obtain t t' where sp: "sets_pending (st_db s) i
      (\<lambda>r. if tr_status r = PendingReference then r\<lparr>tr_attempts := n, tr_next_attempt := Some t, tr_updated := t'\<rparr>
           else r\<lparr>tr_status := PendingReference\<rparr>) (st_db s')"
    using txs_reschedule_pending_ok [OF assms] by (auto simp: sets_pending_def cong: if_cong)
  have "db_step (st_db s) (st_db s')"
    by (rule db_step.settled [OF sp, where os = "[]"])
       (auto simp: adds_events_Nil same_tx_def moves_money_def)
  then show ?thesis by (rule settlesI [OF _ sp]) (auto simp: same_tx_def)
qed

section \<open>Processing\<close>

lemma process_pending_step:
  assumes p: "process_pending t w d now s = (Inr out, s')" and wallet: "wt_wallet_id t \<noteq> ''''"
    and dir: "dc_direction d = Debit \<or> dc_direction d = Credit"
    and w: "holds (st_db s) w"
    and row: "\<And>r. r \<in> set (db_txs (st_db s)) \<Longrightarrow> tr_id r = wt_id t \<Longrightarrow>
        tr_wallet r = w_id w \<and> tr_kind r \<noteq> Loss \<and> tr_amount r = minor_units (wt_money t)"
  shows "(out = PendingProcessed \<and> settles (wt_id t) Processed (st_db s) (st_db s')) \<or>
     (out = PendingRejected \<and> settles (wt_id t) Rejected (st_db s) (st_db s'))"
proof -
  let ?m = "\<lambda>i. \<lparr>mi_ledger_entry_id = i, mi_transaction_id = wt_id t, mi_money = wt_money t, mi_occurred_at = now\<rparr>"
  obtain i s1 where i: "new_id s = (Inr i, s1)"
    and k: "(case (if dc_direction d = Debit then wallet_debit (Some w) (?m i) else wallet_credit (Some w) (?m i)) of
       Inl e \<Rightarrow> if e = ErrInsufficientFunds then reject_pending t w (insufficient_funds_for (wt_kind t)) now
                else failT (WalletErr e)
     | Inr (entry, w') \<Rightarrow>
       bindT (liftE (map_err WalletErr (mark_processed (Some t) now))) (\<lambda>t'.
       bindT (liftE (map_err MoneyErr (money_minor_units (w_balance w')))) (\<lambda>balance.
       bindT (txs_complete_pending (Some t') (Some balance)) (\<lambda>_.
       bindT (ledger_insert entry) (\<lambda>_.
       bindT (wallets_update_balance w' (w_version w' - 1)) (\<lambda>_.
       bindT (write_outbox_events t' w' (Some entry) (wt_id t') (wt_id t') now) (\<lambda>_.
       returnT PendingProcessed))))))) s1 = (Inr out, s')"
    using p by (auto simp: process_pending_def bindT_ok Let_def)
  have d1: "st_db s1 = st_db s" by (rule new_id_db [OF i])
  have move: "(if dc_direction d = Debit then wallet_debit (Some w) (?m i) else wallet_credit (Some w) (?m i)) =
      wallet_move (dc_direction d) (Some w) (?m i)"
    using dir by (auto simp: wallet_debit_def wallet_credit_def)
  show ?thesis
  proof (cases "wallet_move (dc_direction d) (Some w) (?m i)")
    case (Inl e)
    then have "reject_pending t w (insufficient_funds_for (wt_kind t)) now s1 = (Inr out, s')"
      using k move by (auto simp: failT_ok split: if_splits)
    from reject_pending_step [OF this wallet] show ?thesis using d1 by simp
  next
    case (Inr q)
    then obtain entry w' where q: "wallet_move (dc_direction d) (Some w) (?m i) = Inr (entry, w')" by (cases q) simp
    then obtain t' s2 s3 s4 where a: "mark_processed (Some t) now = Inr t'"
        "txs_complete_pending (Some t') (Some (minor_units (w_balance w'))) s1 = (Inr (), s2)"
        "ledger_insert entry s2 = (Inr (), s3)" "wallets_update_balance w' (w_version w' - 1) s3 = (Inr (), s4)"
        "write_outbox_events t' w' (Some entry) (wt_id t') (wt_id t') now s4 = (Inr (), s')" "out = PendingProcessed"
      using k move by (auto simp: bindT_ok liftE_ok map_err_ok returnT_ok minor_units_ok)
    have t': "wt_status t' = Processed" "wt_id t' = wt_id t" "wt_wallet_id t' \<noteq> ''''" using a(1) wallet by (auto simp: mark_processed_def tx_transition_ok)
    obtain wd where sp: "sets_pending (st_db s) (wt_id t) (complete_row wd t' (Some (minor_units (w_balance w')))) (st_db s2)"
      using txs_complete_pending_ok [OF a(2)] t' d1 by auto
    have h: "holds (st_db s2) w" by (rule holds_cong [OF _ w]) (use sets_pending_fields [OF sp] in simp)
    from pg_ports.movement [OF h dir q a(3,4)] obtain e where e: "moves (st_db s2) e (st_db s4)" "lr_tx e = wt_id t"
        "lr_wallet e = w_id w" "lr_amount e = minor_units (wt_money t)" by auto
    obtain os where os: "adds_events (st_db s4) os (st_db s')"
        "wt_status t' \<noteq> Failed \<Longrightarrow> \<exists>o' \<in> set os. or_aggregate_id o' = wt_id t' \<and> or_event_type o' = state_event (wt_status t')"
      by (rule write_outbox_events_ok [OF a(5) t'(3)]) blast
    have "db_step (st_db s) (st_db s')"
      by (rule db_step.settled_processed [OF sp e(1) os(1)])
         (use row os(2) t' e in \<open>auto simp: moves_money_def entry_of_def announces_state_event\<close>)
    moreover have "db_txs (st_db s') = db_txs (st_db s2)"
      using adds_events_fields [OF os(1)] moves_fields [OF e(1)] by simp
    ultimately show ?thesis using a(6) t' by (auto intro!: settlesI [OF _ sp])
  qed
qed

section \<open>Resuming\<close>

definition resumed :: "string \<Rightarrow> resume_outcome \<Rightarrow> db \<Rightarrow> db \<Rightarrow> bool" where
  "resumed i out d d' \<longleftrightarrow> (out = '''' \<and> d' = d) \<or> (out = PendingProcessed \<and> settles i Processed d d') \<or>
     (out = PendingRejected \<and> settles i Rejected d d') \<or> (out = PendingRescheduled \<and> settles i PendingReference d d')"

text \<open>The wallet a pending operation is resumed with is the one of its row.\<close>

definition claims :: "db \<Rightarrow> string \<Rightarrow> string \<Rightarrow> bool" where
  "claims d i w \<longleftrightarrow> (\<forall>r \<in> set (db_txs d). tr_id r = i \<longrightarrow> tr_wallet r = w)"

lemma resume_decided_step:
  assumes r: "resume_decided settings pending w d ref now s = (Inr out, s')"
    and fit: "decision_fits (wt_kind (pt_transaction pending)) d" "wt_kind (pt_transaction pending) \<noteq> Loss"
    and wallet: "wt_wallet_id (pt_transaction pending) \<noteq> ''''"
    and w: "holds (st_db s) w"
    and row: "\<And>r. r \<in> set (db_txs (st_db s)) \<Longrightarrow> tr_id r = wt_id (pt_transaction pending) \<Longrightarrow>
        tr_wallet r = w_id w \<and> tr_kind r \<noteq> Loss \<and> tr_amount r = minor_units (wt_money (pt_transaction pending))"
  shows "resumed (wt_id (pt_transaction pending)) out (st_db s) (st_db s')"
proof -
  let ?t = "pt_transaction pending"
  consider (rej) "dc_action d = Reject" | (proc) "dc_action d = Process" | (wait) "dc_action d = WaitForReference"
    using fit(1) by (auto simp: decision_fits_def)
  then show ?thesis
  proof cases
    case rej
    then obtain t' e s1 where a: "(case ref of None \<Rightarrow> returnT ?t
         | Some f \<Rightarrow> liftE (map_err WalletErr (resolve_reference (Some ?t) (wt_id f)))) s = (Inr t', s1)"
        "reject_pending t' w e now s1 = (Inr out, s')"
      using r by (auto simp: resume_decided_def Let_def bindT_ok failT_ok split: option.splits)
    have "s1 = s \<and> wt_id t' = wt_id ?t \<and> wt_wallet_id t' = wt_wallet_id ?t"
      using a(1) by (cases ref) (auto simp: returnT_ok liftE_ok map_err_ok resolve_reference_ok)
    then show ?thesis using reject_pending_step [OF a(2)] wallet by (auto simp: resumed_def)
  next
    case proc
    then obtain f :: wager_transaction and t' where a: "resolve_reference (Some ?t) (wt_id f) = Inr t'" "process_pending t' w d now s = (Inr out, s')"
      using r by (auto simp: resume_decided_def Let_def bindT_ok liftE_ok map_err_ok failT_ok split: option.splits)
    have t': "wt_id t' = wt_id ?t" "wt_money t' = wt_money ?t" "wt_wallet_id t' \<noteq> ''''" using a(1) wallet by (auto simp: resolve_reference_ok)
    have "dc_direction d = Debit \<or> dc_direction d = Credit" using fit proc by (auto simp: decision_fits_def)
    from process_pending_step [OF a(2) t'(3) this w] row t' show ?thesis by (auto simp: resumed_def)
  next
    case wait
    show ?thesis
    proof (cases "pt_expired pending \<or> (0 < rs_max_attempts settings \<and> rs_max_attempts settings \<le> pt_attempts pending)")
      case True
      obtain q s1 where q: "txs_find_reference (wt_provider_id ?t) (wt_ref_external ?t) s = (q, s1)" by fastforce
      have d1: "st_db s1 = st_db s" using db_sameD [OF reads_db_same(2) q] by simp
      obtain t' e where t': "wt_id t' = wt_id ?t" "reject_pending t' w e now s1 = (Inr out, s')" "wt_wallet_id t' \<noteq> ''''"
      proof (cases q)
        case (Inl x)
        then show thesis using r wait True q wallet that [of ?t]
          by (auto simp: resume_decided_def Let_def tryT_def failT_ok split: if_splits)
      next
        case (Inr f)
        then obtain t' where "resolve_reference (Some ?t) (wt_id f) = Inr t'"
            "reject_pending t' w ReferenceNotProcessed now s1 = (Inr out, s')"
          using r wait True q by (auto simp: resume_decided_def Let_def tryT_def bindT_ok liftE_ok map_err_ok)
        then show thesis using wallet that [of t'] by (auto simp: resolve_reference_ok)
      qed
      show ?thesis using reject_pending_step [OF t'(2,3)] t'(1) d1 by (auto simp: resumed_def)
    next
      case False
      then obtain u where u: "txs_reschedule_pending (wt_id ?t) (pt_attempts pending + 1) (rs_retry_delay settings) s = (Inr u, s')"
          "out = PendingRescheduled"
        using r wait by (auto simp: resume_decided_def Let_def bindT_ok returnT_ok)
      then show ?thesis using reschedule_step [OF u(1)] by (auto simp: resumed_def)
    qed
  qed
qed

lemma same_id_same_row:
  "txs_ok d \<Longrightarrow> r \<in> set (db_txs d) \<Longrightarrow> q \<in> set (db_txs d) \<Longrightarrow> tr_id r = tr_id q \<Longrightarrow> r = q"
  by (rule tx_rows_unique) (auto simp: tx_conflict_def)

lemma resume_body_step:
  assumes r: "resume_body i wi settings s = (Inr out, s')" and ok: "txs_ok (st_db s)" "claims (st_db s) i wi"
  shows "resumed i out (st_db s) (st_db s')"
proof -
  obtain now s1 w s2 where a: "get_now s = (Inr now :: app_error + gotime, s1)" "wallets_find_for_update wi s1 = (Inr w, s2)"
    and k: "tryT (txs_find_pending_for_update i) (\<lambda>res. case res of
       Inl e \<Rightarrow> if e = ErrNotFound then returnT '''' else failT e
     | Inr pending \<Rightarrow>
       let t = pt_transaction pending in
       if wt_status t \<noteq> PendingReference then returnT ''''
       else
         bindT (liftE (map_err OpErr (evaluate (pending_request t) None False))) (\<lambda>d0.
         bindT (resolve_decision (pending_request t) d0) (\<lambda>(d, reference).
         resume_decided settings pending w d reference now))) s2 = (Inr out, s')"
    using r unfolding resume_body_def bindT_ok by blast
  note find = pg_ports.find_law [OF a(2)]
  have d2: "st_db s2 = st_db s" using find get_now_db [OF a(1)] by simp
  obtain q s3 where q: "txs_find_pending_for_update i s2 = (q, s3)" by fastforce
  have d3: "st_db s3 = st_db s" using db_sameD [OF reads_db_same(4) q] d2 by simp
  show ?thesis
  proof (cases q)
    case (Inl e)
    then show ?thesis using k q d3 by (auto simp: tryT_def failT_ok returnT_ok resumed_def split: if_splits)
  next
    case (Inr pending)
    let ?t = "pt_transaction pending"
    have k': "(if wt_status ?t \<noteq> PendingReference then returnT ''''
       else
         bindT (liftE (map_err OpErr (evaluate (pending_request ?t) None False))) (\<lambda>d0.
         bindT (resolve_decision (pending_request ?t) d0) (\<lambda>(d, reference).
         resume_decided settings pending w d reference now))) s3 = (Inr out, s')"
      using k q Inr by (simp add: tryT_def Let_def)
    show ?thesis
    proof (cases "wt_status ?t = PendingReference")
      case False
      then show ?thesis using k' d3 by (simp add: returnT_ok resumed_def)
    next
      case True
      then obtain d0 d ref s4 where b: "evaluate (pending_request ?t) None False = Inr d0"
          "resolve_decision (pending_request ?t) d0 s3 = (Inr (d, ref), s4)"
          "resume_decided settings pending w d ref now s4 = (Inr out, s')"
        using k' by (auto simp: bindT_ok liftE_ok map_err_ok)
      have kind: "rq_kind (pending_request ?t) = wt_kind ?t" "rq_reference (pending_request ?t) \<noteq> None"
        by (simp_all add: pending_request_def)
      have fit: "decision_fits (wt_kind ?t) d" "st_db s4 = st_db s"
        using resolve_decision_ok [OF b(2) evaluate_fits [OF b(1)]] d3 kind by simp_all
      have loss: "wt_kind ?t \<noteq> Loss" using evaluate_loss [OF b(1)] kind by auto
      obtain row where row: "row \<in> set (db_txs (st_db s))" "tr_id row = i" "decode_transaction row = Inr ?t"
        using find_pending_ok q Inr d2 by fastforce
      note f = decode_transaction_fields [OF row(3)]
      have "resumed (wt_id ?t) out (st_db s4) (st_db s')"
      proof (rule resume_decided_step [OF b(3) fit(1) loss])
        show "wt_wallet_id ?t \<noteq> ''''" using f unfolding tx_ok_def by metis
        show "holds (st_db s4) w" using find fit(2) get_now_db [OF a(1)] by simp
        show "tr_wallet r = w_id w \<and> tr_kind r \<noteq> Loss \<and> tr_amount r = minor_units (wt_money ?t)"
          if "r \<in> set (db_txs (st_db s4))" "tr_id r = wt_id ?t" for r
        proof -
          have "r = row" by (rule same_id_same_row [OF ok(1)]) (use that fit(2) f row in simp_all)
          then show ?thesis using f loss row ok(2) find by (simp add: claims_def)
        qed
      qed
      then show ?thesis using f row(2) fit(2) by simp
    qed
  qed
qed

lemma resume_pending_db:
  assumes "resume_pending i wi settings s = (r, s')" "txs_ok (st_db s)" "claims (st_db s) i wi"
  shows "(st_db s' = st_db s \<and> (\<exists>e. r = Inl e)) \<or> (\<exists>out. (r = Inr out \<or> r = Inl Infra) \<and> resumed i out (st_db s) (st_db s'))"
  using pg_uow.outcome [OF assms(1) [unfolded resume_pending_def]] resume_body_step assms(2,3) by metis

section \<open>Failing and rescheduling after a failure\<close>

lemma locked_pending_step:
  assumes "tryT (txs_find_pending_for_update i) (\<lambda>res. case res of
       Inl e \<Rightarrow> if e = ErrNotFound then returnT () else failT e
     | Inr pending \<Rightarrow> if wt_status (pt_transaction pending) \<noteq> PendingReference then returnT () else k pending) s = (Inr u, s')"
    and "\<And>pending s1. st_db s1 = st_db s \<Longrightarrow> wt_id (pt_transaction pending) = i \<Longrightarrow> k pending s1 = (Inr u, s') \<Longrightarrow>
        settles i st (st_db s) (st_db s')"
  shows "st_db s' = st_db s \<or> settles i st (st_db s) (st_db s')"
proof -
  obtain q s1 where q: "txs_find_pending_for_update i s = (q, s1)" by fastforce
  have d1: "st_db s1 = st_db s" using db_sameD [OF reads_db_same(4) q] by simp
  show ?thesis
  proof (cases q)
    case (Inl e)
    then show ?thesis using assms(1) q d1 by (auto simp: tryT_def failT_ok returnT_ok split: if_splits)
  next
    case (Inr pending)
    have "wt_id (pt_transaction pending) = i"
      using find_pending_ok q Inr decode_transaction_fields by blast
    then show ?thesis using assms(1) q Inr d1 assms(2) [of s1 pending]
      by (auto simp: tryT_def returnT_ok split: if_splits)
  qed
qed

lemma fail_pending_db:
  assumes "fail_pending i wi s = (r, s')"
  shows "st_db s' = st_db s \<or> settles i Failed (st_db s) (st_db s')"
proof -
  let ?R = "\<lambda>d d'. d' = d \<or> settles i Failed d d'"
  have "st_db s' = st_db s \<or> ?R (st_db s) (st_db s')"
  proof (rule pg_uow.refines [OF _ assms [unfolded fail_pending_def]])
  fix s1 u s2
  assume d: "st_db s1 = st_db s" and b: "bindT get_now (\<lambda>now.
     bindT (wallets_find_for_update wi) (\<lambda>_.
     tryT (txs_find_pending_for_update i) (\<lambda>res. case res of
       Inl e \<Rightarrow> if e = ErrNotFound then returnT () else failT e
     | Inr pending \<Rightarrow>
       let t = pt_transaction pending in
       if wt_status t \<noteq> PendingReference then returnT ()
       else bindT (liftE (map_err WalletErr (mark_failed (Some t) (err_code PermanentProcessingFailure) now))) (\<lambda>t'.
         txs_complete_pending (Some t') None)))) s1 = (Inr u, s2)"
  then obtain now w s3 s4 where a: "get_now s1 = (Inr now :: app_error + gotime, s3)" "wallets_find_for_update wi s3 = (Inr w, s4)"
    and k: "tryT (txs_find_pending_for_update i) (\<lambda>res. case res of
       Inl e \<Rightarrow> if e = ErrNotFound then returnT () else failT e
     | Inr pending \<Rightarrow> if wt_status (pt_transaction pending) \<noteq> PendingReference then returnT ()
       else bindT (liftE (map_err WalletErr (mark_failed (Some (pt_transaction pending)) (err_code PermanentProcessingFailure) now)))
         (\<lambda>t'. txs_complete_pending (Some t') None)) s4 = (Inr u, s2)"
    unfolding bindT_ok Let_def by blast
  have d4: "st_db s4 = st_db s" using pg_ports.find_law [OF a(2)] get_now_db [OF a(1)] d by simp
  have "st_db s2 = st_db s4 \<or> settles i Failed (st_db s4) (st_db s2)" using k
  proof (rule locked_pending_step)
    fix pending s5
    assume s5: "st_db s5 = st_db s4" "wt_id (pt_transaction pending) = i"
      "bindT (liftE (map_err WalletErr (mark_failed (Some (pt_transaction pending)) (err_code PermanentProcessingFailure) now)))
         (\<lambda>t'. txs_complete_pending (Some t') None) s5 = (Inr u, s2)"
    then obtain t' where t': "mark_failed (Some (pt_transaction pending)) (err_code PermanentProcessingFailure) now = Inr t'"
        "txs_complete_pending (Some t') None s5 = (Inr u, s2)"
      by (auto simp: bindT_ok liftE_ok map_err_ok)
    have st: "wt_status t' = Failed" "wt_id t' = i" using t'(1) s5(2) by (auto simp: mark_failed_def tx_transition_ok)
    obtain wd where sp: "sets_pending (st_db s4) i (complete_row wd t' None) (st_db s2)"
      using txs_complete_pending_ok [OF t'(2)] st s5(1) by auto
    have "db_step (st_db s4) (st_db s2)"
      by (rule db_step.settled [OF sp, where os = "[]"]) (auto simp: adds_events_Nil moves_money_def st)
    then show "settles i Failed (st_db s4) (st_db s2)" by (rule settlesI [OF _ sp]) (simp_all add: st)
  qed
  then show "?R (st_db s) (st_db s2)" using d4 by simp
  qed
  then show ?thesis by simp
qed

lemma reschedule_after_failure_db:
  assumes "reschedule_pending_after_failure i wi delay s = (r, s')"
  shows "st_db s' = st_db s \<or> settles i PendingReference (st_db s) (st_db s')"
proof -
  let ?R = "\<lambda>d d'. d' = d \<or> settles i PendingReference d d'"
  have "st_db s' = st_db s \<or> ?R (st_db s) (st_db s')"
  proof (rule pg_uow.refines [OF _ assms [unfolded reschedule_pending_after_failure_def]])
  fix s1 u s2
  assume d: "st_db s1 = st_db s" and b: "bindT (wallets_find_for_update wi) (\<lambda>_.
     tryT (txs_find_pending_for_update i) (\<lambda>res. case res of
       Inl e \<Rightarrow> if e = ErrNotFound then returnT () else failT e
     | Inr pending \<Rightarrow>
       if wt_status (pt_transaction pending) \<noteq> PendingReference then returnT ()
       else txs_reschedule_pending i (pt_attempts pending + 1) delay)) s1 = (Inr u, s2)"
  then obtain w s4 where a: "wallets_find_for_update wi s1 = (Inr w, s4)"
    and k: "tryT (txs_find_pending_for_update i) (\<lambda>res. case res of
       Inl e \<Rightarrow> if e = ErrNotFound then returnT () else failT e
     | Inr pending \<Rightarrow>
       if wt_status (pt_transaction pending) \<noteq> PendingReference then returnT ()
       else txs_reschedule_pending i (pt_attempts pending + 1) delay) s4 = (Inr u, s2)"
    unfolding bindT_ok by blast
  have d4: "st_db s4 = st_db s" using pg_ports.find_law [OF a] d by simp
  have "st_db s2 = st_db s4 \<or> settles i PendingReference (st_db s4) (st_db s2)" using k
  proof (rule locked_pending_step)
    show "settles i PendingReference (st_db s4) (st_db s2)"
      if "st_db s5 = st_db s4" "txs_reschedule_pending i (pt_attempts pending + 1) delay s5 = (Inr u, s2)" for pending s5
      using reschedule_step [OF that(2)] that(1) by simp
  qed
  then show "?R (st_db s) (st_db s2)" using d4 by simp
  qed
  then show ?thesis by simp
qed

section \<open>At the limit\<close>

lemma reject_pending_outcome: "reject_pending t w e now s = (Inr out, s') \<Longrightarrow> out = PendingRejected"
  by (auto simp: reject_pending_def bindT_ok returnT_ok)

lemma process_pending_outcome: "process_pending t w d now s = (Inr out, s') \<Longrightarrow> out \<noteq> PendingRescheduled"
  unfolding process_pending_def Let_def
  by (auto simp: bindT_ok returnT_ok tryT_def failT_ok liftE_ok dest: reject_pending_outcome split: if_splits sum.splits option.splits prod.splits)

lemma resume_decided_rescheduled:
  assumes "resume_decided settings pending w d ref now s = (Inr PendingRescheduled, s')"
  shows "\<not> pt_expired pending \<and> \<not> (0 < rs_max_attempts settings \<and> rs_max_attempts settings \<le> pt_attempts pending)"
  using assms unfolding resume_decided_def Let_def
  by (auto simp: bindT_ok returnT_ok tryT_def failT_ok liftE_ok dest: reject_pending_outcome process_pending_outcome
      split: if_splits sum.splits option.splits prod.splits)

lemma resume_rescheduled:
  assumes "resume_pending i wi settings s = (Inr PendingRescheduled, s')" "txs_ok (st_db s)"
    "r \<in> set (db_txs (st_db s))" "tr_id r = i"
  shows "\<not> (0 < rs_max_attempts settings \<and> rs_max_attempts settings \<le> tr_attempts r)"
proof -
  obtain s0 s1 where "resume_body i wi settings s0 = (Inr PendingRescheduled, s1)" and d0: "st_db s0 = st_db s"
    using assms(1) unfolding resume_pending_def by (rule within_tx_ok) blast
  then obtain now w s2 s3 where a: "get_now s0 = (Inr now :: app_error + gotime, s2)"
      "wallets_find_for_update wi s2 = (Inr w, s3)"
    and k: "tryT (txs_find_pending_for_update i) (\<lambda>res. case res of
       Inl e \<Rightarrow> if e = ErrNotFound then returnT '''' else failT e
     | Inr pending \<Rightarrow>
       let t = pt_transaction pending in
       if wt_status t \<noteq> PendingReference then returnT ''''
       else
         bindT (liftE (map_err OpErr (evaluate (pending_request t) None False))) (\<lambda>d0.
         bindT (resolve_decision (pending_request t) d0) (\<lambda>(d, reference).
         resume_decided settings pending w d reference now))) s3 = (Inr PendingRescheduled, s1)"
    unfolding resume_body_def bindT_ok by blast
  have d3: "st_db s3 = st_db s" using pg_ports.find_law [OF a(2)] get_now_db [OF a(1)] d0 by simp
  obtain q s4 where q: "txs_find_pending_for_update i s3 = (q, s4)" by fastforce
  then obtain pending where p: "q = Inr pending" using k
    by (cases q) (auto simp: tryT_def failT_ok returnT_ok split: if_splits)
  then obtain d ref now s5 where
      "resume_decided settings pending w d ref now s5 = (Inr PendingRescheduled, s1)"
    using k q by (auto simp: tryT_def Let_def bindT_ok returnT_ok split: if_splits prod.splits)
  from resume_decided_rescheduled [OF this]
  have "\<not> (0 < rs_max_attempts settings \<and> rs_max_attempts settings \<le> pt_attempts pending)" by simp
  moreover obtain row where "row \<in> set (db_txs (st_db s))" "tr_id row = i" "pt_attempts pending = tr_attempts row"
    using find_pending_ok q p d3 by fastforce
  ultimately show ?thesis using same_id_same_row [OF assms(2), of row r] assms(3,4) by simp
qed
end
