(* ===== verification/WorkerSteps.thy ===== *)
theory WorkerSteps
  imports ReferenceWorker PendingSteps
begin

text \<open>
  A batch of the worker is a sequence of steps of the ledger; a fault never marks an operation as
  failed, and an operation at its limit is not put off again.
\<close>

section \<open>Claimed rows\<close>

text \<open>The row a claim names, which no step takes away.\<close>

definition tracked :: "db \<Rightarrow> worker_record \<Rightarrow> bool" where
  "tracked d rec \<longleftrightarrow> (\<exists>r \<in> set (db_txs d). tr_id r = rk_transaction_id rec \<and> tr_wallet r = rk_wallet_id rec)"

lemma tracked_claims: "tracked d rec \<Longrightarrow> txs_ok d \<Longrightarrow> claims d (rk_transaction_id rec) (rk_wallet_id rec)"
  unfolding tracked_def claims_def by (metis same_id_same_row)

lemma tracked_preserved: "tracked d rec \<Longrightarrow> preserved d d' \<Longrightarrow> tracked d' rec"
  unfolding tracked_def preserved_def using same_tx_id by metis

lemma claim_leases:
  assumes "sql_claim_pending batch lease s = Inr (d, recs)"
  shows "(\<exists>g. leases (st_db s) g d) \<and> (\<forall>rec \<in> set recs. tracked d rec)"
proof -
  let ?hit = "\<lambda>r. tr_status r = PendingReference \<and> List.member (ready_ids batch s) (tr_id r)"
  let ?g = "\<lambda>r. if ?hit r then Some (time_add (st_pg_now s) lease) else tr_next_attempt r"
  have d: "d = (st_db s)\<lparr>db_txs := map (\<lambda>r. r\<lparr>tr_next_attempt := ?g r\<rparr>) (db_txs (st_db s))\<rparr>"
    using assms by (auto simp: sql_claim_pending_def Let_def)
  have l: "leases (st_db s) ?g d" unfolding leases_def using d by simp
  have "tracked (st_db s) rec" if "rec \<in> set recs" for rec
  proof -
    obtain x where "x \<in> set (db_txs (st_db s))"
        "rec = \<lparr>rk_transaction_id = tr_id x, rk_wallet_id = tr_wallet x, rk_attempts = tr_attempts x\<rparr>"
      using assms \<open>rec \<in> set recs\<close> by (auto simp: sql_claim_pending_def Let_def)
    then show ?thesis unfolding tracked_def by (intro bexI [of _ x]) simp_all
  qed
  then show ?thesis using l tracked_preserved [OF _ aside_preserved(2) [OF l]] by blast
qed

lemma worker_claim_steps:
  assumes "worker_claim batch lease s = (r, s')"
  shows "db_step\<^sup>*\<^sup>* (st_db s) (st_db s') \<and> (\<forall>recs. r = Inr recs \<longrightarrow> (\<forall>rec \<in> set recs. tracked (st_db s') rec))"
proof -
  have body: "db_step (st_db s1) (st_db s2) \<and> (\<forall>rec \<in> set recs. tracked (st_db s2) rec)"
    if "execute (sql_claim_pending batch lease) s1 = (Inr recs, s2)" for s1 recs s2
  proof -
    obtain s3 d where e: "next_tick s1 = (Quiet, s3)" "sql_claim_pending batch lease s3 = Inr (d, recs)" "s2 = s3\<lparr>st_db := d\<rparr>"
      using \<open>execute _ s1 = _\<close> by (auto simp: execute_ok)
    from claim_leases [OF e(2)] show ?thesis
      using e(3) next_tick_ok [OF e(1)] by (auto intro: db_step.leased)
  qed
  from pg_uow.outcome [OF assms [unfolded worker_claim_def]]
  consider "st_db s' = st_db s" "\<exists>e. r = Inl e"
    | s1 s2 x where "st_db s1 = st_db s" "execute (sql_claim_pending batch lease) s1 = (Inr x, s2)" "st_db s' = st_db s2"
      "r = Inr x \<or> r = Inl Infra" by blast
  then show ?thesis
  proof cases
    case 1
    then show ?thesis by auto
  next
    case 2
    with body [OF 2(2)] show ?thesis by auto
  qed
qed

section \<open>One record\<close>

lemma worker_jitter_ok: "worker_jitter w delay s = (Inr x, s') \<longleftrightarrow> x = jitter delay (wk_random w s) \<and> s' = s"
  by (auto simp: worker_jitter_def)

lemma resumed_steps: "resumed i out d d' \<Longrightarrow> db_step\<^sup>*\<^sup>* d d'"
  by (auto simp: resumed_def settles_def)

lemma counted_db_same: "db_same (bindT (observe (Count c)) (\<lambda>_. returnT True))"
  by (intro db_same_bindT) auto

lemma ctx_err_total: "\<exists>b s'. ctx_err s = (Inr b, s')"
  by (cases "st_stopped s") (auto simp: ctx_err_def)

lemma after_failure_db:
  assumes "after_failure w rec e s = (r, s')"
  shows "st_db s' = st_db s \<or> settles (rk_transaction_id rec) (if worker_permanent e then Failed else PendingReference) (st_db s) (st_db s')"
proof -
  obtain stopped s1 where c: "ctx_err s = (Inr stopped :: app_error + bool, s1)"
    using ctx_err_total by blast
  have d1: "st_db s1 = st_db s" using c by (auto simp: ctx_err_def split: list.splits)
  have tail: "st_db s3 = st_db s2" if "(case res' of Inl _ \<Rightarrow> returnT True
      | Inr _ \<Rightarrow> bindT (observe (Count m)) (\<lambda>_. returnT True)) s2 = (r, s3)"
    for res' :: "app_error + unit" and m s2 s3
    using that db_sameD [OF counted_db_same] by (cases res') (auto simp: returnT_def)
  show ?thesis
  proof (cases stopped)
    case True
    then show ?thesis using assms c d1 by (simp add: after_failure_def Let_def bindT_def returnT_def)
  next
    case go: False
    show ?thesis
    proof (cases "worker_permanent e")
      case True
      obtain q s2 where q: "fail_pending (rk_transaction_id rec) (rk_wallet_id rec) s1 = (q, s2)" by fastforce
      have "(case q of Inl _ \<Rightarrow> returnT True
          | Inr _ \<Rightarrow> bindT (observe (Count ''pending_reference_failures_total'')) (\<lambda>_. returnT True)) s2 = (r, s')"
        using assms c go True q by (simp add: after_failure_def Let_def bindT_def tryT_def)
      from tail [OF this] show ?thesis using fail_pending_db [OF q] True d1 by simp
    next
      case False
      let ?delay = "jitter (exponential (rk_attempts rec) (wk_retry_base w) (wk_retry_max w)) (wk_random w s1)"
      obtain q s2 where q: "reschedule_pending_after_failure (rk_transaction_id rec) (rk_wallet_id rec) ?delay s1 = (q, s2)"
        by fastforce
      have "(case q of Inl _ \<Rightarrow> returnT True
          | Inr _ \<Rightarrow> bindT (observe (Count ''pending_reference_retries_total'')) (\<lambda>_. returnT True)) s2 = (r, s')"
        using assms c go False q by (simp add: after_failure_def Let_def bindT_def tryT_def worker_jitter_def)
      from tail [OF this] show ?thesis using reschedule_after_failure_db [OF q] False d1 by simp
    qed
  qed
qed

lemma process_record_db:
  assumes "process_record w rec s = (r, s')"
  obtains res s1 where "resume_pending (rk_transaction_id rec) (rk_wallet_id rec)
      \<lparr>rs_max_attempts = wk_max_attempts w,
       rs_retry_delay = jitter (exponential (rk_attempts rec) (wk_retry_base w) (wk_retry_max w)) (wk_random w s)\<rparr> s = (res, s1)"
    "\<And>out. res = Inr out \<Longrightarrow> st_db s' = st_db s1"
    "\<And>e. res = Inl e \<Longrightarrow> st_db s' = st_db s1 \<or>
       settles (rk_transaction_id rec) (if worker_permanent e then Failed else PendingReference) (st_db s1) (st_db s')"
proof -
  let ?set = "\<lparr>rs_max_attempts = wk_max_attempts w,
       rs_retry_delay = jitter (exponential (rk_attempts rec) (wk_retry_base w) (wk_retry_max w)) (wk_random w s)\<rparr>"
  obtain res s1 where res: "resume_pending (rk_transaction_id rec) (rk_wallet_id rec) ?set s = (res, s1)" by fastforce
  have k: "(case res of Inl e \<Rightarrow> after_failure w rec e
     | Inr outcome \<Rightarrow>
         if outcome = PendingRescheduled
         then bindT (observe (Count ''pending_reference_retries_total'')) (\<lambda>_. returnT True)
         else returnT True) s1 = (r, s')"
    using assms res by (simp add: process_record_def Let_def bindT_def worker_jitter_def tryT_def)
  show thesis
  proof (rule that [OF res])
    show "st_db s' = st_db s1" if "res = Inr out" for out
      using k that db_sameD [OF counted_db_same] by (auto simp: returnT_def split: if_splits)
    show "st_db s' = st_db s1 \<or> settles (rk_transaction_id rec) (if worker_permanent e then Failed else PendingReference)
        (st_db s1) (st_db s')" if "res = Inl e" for e
      using after_failure_db k that by simp
  qed
qed

lemma process_record_steps:
  assumes "process_record w rec s = (r, s')" "tracked (st_db s) rec" "txs_ok (st_db s)"
  shows "db_step\<^sup>*\<^sup>* (st_db s) (st_db s')"
proof (rule process_record_db [OF assms(1)])
  fix res s1 settings
  assume *: "resume_pending (rk_transaction_id rec) (rk_wallet_id rec)
      \<lparr>rs_max_attempts = wk_max_attempts w,
       rs_retry_delay = jitter (exponential (rk_attempts rec) (wk_retry_base w) (wk_retry_max w)) (wk_random w s)\<rparr> s = (res, s1)"
    "\<And>out. res = Inr out \<Longrightarrow> st_db s' = st_db s1"
    "\<And>e. res = Inl e \<Longrightarrow> st_db s' = st_db s1 \<or>
       settles (rk_transaction_id rec) (if worker_permanent e then Failed else PendingReference) (st_db s1) (st_db s')"
  have "db_step\<^sup>*\<^sup>* (st_db s) (st_db s1)"
    using resume_pending_db [OF *(1) assms(3) tracked_claims [OF assms(2,3)]] by (auto dest: resumed_steps)
  moreover have "st_db s' = st_db s1 \<or> db_step (st_db s1) (st_db s')"
    using *(2,3) by (cases res) (auto simp: settles_def)
  ultimately show ?thesis by (auto intro: rtranclp.rtrancl_into_rtrancl)
qed

lemma worker_metrics_db_same: "db_same worker_metrics"
  unfolding worker_metrics_def worker_pending_def by (intro db_same_tryT) (auto split: sum.splits)

lemma process_records_steps:
  "process_records w recs s = (r, s') \<Longrightarrow> \<forall>rec \<in> set recs. tracked (st_db s) rec \<Longrightarrow> txs_ok (st_db s) \<Longrightarrow>
     db_step\<^sup>*\<^sup>* (st_db s) (st_db s')"
proof (induction recs arbitrary: s)
  case Nil
  then show ?case using db_sameD [OF worker_metrics_db_same] by fastforce
next
  case (Cons rec recs)
  obtain q s1 where q: "process_record w rec s = (q, s1)" by fastforce
  have first: "db_step\<^sup>*\<^sup>* (st_db s) (st_db s1)"
    by (rule process_record_steps [OF q]) (use Cons.prems in simp_all)
  have ok: "txs_ok (st_db s1)" using first Cons.prems(3) by (induction rule: rtranclp_induct) (auto dest: db_step_txs)
  have tr: "\<forall>rec \<in> set recs. tracked (st_db s1) rec"
    using Cons.prems(2) db_steps_preserved [OF first] tracked_preserved by auto
  show ?case
  proof (cases q)
    case (Inl e)
    then show ?thesis using Cons.prems(1) q first by (simp add: bindT_def)
  next
    case (Inr go)
    then have "(if go then process_records w recs else returnT ()) s1 = (r, s')"
      using Cons.prems(1) q by (simp add: bindT_def)
    then show ?thesis using Cons.IH [OF _ tr ok] first
      by (cases go) (auto simp: returnT_def intro: rtranclp_trans)
  qed
qed

lemma process_batch_steps:
  assumes "process_batch w s = (r, s')" "txs_ok (st_db s)"
  shows "db_step\<^sup>*\<^sup>* (st_db s) (st_db s')"
proof -
  obtain q s1 where q: "worker_claim (wk_batch w) (wk_lease w) s = (q, s1)" by fastforce
  note claim = worker_claim_steps [OF q]
  have ok: "txs_ok (st_db s1)" using claim assms(2) by (auto elim: rtranclp_induct dest: db_step_txs)
  show ?thesis
  proof (cases q)
    case (Inl e)
    then show ?thesis using assms(1) q claim by (simp add: process_batch_def bindT_def)
  next
    case (Inr recs)
    then have "process_records w recs s1 = (r, s')" using assms(1) q by (simp add: process_batch_def bindT_def)
    from process_records_steps [OF this _ ok] show ?thesis using claim Inr by (auto intro: rtranclp_trans)
  qed
qed

section \<open>Failing\<close>

lemma settles_status:
  assumes "settles i st d d'" "txs_ok d" "u \<in> set (db_txs d')" "tr_id u = i"
  shows "tr_status u = st"
proof -
  obtain r r' where "r \<in> set (db_txs d)" "tr_id r = i" "r' \<in> set (db_txs d')" "same_tx r r'" "tr_status r' = st"
    using assms(1) by (auto simp: settles_def)
  moreover have "txs_ok d'" using assms(1,2) db_step_txs by (auto simp: settles_def)
  ultimately show ?thesis using same_id_same_row [of d' r' u] assms(3,4) same_tx_id by metis
qed

lemma resumed_not_failed: "resumed i out d d' \<Longrightarrow> d' = d \<or> (\<exists>st. st \<noteq> Failed \<and> settles i st d d')"
proof -
  have "Processed \<noteq> Failed" "Rejected \<noteq> Failed" "PendingReference \<noteq> Failed" by simp_all
  then show "resumed i out d d' \<Longrightarrow> ?thesis" unfolding resumed_def by metis
qed

lemma worker_failure:
  assumes ok: "txs_ok (st_db s)" and tr: "tracked (st_db s) rec" and p: "process_record w rec s = (r, s')"
    and t: "t \<in> set (db_txs (st_db s))" "tr_id t = rk_transaction_id rec" "tr_status t \<noteq> Failed"
    and u: "u \<in> set (db_txs (st_db s'))" "tr_id u = rk_transaction_id rec" "tr_status u = Failed"
  shows "\<exists>settings e s1. resume_pending (rk_transaction_id rec) (rk_wallet_id rec) settings s = (Inl e, s1) \<and> worker_permanent e"
  using p
proof (rule process_record_db)
  let ?i = "rk_transaction_id rec"
  let ?set = "\<lparr>rs_max_attempts = wk_max_attempts w,
       rs_retry_delay = jitter (exponential (rk_attempts rec) (wk_retry_base w) (wk_retry_max w)) (wk_random w s)\<rparr>"
  fix res s1
  assume res: "resume_pending ?i (rk_wallet_id rec) ?set s = (res, s1)"
    and k: "\<And>out. res = Inr out \<Longrightarrow> st_db s' = st_db s1"
      "\<And>e. res = Inl e \<Longrightarrow> st_db s' = st_db s1 \<or>
       settles ?i (if worker_permanent e then Failed else PendingReference) (st_db s1) (st_db s')"
  have old: "tr_status v \<noteq> Failed" if "v \<in> set (db_txs (st_db s))" "tr_id v = ?i" for v
    using same_id_same_row [OF ok that(1) t(1)] t that by auto
  have one: "tr_status v \<noteq> Failed" if "v \<in> set (db_txs (st_db s1))" "tr_id v = ?i" for v
  proof -
    have "st_db s1 = st_db s \<or> (\<exists>st. st \<noteq> Failed \<and> settles ?i st (st_db s) (st_db s1))"
      using resume_pending_db [OF res ok tracked_claims [OF tr ok]] using resumed_not_failed by metis
    then show ?thesis using old settles_status [OF _ ok that] that by auto
  qed
  then obtain e where e: "res = Inl e" "settles ?i (if worker_permanent e then Failed else PendingReference) (st_db s1) (st_db s')"
    using k u by (cases res) auto
  have "txs_ok (st_db s1)"
    using resume_pending_db [OF res ok tracked_claims [OF tr ok]] ok db_step_txs by (auto simp: resumed_def settles_def)
  from settles_status [OF e(2) this u(1,2)] u(3) have "worker_permanent e" by (auto split: if_splits)
  then show ?thesis using res e(1) by blast
qed

section \<open>Properties\<close>

text \<open>
  A retry is put off by at least the backoff delay and at most half as much again, without leaving the
  range of a duration, for every delay up to half of that range.
\<close>
theorem jitter_bounds:
  assumes "0 < sint delay" "sint delay \<le> 2 ^ 62"
    and "0 \<le> sint (random (int64_div delay 2 + 1))" "sint (random (int64_div delay 2 + 1)) < sint (int64_div delay 2 + 1)"
  shows "sint delay \<le> sint (jitter delay random) \<and> sint (jitter delay random) \<le> sint delay + sint delay div 2"
proof -
  have half: "sint (int64_div delay 2) = sint delay div 2" using assms(1) by (intro half_nonneg) simp
  have "sint (int64_div delay 2 + 1) = sint delay div 2 + 1"
    using sint64_add [of "int64_div delay 2" 1] half assms(1,2) by simp
  then have r: "sint (random (int64_div delay 2 + 1)) \<le> sint delay div 2" using assms(4) by simp
  then have "sint (delay + random (int64_div delay 2 + 1)) = sint delay + sint (random (int64_div delay 2 + 1))"
    using assms(1-3) by (intro sint64_add) simp_all
  then show ?thesis using assms(1,3) r by (simp add: jitter_def word_sle_eq)
qed

end
