(* ===== verification/WalletSteps.thy ===== *)
theory WalletSteps
  imports WalletUseCases ProcessSteps
begin

text \<open>
  Opening a wallet is one step of the ledger or none, and the reads change nothing; what the audit
  finds on a well-formed database.
\<close>

section \<open>Opening\<close>

text \<open>The wallet of a successful call, stored with the opening credit that explains its balance.\<close>

definition opened :: "open_wallet_input \<Rightarrow> wallet \<Rightarrow> db \<Rightarrow> db \<Rightarrow> bool" where
  "opened i w d d' \<longleftrightarrow> wallet_ok w \<and> w_balance w = ow_initial_balance i \<and> w_player_id w = ow_player_id i \<and>
     (\<exists>row. db_wallets d' = db_wallets d @ [row] \<and> wr_id row = w_id w \<and> wr_version row = 1 \<and>
        wr_balance row = minor_units (ow_initial_balance i) \<and> wr_currency row = currency_of (ow_initial_balance i)) \<and>
     (if amount (ow_initial_balance i) = 0
      then db_txs d' = db_txs d \<and> db_ledger d' = db_ledger d \<and> db_outbox d' = db_outbox d
      else \<exists>t e. db_txs d' = db_txs d @ [t] \<and> db_ledger d' = db_ledger d @ [e] \<and> tr_kind t = Opening \<and>
        entry_of t e \<and> tr_wallet t = w_id w \<and> lr_direction e = Credit \<and> lr_before e = 0 \<and>
        lr_after e = minor_units (ow_initial_balance i))"

lemma wallets_insert_adds:
  assumes "wallets_insert w s = (Inr u, s')"
  obtains row where "adds_wallet (st_db s) row (st_db s')" "wr_id row = w_id w" "wr_version row = w_version w"
    "wr_balance row = minor_units (w_balance w)" "wr_currency row = currency_of (w_balance w)"
  by (rule wallets_insert_ok [OF assms]) (auto simp: adds_wallet_def)

lemma open_transaction_ok:
  assumes "open_transaction i wid tx now (Some e) s = (Inr opening, s')"
  shows "\<exists>t. opening = Some (e, t) \<and> st_db s' = st_db s \<and> wt_status t = Processed \<and> wt_kind t = Opening \<and>
     wt_id t = tx \<and> wt_wallet_id t = wid \<and> wt_money t = ow_initial_balance i"
  using assms
  by (auto simp: open_transaction_def domain_step_def bindT_ok liftE_ok map_err_ok returnT_ok
      new_opening_transaction_ok mark_processed_def tx_transition_ok)

lemma open_body_empty:
  assumes "open_body i w None now s = (Inr u, s')" "amount (w_balance w) = 0"
  obtains row where "db_step (st_db s) (st_db s')" "adds_wallet (st_db s) row (st_db s')" "wr_id row = w_id w"
    "wr_version row = w_version w" "wr_balance row = minor_units (w_balance w)" "wr_currency row = currency_of (w_balance w)"
proof -
  have "wallets_insert w s = (Inr (), s')" using assms(1) by (auto simp: open_body_def bindT_ok returnT_ok)
  then obtain row where row: "adds_wallet (st_db s) row (st_db s')" "wr_id row = w_id w" "wr_version row = w_version w"
    "wr_balance row = minor_units (w_balance w)" "wr_currency row = currency_of (w_balance w)"
    by (rule wallets_insert_adds)
  then show thesis using that db_step.open_empty [OF row(1)] assms(2) by simp
qed

lemma open_body_funded:
  assumes "open_body i w (Some (e, t)) now s = (Inr u, s')"
    and t: "wt_status t = Processed" "wt_kind t = Opening" "wt_wallet_id t = w_id w" "wt_money t = w_balance w"
    and e: "le_wallet_id e = w_id w" "le_transaction_id e = wt_id t" "le_direction e = Credit" "le_money e = w_balance w"
      "minor_units (le_balance_before e) = 0" "le_balance_after e = w_balance w"
  obtains row tr er os d1 d2 d3 where "db_step (st_db s) (st_db s')" "adds_wallet (st_db s) row d1" "adds_tx d1 tr d2"
    "adds_entry d2 er d3" "adds_events d3 os (st_db s')" "wr_id row = w_id w" "wr_version row = w_version w"
    "wr_balance row = minor_units (w_balance w)" "wr_currency row = currency_of (w_balance w)" "tr_kind tr = Opening"
    "tr_wallet tr = w_id w" "entry_of tr er" "lr_direction er = Credit" "lr_before er = 0"
    "lr_after er = minor_units (w_balance w)"
proof -
  obtain s1 s2 s3 m s4 p s5 m' s6 b where a: "wallets_insert w s = (Inr (), s1)"
      "txs_insert t (Some (minor_units (w_balance w))) s1 = (Inr (), s2)" "ledger_insert e s2 = (Inr (), s3)"
      "open_metadata i now s3 = (Inr m, s4)" "new_processed_event m (Some t) = Inr p"
      "outbox_insert (outbox_record_of ''WagerTransaction'' p now) s4 = (Inr (), s5)"
      "open_metadata i now s5 = (Inr m', s6)" "new_balance_event m' (Some w) (Some e) = Inr b"
      "outbox_insert (outbox_record_of ''Wallet'' b now) s6 = (Inr u, s')"
    using assms(1) by (auto simp: open_body_def bindT_ok liftE_ok map_err_ok minor_units_ok)
  obtain row where row: "adds_wallet (st_db s) row (st_db s1)" "wr_id row = w_id w" "wr_version row = w_version w"
    "wr_balance row = minor_units (w_balance w)" "wr_currency row = currency_of (w_balance w)"
    by (rule wallets_insert_adds [OF a(1)])
  obtain tr where tr: "transaction_fields s1 t (Some (minor_units (w_balance w))) = Inr tr" "adds_tx (st_db s1) tr (st_db s2)"
    by (rule txs_insert_ok [OF a(2)])
  obtain er where er: "adds_entry (st_db s2) er (st_db s3)" "er = entry_row e (st_time s2 (le_occurred_at e)) (st_seq s2)"
    using ledger_insert_ok [OF a(3)] by blast
  have meta: "db_same (open_metadata i now)" unfolding open_metadata_def by (intro db_same_bindT) auto
  have d: "st_db s4 = st_db s3" "st_db s6 = st_db s5" using db_sameD [OF meta a(4)] db_sameD [OF meta a(7)] by simp_all
  from new_processed_event_SomeD [OF a(5)] obtain env da where p: "p = ProcessedEvent env da" "pd_wallet_id da = wt_wallet_id t"
      "ev_event_type env = ProcessedEventType" "ev_aggregate_id env = wt_id t" by auto
  from new_balance_event_SomeD [OF a(8)] obtain env' db where b: "b = BalanceChangedEvent env' db" "bd_wallet_id db = w_id w"
      "w_id w \<noteq> ''''" by auto
  obtain o1 where o1: "adds_events (st_db s3) [o1] (st_db s5)" "or_aggregate_id o1 = wt_id t" "or_event_type o1 = ProcessedEventType"
    using outbox_insert_adds [OF a(6)] p d b(3) t(3) by auto
  obtain o2 where o2: "adds_events (st_db s5) [o2] (st_db s')"
    using outbox_insert_adds [OF a(9)] d b by auto
  have os: "adds_events (st_db s3) [o1, o2] (st_db s')" using adds_events_trans [OF o1(1) o2] by simp
  have f: "tr_kind tr = Opening" "tr_status tr = Processed" "tr_id tr = wt_id t" "tr_wallet tr = w_id w"
      "tr_amount tr = minor_units (w_balance w)"
    using tr(1) t by (simp_all add: transaction_fields_ok)
  have g: "entry_of tr er" "lr_wallet er = wr_id row" "lr_direction er = Credit" "lr_before er = 0"
      "lr_after er = minor_units (w_balance w)"
    using er(2) e f row(2) by (simp_all add: entry_of_def entry_row_def)
  have "db_step (st_db s) (st_db s')"
    by (rule db_step.open_funded [OF row(1) tr(2) er(1) os f(1,2) g(1,2,4)])
       (use g(5) row(4) o1 f in \<open>simp_all add: announces_def\<close>)
  then show thesis using that row tr(2) er(1) os f g by blast
qed

text \<open>A run that ends in \<open>P\<close>: reads before the last step may fail, and keep the database.\<close>

definition ends :: "('e, 'a) tx \<Rightarrow> world \<Rightarrow> ('e + 'a \<Rightarrow> db \<Rightarrow> bool) \<Rightarrow> bool" where
  "ends m s P \<longleftrightarrow> (case m s of (r, s') \<Rightarrow> P r (st_db s'))"

lemma ends_bindT:
  assumes "db_same m" "\<And>e. P (Inl e) (st_db s)"
    and "\<And>x s1. m s = (Inr x, s1) \<Longrightarrow> st_db s1 = st_db s \<Longrightarrow> ends (k x) s1 P"
  shows "ends (bindT m k) s P"
proof -
  obtain r s1 where r: "m s = (r, s1)" by fastforce
  have "st_db s1 = st_db s" by (rule db_sameD [OF assms(1) r])
  then show ?thesis using assms(2,3) r by (cases r) (auto simp: ends_def bindT_def)
qed

lemma money_step_ok: "money_step x s = (Inr y, s') \<longleftrightarrow> x = Inr y \<and> s' = s"
  by (auto simp: money_step_def liftE_ok map_err_ok)

lemma domain_step_ok: "domain_step x s = (Inr y, s') \<longleftrightarrow> x = Inr y \<and> s' = s"
  by (auto simp: domain_step_def liftE_ok map_err_ok)

lemma open_steps_db_same [simp]:
  "db_same (money_step x)" "db_same (domain_step y)" "db_same (open_ids n)" "db_same (open_transaction i wid tx now e)"
  unfolding money_step_def domain_step_def open_ids_def open_transaction_def
  by (auto intro!: db_same_bindT split: option.splits)

definition open_outcome :: "open_wallet_input \<Rightarrow> db \<Rightarrow> app_error + wallet \<Rightarrow> db \<Rightarrow> bool" where
  "open_outcome i d r d' \<longleftrightarrow> (d' = d \<and> (\<exists>e. r = Inl e)) \<or>
     (\<exists>w. (r = Inr w \<or> r = Inl Infra) \<and> db_step d d' \<and> opened i w d d')"

lemma open_body_opened:
  assumes b: "open_body i w opening now s = (Inr u, s')"
    and w: "wallet_open \<lparr>oi_id = wid, oi_player_id = ow_player_id i, oi_currency = c,
       oi_initial_balance = ow_initial_balance i, oi_opening_transaction_id = tx,
       oi_ledger_entry_id = en, oi_occurred_at = now\<rparr> = Inr (w, entry)"
    and t: "open_transaction i wid tx now entry s0 = (Inr opening, s1)"
  shows "db_step (st_db s) (st_db s') \<and> opened i w (st_db s) (st_db s')"
proof -
  have ok: "wallet_ok w" by (rule wallet_open_keeps_ok [OF w])
  have f: "w_id w = wid" "w_player_id w = ow_player_id i" "w_balance w = ow_initial_balance i" "w_version w = 1"
    using w by (simp_all add: wallet_open_ok)
  show ?thesis
  proof (cases "amount (ow_initial_balance i) = 0")
    case True
    then have "entry = None" using w by (simp add: wallet_open_ok)
    then have none: "opening = None" using t by (simp add: open_transaction_def returnT_ok)
    obtain row where row: "db_step (st_db s) (st_db s')" "adds_wallet (st_db s) row (st_db s')" "wr_id row = w_id w"
        "wr_version row = w_version w" "wr_balance row = minor_units (w_balance w)" "wr_currency row = currency_of (w_balance w)"
      by (rule open_body_empty [OF b [unfolded none]]) (use True f in simp)
    then show ?thesis using ok f True adds_wallet_fields [OF row(2)] by (simp add: opened_def)
  next
    case False
    then obtain e where e: "entry = Some e" "le_wallet_id e = w_id w" "le_transaction_id e = tx" "le_direction e = Credit"
        "le_money e = w_balance w" "minor_units (le_balance_before e) = 0" "le_balance_after e = w_balance w"
      using w by (simp add: wallet_open_ok)
    obtain x where x: "opening = Some (e, x)" "wt_status x = Processed" "wt_kind x = Opening" "wt_id x = tx"
        "wt_wallet_id x = wid" "wt_money x = ow_initial_balance i"
      using open_transaction_ok t e(1) by blast
    obtain row tr er os d1 d2 d3 where g: "db_step (st_db s) (st_db s')" "adds_wallet (st_db s) row d1" "adds_tx d1 tr d2"
        "adds_entry d2 er d3" "adds_events d3 os (st_db s')" "wr_id row = w_id w" "wr_version row = w_version w"
        "wr_balance row = minor_units (w_balance w)" "wr_currency row = currency_of (w_balance w)" "tr_kind tr = Opening"
        "tr_wallet tr = w_id w" "entry_of tr er" "lr_direction er = Credit" "lr_before er = 0"
        "lr_after er = minor_units (w_balance w)"
      by (rule open_body_funded [OF b [unfolded x(1)]]) (use x e f in simp_all)
    have tabs: "db_wallets (st_db s') = db_wallets (st_db s) @ [row]" "db_txs (st_db s') = db_txs (st_db s) @ [tr]"
        "db_ledger (st_db s') = db_ledger (st_db s) @ [er]"
      using adds_wallet_fields [OF g(2)] adds_tx_fields [OF g(3)] adds_entry_fields [OF g(4)] adds_events_fields [OF g(5)]
      by simp_all
    show ?thesis using g ok f False tabs by (auto simp: opened_def)
  qed
qed

lemma open_commit:
  assumes w: "wallet_open \<lparr>oi_id = wid, oi_player_id = ow_player_id i, oi_currency = c,
       oi_initial_balance = ow_initial_balance i, oi_opening_transaction_id = tx,
       oi_ledger_entry_id = en, oi_occurred_at = now\<rparr> = Inr (w, entry)"
    and t: "open_transaction i wid tx now entry s0 = (Inr opening, s1)" and d: "st_db s = d"
  shows "ends (tryT (within_tx (open_body i w opening now)) (\<lambda>res. case res of
        Inl e \<Rightarrow> if e = ErrAlreadyExists then failT (OpErr WalletAlreadyExists) else failT e
      | Inr _ \<Rightarrow> returnT w)) s (open_outcome i d)"
proof -
  obtain q s' where q: "within_tx (open_body i w opening now) s = (q, s')" by fastforce
  have "(st_db s' = st_db s \<and> (\<exists>e. q = Inl e)) \<or>
      ((q = Inr () \<or> q = Inl Infra) \<and> db_step (st_db s) (st_db s') \<and> opened i w (st_db s) (st_db s'))"
    using pg_uow.outcome [OF q] open_body_opened [OF _ w t] by (metis old.unit.exhaust)
  then show ?thesis using q d
    by (cases q) (auto simp: ends_def tryT_def failT_def returnT_def open_outcome_def)
qed

lemma open_use_case_db:
  assumes "open_use_case i s = (r, s')"
  shows "open_outcome i (st_db s) r (st_db s')"
proof -
  have stop: "open_outcome i d (Inl e) d" for d e by (simp add: open_outcome_def)
  have "ends (open_use_case i) s (open_outcome i (st_db s))"
    unfolding open_use_case_def Let_def
    by (intro ends_bindT stop)
      (auto simp: stop domain_step_ok split: prod.splits intro!: ends_bindT intro: open_commit)
  then show ?thesis using assms by (simp add: ends_def)
qed
end
