(* ===== verification/OutboxPublisher.thy ===== *)
theory OutboxPublisher
  imports Repositories Backoff
begin

text \<open>
  The publisher of \<open>internal/outbox/publisher.go\<close>, its store \<open>internal/outboxpg/store.go\<close> and its
  queue \<open>internal/queue/outbox_publisher.go\<close>: claiming unpublished events under a lease, sending each
  under its own id, and recording the outcome. The polling loop repeats \<open>publish_batch\<close>.
\<close>

section \<open>The store\<close>

record claimed_event =
  ce_event_id :: string
  ce_payload :: json
  ce_attempts :: int
  ce_occurred :: gotime

definition claimed_event_of :: "outbox_row \<Rightarrow> claimed_event" where
  "claimed_event_of r = \<lparr>ce_event_id = or_event_id r, ce_payload = or_payload r, ce_attempts = or_attempts r,
     ce_occurred = or_occurred r\<rparr>"

definition due_event :: "world \<Rightarrow> outbox_row \<Rightarrow> bool" where
  "due_event s r \<longleftrightarrow> or_published r = None \<and> instant (or_next_attempt r) \<le> instant (st_pg_now s) \<and>
     (case or_locked_until r of None \<Rightarrow> True | Some t \<Rightarrow> instant t \<le> instant (st_pg_now s)) \<and>
     \<not> List.member (st_locked s) (or_event_id r)"

definition due_ids :: "nat \<Rightarrow> world \<Rightarrow> string list" where
  "due_ids batch s = map or_event_id (take batch
     (sort_key (\<lambda>r. instant (or_occurred r)) (filter (due_event s) (db_outbox (st_db s)))))"

text \<open>\<open>RETURNING\<close> promises no order of its own; here the rows come in the order of the table.\<close>

definition sql_claim_events :: "nat \<Rightarrow> int64 \<Rightarrow> world \<Rightarrow> pg_error + (db \<times> claimed_event list)" where
  "sql_claim_events batch lease s =
     (let hit = (\<lambda>r. List.member (due_ids batch s) (or_event_id r)) in
      bindE (sql_update_outbox hit (\<lambda>r. r\<lparr>or_locked_until := Some (time_add (st_pg_now s) lease)\<rparr>) s) (\<lambda>(d, _).
      Inr (d, map claimed_event_of (filter hit (db_outbox (st_db s))))))"

definition claim_events :: "nat \<Rightarrow> int64 \<Rightarrow> (app_error, claimed_event list) tx" where
  "claim_events batch lease = within_tx (execute (sql_claim_events batch lease))"

text \<open>
  A statement on the pool is a transaction of its own, so it may have taken effect although its
  answer was lost (\<open>FaultAfter\<close>).
\<close>

definition autocommit :: "(world \<Rightarrow> pg_error + (db \<times> 'a)) \<Rightarrow> (app_error, 'a) tx" where
  "autocommit f s = (case next_tick s of (t, s1) \<Rightarrow>
     if t = Fault then (Inl Infra, s1)
     else case f s1 of
       Inl _ \<Rightarrow> (Inl Infra, s1)
     | Inr (d, x) \<Rightarrow> ((if t = Quiet then Inr x else Inl Infra), s1\<lparr>st_db := d\<rparr>))"

definition unpublished :: "string \<Rightarrow> outbox_row \<Rightarrow> bool" where
  "unpublished i r \<longleftrightarrow> or_event_id r = i \<and> or_published r = None"

definition mark_published :: "string \<Rightarrow> (app_error, unit) tx" where
  "mark_published i = autocommit (\<lambda>s. sql_update_outbox (unpublished i)
     (\<lambda>r. r\<lparr>or_published := Some (st_pg_now s), or_locked_until := None, or_last_error := None\<rparr>) s)"

definition schedule_retry :: "string \<Rightarrow> int64 \<Rightarrow> string \<Rightarrow> (app_error, unit) tx" where
  "schedule_retry i delay last_err = autocommit (\<lambda>s. sql_update_outbox (unpublished i)
     (\<lambda>r. r\<lparr>or_attempts := or_attempts r + 1, or_next_attempt := time_add (st_pg_now s) delay,
            or_locked_until := None, or_last_error := Some last_err\<rparr>) s)"

text \<open>\<open>count(*)\<close> and \<open>min(occurred_at)\<close>, which is NULL on no rows.\<close>

definition earliest :: "gotime list \<Rightarrow> gotime option" where
  "earliest ts = (case sort_key instant ts of [] \<Rightarrow> None | t # _ \<Rightarrow> Some t)"

definition outbox_stats :: "(app_error, nat \<times> gotime option) tx" where
  "outbox_stats = query (\<lambda>s. let rs = filter (\<lambda>r. or_published r = None) (db_outbox (st_db s))
     in (length rs, earliest (map or_occurred rs)))"

section \<open>The group of an event\<close>

text \<open>
  \<open>json.Unmarshal\<close> into \<open>eventBody\<close>: a key matches its field up to ASCII case, the last match wins, and a
  value of another type is an error. The letters of the two field names have no other case variants.
\<close>

definition lower_ascii :: "char \<Rightarrow> char" where
  "lower_ascii c = (let n = of_char c :: nat in if 65 \<le> n \<and> n \<le> 90 then char_of (n + 32) else c)"

definition same_field :: "string \<Rightarrow> string \<Rightarrow> bool" where
  "same_field a b \<longleftrightarrow> map lower_ascii a = map lower_ascii b"

fun read_string_field :: "string \<Rightarrow> string \<Rightarrow> (string \<times> json) list \<Rightarrow> string option" where
  "read_string_field name v [] = Some v"
| "read_string_field name v ((k, x) # xs) =
     (if same_field k name then (case x of JStr y \<Rightarrow> read_string_field name y xs | _ \<Rightarrow> None)
      else read_string_field name v xs)"

fun read_wallet_id :: "string \<Rightarrow> (string \<times> json) list \<Rightarrow> string option" where
  "read_wallet_id v [] = Some v"
| "read_wallet_id v ((k, x) # xs) =
     (if same_field k ''data''
      then (case x of
          JObj ys \<Rightarrow> (case read_string_field ''walletId'' v ys of None \<Rightarrow> None | Some v' \<Rightarrow> read_wallet_id v' xs)
        | _ \<Rightarrow> None)
      else read_wallet_id v xs)"

fun payload_wallet :: "json \<Rightarrow> string option" where
  "payload_wallet (JObj xs) = read_wallet_id '''' xs"
| "payload_wallet _ = None"

section \<open>The publisher\<close>

text \<open>\<open>pb_error_text\<close> is \<open>sendErr.Error()\<close>, whose text is the SDK's or the decoder's.\<close>

record publisher =
  pb_batch :: nat
  pb_lease :: int64
  pb_retry_base :: int64
  pb_retry_max :: int64
  pb_error_text :: "world \<Rightarrow> string"

text \<open>The age of the oldest event is in nanoseconds here, not in seconds.\<close>

definition refresh_metrics :: "(app_error, unit) tx" where
  "refresh_metrics = tryT outbox_stats (\<lambda>res. case res of
     Inl _ \<Rightarrow> returnT ()
   | Inr (pending, oldest) \<Rightarrow>
       bindT (observe (Gauge ''outbox_pending_events'' (int pending))) (\<lambda>_.
       case oldest of
         None \<Rightarrow> observe (Gauge ''outbox_oldest_unpublished_age_seconds'' 0)
       | Some t \<Rightarrow> bindT get_now (\<lambda>now.
           observe (Gauge ''outbox_oldest_unpublished_age_seconds'' (instant now - instant t)))))"

definition store_error :: "app_error \<Rightarrow> (app_error, unit) tx" where
  "store_error e = bindT (observe (Count ''outbox_store_errors_total'')) (\<lambda>_. failT e)"

definition error_text :: "publisher \<Rightarrow> (app_error, string) tx" where
  "error_text p s = (Inr (pb_error_text p s), s)"

definition retry_event :: "publisher \<Rightarrow> claimed_event \<Rightarrow> (app_error, unit) tx" where
  "retry_event p rec =
     (let delay = exponential (ce_attempts rec) (pb_retry_base p) (pb_retry_max p) in
      bindT (error_text p) (\<lambda>msg.
      tryT (schedule_retry (ce_event_id rec) delay msg) (\<lambda>res. case res of
        Inl e \<Rightarrow> store_error e
      | Inr _ \<Rightarrow> bindT (observe (Count ''outbox_retries_total'')) (\<lambda>_. refresh_metrics))))"

definition confirm_event :: "claimed_event \<Rightarrow> (app_error, unit) tx" where
  "confirm_event rec =
     tryT (mark_published (ce_event_id rec)) (\<lambda>res. case res of
       Inl e \<Rightarrow> store_error e
     | Inr _ \<Rightarrow> bindT (observe (Count ''outbox_published_total'')) (\<lambda>_. refresh_metrics))"

definition publish_event :: "publisher \<Rightarrow> claimed_event \<Rightarrow> (app_error, unit) tx" where
  "publish_event p rec =
     (case payload_wallet (ce_payload rec) of
        None \<Rightarrow> retry_event p rec
      | Some w \<Rightarrow>
          if w = '''' then retry_event p rec
          else tryT (enqueue (SendEvent w (ce_payload rec) (ce_event_id rec))) (\<lambda>res. case res of
            Inl _ \<Rightarrow> retry_event p rec
          | Inr _ \<Rightarrow> confirm_event rec))"

text \<open>The first error ends the batch, silently when the context was cancelled.\<close>

fun publish_events :: "publisher \<Rightarrow> claimed_event list \<Rightarrow> (app_error, unit) tx" where
  "publish_events p [] = returnT ()"
| "publish_events p (r # rs) = tryT (publish_event p r) (\<lambda>res. case res of
     Inl e \<Rightarrow> bindT ctx_err (\<lambda>stopped. if stopped then returnT () else failT e)
   | Inr _ \<Rightarrow> publish_events p rs)"

definition publish_batch :: "publisher \<Rightarrow> (app_error, unit) tx" where
  "publish_batch p = bindT (claim_events (pb_batch p) (pb_lease p)) (\<lambda>records.
     bindT refresh_metrics (\<lambda>_. publish_events p records))"
end
