(* ===== verification/PublisherSteps.thy ===== *)
theory PublisherSteps
  imports OutboxPublisher Ledger
begin

text \<open>
  A pass of the publisher only marks rows of the outbox, marks an event as published only after
  the queue took it in its wallet's group, and, when nothing fails, publishes all it claimed.
\<close>

section \<open>What a step of the publisher changes\<close>

text \<open>At most the events \<open>I\<close> become published, none stops being so, and the queue only grows.\<close>

definition publishes_only :: "string set \<Rightarrow> (outbox_row \<Rightarrow> outbox_row) \<Rightarrow> bool" where
  "publishes_only I f \<longleftrightarrow>
     (\<forall>r. or_event_id r \<notin> I \<or> or_published r \<noteq> None \<longrightarrow> or_published (f r) = or_published r)"

definition marks_only :: "string set \<Rightarrow> world \<Rightarrow> world \<Rightarrow> bool" where
  "marks_only I s s' \<longleftrightarrow> (\<exists>f. marks_events (st_db s) f (st_db s') \<and> publishes_only I f) \<and>
     (\<exists>qs. st_queue s' = st_queue s @ qs)"

lemma marks_events_id: "marks_events d id d"
  by (simp add: marks_events_def id_def)

lemma marks_events_comp: "marks_events a f b \<Longrightarrow> marks_events b g c \<Longrightarrow> marks_events a (g \<circ> f) c"
  using same_event_trans by (fastforce simp: marks_events_def)

lemma publishes_only_id: "publishes_only I id"
  by (simp add: publishes_only_def)

lemma marks_only_refl [simp]: "st_db s' = st_db s \<Longrightarrow> st_queue s' = st_queue s @ qs \<Longrightarrow> marks_only I s s'"
  unfolding marks_only_def using marks_events_id publishes_only_id by metis

lemma marks_only_trans:
  assumes "marks_only I a b" "marks_only J b c"
  shows "marks_only (I \<union> J) a c"
proof -
  obtain f where f: "marks_events (st_db a) f (st_db b)" "publishes_only I f"
    using assms(1) unfolding marks_only_def by blast
  obtain g where g: "marks_events (st_db b) g (st_db c)" "publishes_only J g"
    using assms(2) unfolding marks_only_def by blast
  have "or_event_id (f r) = or_event_id r" for r
    using f(1) by (simp add: marks_events_def same_event_def)
  then have "publishes_only (I \<union> J) (g \<circ> f)" using f(2) g(2) by (simp add: publishes_only_def)
  moreover have "\<exists>qs. st_queue c = st_queue a @ qs" using assms by (auto simp: marks_only_def)
  ultimately show ?thesis unfolding marks_only_def using marks_events_comp [OF f(1) g(1)] by blast
qed

lemma marks_only_then: "marks_only I a b \<Longrightarrow> marks_only {} b c \<Longrightarrow> marks_only I a c"
  using marks_only_trans [of I a b "{}" c] by simp

lemma marks_only_step: "marks_only I s s' \<Longrightarrow> ledger_step (st_db s) (st_db s')"
  unfolding marks_only_def by (auto intro: ledger_step.marked)

text \<open>Steps that leave both the database and the queue as they are.\<close>

definition silent :: "('e, 'a) tx \<Rightarrow> bool" where
  "silent m \<longleftrightarrow> (\<forall>s. st_db (snd (m s)) = st_db s \<and> st_queue (snd (m s)) = st_queue s \<and>
     (st_ticks s = [] \<longrightarrow> st_ticks (snd (m s)) = []))"

lemma next_tick_queue: "next_tick s = (t, s1) \<Longrightarrow> st_queue s1 = st_queue s \<and> (st_ticks s = [] \<longrightarrow> s1 = s \<and> t = Quiet)"
  by (auto simp: next_tick_def split: list.splits)

lemma silent_simps [intro, simp]:
  "silent (returnT x)" "silent (failT e)" "silent get_now" "silent (observe q)" "silent ctx_err" "silent (query f)"
  by (auto simp: silent_def returnT_def failT_def get_now_def observe_def ctx_err_def query_def map_errT_def
      pg_read_def pg_def dest: next_tick_ok next_tick_queue split: list.splits prod.splits)

lemma silent_bindT [intro]: "silent m \<Longrightarrow> (\<And>x. silent (k x)) \<Longrightarrow> silent (bindT m k)"
  by (simp add: silent_def bindT_def split: prod.splits sum.splits) (metis snd_conv)

lemma silent_tryT [intro]: "silent m \<Longrightarrow> (\<And>x. silent (k x)) \<Longrightarrow> silent (tryT m k)"
  by (simp add: silent_def tryT_def split: prod.splits) (metis snd_conv)

lemma refresh_metrics_silent [intro, simp]: "silent refresh_metrics"
  unfolding refresh_metrics_def outbox_stats_def
  by (intro silent_tryT silent_simps) (auto split: sum.splits option.splits)

lemma store_error_silent [intro, simp]: "silent (store_error e)"
  unfolding store_error_def by auto

lemma silentD: "silent m \<Longrightarrow> m s = (r, s') \<Longrightarrow> st_db s' = st_db s \<and> st_queue s' = st_queue s"
  by (metis silent_def snd_conv)

lemma silent_marks: "silent m \<Longrightarrow> m s = (r, s') \<Longrightarrow> marks_only I s s'"
  using silentD [of m s r s'] by (intro marks_only_refl [where qs = "[]"]) auto

lemma counted_silent: "silent k \<Longrightarrow> silent (bindT (observe q) (\<lambda>_. k))"
  by auto

section \<open>The store\<close>

lemma update_outbox_marks:
  assumes "sql_update_outbox P f s = Inr (d, u)" "\<And>r. same_event r (f r)"
  shows "marks_events (st_db s) (\<lambda>r. if P r then f r else r) d"
  using assms by (auto simp: sql_update_outbox_def Let_def marks_events_def split: if_splits)

lemma update_outbox_rows:
  "sql_update_outbox P f s = Inr (d, u) \<Longrightarrow>
     d = (st_db s)\<lparr>db_outbox := map (\<lambda>r. if P r then f r else r) (db_outbox (st_db s))\<rparr>"
  by (simp add: sql_update_outbox_def Let_def split: if_splits)

lemma update_outbox_total: "(\<And>r. same_event r (f r)) \<Longrightarrow> \<exists>d. sql_update_outbox P f s = Inr (d, ())"
  by (auto simp: sql_update_outbox_def Let_def same_event_def list_ex_iff)

lemma autocommit_marks:
  assumes "autocommit (\<lambda>s. sql_update_outbox P (f s) s) s = (r, s')" "\<And>s r. same_event r (f s r)"
    and "\<And>s. publishes_only I (\<lambda>r. if P r then f s r else r)"
  shows "marks_only I s s'"
proof -
  obtain t s1 where t: "next_tick s = (t, s1)" by fastforce
  have s1: "st_db s1 = st_db s" "st_queue s1 = st_queue s" using next_tick_ok [OF t] next_tick_queue [OF t] by auto
  obtain d where d: "sql_update_outbox P (f s1) s1 = Inr (d, ())" using update_outbox_total assms(2) by blast
  show ?thesis
  proof (cases "t = Fault")
    case True
    then show ?thesis using assms(1) t s1 by (intro marks_only_refl [where qs = "[]"]) (auto simp: autocommit_def)
  next
    case False
    then have s': "s' = s1\<lparr>st_db := d\<rparr>" using assms(1) t d by (auto simp: autocommit_def)
    show ?thesis unfolding marks_only_def
    proof
      show "\<exists>g. marks_events (st_db s) g (st_db s') \<and> publishes_only I g"
        using update_outbox_marks [OF d assms(2)] s' s1 assms(3)
        by (intro exI [of _ "\<lambda>r. if P r then f s1 r else r"]) auto
      show "\<exists>qs. st_queue s' = st_queue s @ qs" using s' s1 by simp
    qed
  qed
qed

lemma mark_published_marks: "mark_published i s = (r, s') \<Longrightarrow> marks_only {i} s s'"
  unfolding mark_published_def by (erule autocommit_marks) (auto simp: same_event_def unpublished_def publishes_only_def)

lemma schedule_retry_marks: "schedule_retry i delay msg s = (r, s') \<Longrightarrow> marks_only {} s s'"
  unfolding schedule_retry_def by (erule autocommit_marks) (auto simp: same_event_def unpublished_def publishes_only_def)

text \<open>A claimed event, and the row it was claimed from.\<close>

definition claimed_from :: "db \<Rightarrow> claimed_event \<Rightarrow> bool" where
  "claimed_from d rec \<longleftrightarrow> (\<forall>r \<in> set (db_outbox d). or_event_id r = ce_event_id rec \<longrightarrow> or_payload r = ce_payload rec)"

lemma claimed_from_marked: "claimed_from d rec \<Longrightarrow> marks_events d f d' \<Longrightarrow> claimed_from d' rec"
  by (auto simp: claimed_from_def marks_events_def same_event_def)

lemma claimed_from_only: "claimed_from (st_db s) rec \<Longrightarrow> marks_only I s s' \<Longrightarrow> claimed_from (st_db s') rec"
  unfolding marks_only_def using claimed_from_marked by blast

lemma outbox_row_unique:
  "distinct (map or_event_id (db_outbox d)) \<Longrightarrow> r \<in> set (db_outbox d) \<Longrightarrow> q \<in> set (db_outbox d) \<Longrightarrow>
     or_event_id r = or_event_id q \<Longrightarrow> r = q"
  by (metis distinct_map inj_on_contraD)

lemma sql_claim_ok:
  assumes "sql_claim_events batch lease s = Inr (d, recs)"
  obtains f where "marks_events (st_db s) f d" "publishes_only {} f"
    "recs = map claimed_event_of (filter (\<lambda>r. List.member (due_ids batch s) (or_event_id r)) (db_outbox (st_db s)))"
proof -
  let ?hit = "\<lambda>r. List.member (due_ids batch s) (or_event_id r)"
  let ?f = "\<lambda>r. r\<lparr>or_locked_until := Some (time_add (st_pg_now s) lease)\<rparr>"
  obtain u where u: "sql_update_outbox ?hit ?f s = Inr (d, u)"
    using assms by (auto simp: sql_claim_events_def Let_def ok_iff)
  have "marks_events (st_db s) (\<lambda>r. if ?hit r then ?f r else r) d"
    by (rule update_outbox_marks [OF u]) (simp add: same_event_def)
  then show thesis
    by (rule that) (use assms u in \<open>auto simp: sql_claim_events_def Let_def publishes_only_def\<close>)
qed

lemma claim_events_ok:
  assumes "claim_events batch lease s = (r, s')" "keys_ok (st_db s)"
  shows "marks_only {} s s' \<and> (\<forall>recs. r = Inr recs \<longrightarrow> (\<forall>rec \<in> set recs. claimed_from (st_db s') rec))"
proof -
  obtain t s1 where t: "next_tick s = (t, s1)" by fastforce
  have s1: "st_db s1 = st_db s" "st_queue s1 = st_queue s" using next_tick_ok [OF t] next_tick_queue [OF t] by auto
  show ?thesis
  proof (cases "t = Quiet")
    case False
    then show ?thesis using assms(1) t s1 by (auto simp: claim_events_def within_tx_def intro: marks_only_refl [where qs = "[]"])
  next
    case True
    obtain q s2 where q: "execute (sql_claim_events batch lease) s1 = (q, s2)" by fastforce
    have q2: "st_queue s2 = st_queue s1"
      using q by (auto simp: execute_def map_errT_def pg_def dest: next_tick_queue split: prod.splits sum.splits if_splits)
    show ?thesis
    proof (cases q)
      case (Inl e)
      then show ?thesis using assms(1) t s1 q q2 True
        by (auto simp: claim_events_def within_tx_def intro: marks_only_refl [where qs = "[]"])
    next
      case (Inr recs)
      obtain s3 d where e: "next_tick s1 = (Quiet, s3)" "sql_claim_events batch lease s3 = Inr (d, recs)" "s2 = s3\<lparr>st_db := d\<rparr>"
        using q Inr by (auto simp: execute_ok)
      have d3: "st_db s3 = st_db s" using next_tick_ok [OF e(1)] s1 by simp
      obtain f where f: "marks_events (st_db s) f d" "publishes_only {} f"
        "recs = map claimed_event_of (filter (\<lambda>r. List.member (due_ids batch s3) (or_event_id r)) (db_outbox (st_db s)))"
        by (rule sql_claim_ok [OF e(2)]) (simp add: d3)
      have orig: "claimed_from d rec" if "rec \<in> set recs" for rec
      proof -
        have "distinct (map or_event_id (db_outbox (st_db s)))" using assms(2) by (simp add: keys_ok_def)
        then have "claimed_from (st_db s) rec"
          using outbox_row_unique that by (fastforce simp: f(3) claimed_from_def claimed_event_of_def)
        then show ?thesis using claimed_from_marked f(1) by blast
      qed
      obtain t' s4 where t': "next_tick s2 = (t', s4)" by fastforce
      have s4: "st_db s4 = d" "st_queue s4 = st_queue s"
        using next_tick_ok [OF t'] next_tick_queue [OF t'] e(3) q2 s1 by auto
      have m: "marks_only {} s s4" unfolding marks_only_def using f(1,2) s4 by auto
      show ?thesis
      proof (cases "t' = Fault")
        case True
        then have "r = Inl Infra \<and> s' = s4\<lparr>st_db := st_db s1\<rparr>"
          using assms(1) t \<open>t = Quiet\<close> q Inr t' by (simp add: claim_events_def within_tx_def)
        then show ?thesis using s1 s4 by (auto intro: marks_only_refl [where qs = "[]"])
      next
        case False
        then have "(r = Inr recs \<or> r = Inl Infra) \<and> s' = s4"
          using assms(1) t \<open>t = Quiet\<close> q Inr t' by (simp add: claim_events_def within_tx_def split: if_splits)
        then show ?thesis using m orig s4 by auto
      qed
    qed
  qed
qed

section \<open>One event\<close>

lemma retry_event_marks:
  assumes "retry_event p rec s = (r, s')"
  shows "marks_only {} s s'"
proof -
  obtain delay msg res s1 where q: "schedule_retry (ce_event_id rec) delay msg s = (res, s1)"
    "(case res of Inl e \<Rightarrow> store_error e
      | Inr _ \<Rightarrow> bindT (observe (Count ''outbox_retries_total'')) (\<lambda>_. refresh_metrics)) s1 = (r, s')"
    using assms by (auto simp: retry_event_def Let_def bindT_def error_text_def tryT_def split: prod.splits)
  have "marks_only {} s1 s'"
    using q(2) by (cases res) (auto intro: silent_marks [OF store_error_silent]
        silent_marks [OF counted_silent [OF refresh_metrics_silent]])
  with schedule_retry_marks [OF q(1)] show ?thesis by (rule marks_only_then)
qed

lemma confirm_event_marks:
  assumes "confirm_event rec s = (r, s')"
  shows "marks_only {ce_event_id rec} s s'"
proof -
  obtain res s1 where q: "mark_published (ce_event_id rec) s = (res, s1)"
    "(case res of Inl e \<Rightarrow> store_error e
      | Inr _ \<Rightarrow> bindT (observe (Count ''outbox_published_total'')) (\<lambda>_. refresh_metrics)) s1 = (r, s')"
    using assms by (auto simp: confirm_event_def tryT_def split: prod.splits)
  have "marks_only {} s1 s'"
    using q(2) by (cases res) (auto intro: silent_marks [OF store_error_silent]
        silent_marks [OF counted_silent [OF refresh_metrics_silent]])
  with mark_published_marks [OF q(1)] show ?thesis by (rule marks_only_then)
qed

lemma enqueue_marks:
  assumes "enqueue q s = (r, s')"
  shows "marks_only {} s s' \<and> (r = Inr () \<longrightarrow> q \<in> set (st_queue s'))"
proof -
  obtain t s1 where t: "next_tick s = (t, s1)" by fastforce
  have s1: "st_db s1 = st_db s" "st_queue s1 = st_queue s" using next_tick_ok [OF t] next_tick_queue [OF t] by auto
  have "st_db s' = st_db s" using assms by (rule db_sameD [OF db_same_simps(8)])
  moreover have "st_queue s' = st_queue s @ (if t = Fault then [] else [q])" "r = Inr () \<longrightarrow> t \<noteq> Fault"
    using assms t s1 by (auto simp: enqueue_def split: if_splits)
  ultimately show ?thesis by (auto intro: marks_only_refl)
qed

text \<open>What it takes for an event to become published in a step from \<open>s\<close> to \<open>s'\<close>.\<close>

definition sent :: "world \<Rightarrow> json \<Rightarrow> string \<Rightarrow> bool" where
  "sent s payload i \<longleftrightarrow> (\<exists>w. w \<noteq> '''' \<and> payload_wallet payload = Some w \<and> SendEvent w payload i \<in> set (st_queue s))"

lemma publish_event_marks:
  assumes "publish_event p rec s = (r, s')"
  shows "marks_only {} s s' \<or> (marks_only {ce_event_id rec} s s' \<and> sent s' (ce_payload rec) (ce_event_id rec))"
proof (cases "payload_wallet (ce_payload rec)")
  case None
  then show ?thesis using assms retry_event_marks by (simp add: publish_event_def)
next
  case (Some w)
  show ?thesis
  proof (cases "w = ''''")
    case True
    then show ?thesis using assms Some retry_event_marks by (simp add: publish_event_def)
  next
    case False
    let ?q = "SendEvent w (ce_payload rec) (ce_event_id rec)"
    obtain res s1 where q: "enqueue ?q s = (res, s1)" by fastforce
    have k: "(case res of Inl _ \<Rightarrow> retry_event p rec | Inr _ \<Rightarrow> confirm_event rec) s1 = (r, s')"
      using assms Some False q by (simp add: publish_event_def tryT_def)
    show ?thesis
    proof (cases res)
      case (Inl e)
      then have "marks_only {} s1 s'" using k retry_event_marks by simp
      with enqueue_marks [OF q] show ?thesis using marks_only_then by blast
    next
      case (Inr u)
      then have m: "marks_only {ce_event_id rec} s1 s'" using k confirm_event_marks by simp
      have "?q \<in> set (st_queue s1)" using enqueue_marks [OF q] Inr by simp
      then have "?q \<in> set (st_queue s')" using m by (auto simp: marks_only_def)
      moreover have "marks_only {ce_event_id rec} s s'"
        using marks_only_trans [of "{}" s s1 "{ce_event_id rec}" s'] enqueue_marks [OF q] m by simp
      ultimately show ?thesis using Some False by (auto simp: sent_def)
    qed
  qed
qed

section \<open>A pass\<close>

text \<open>Every published event was sent, with the payload of its row and under its id, to its wallet's group.\<close>

definition sent_ok :: "world \<Rightarrow> bool" where
  "sent_ok s \<longleftrightarrow> (\<forall>r \<in> set (db_outbox (st_db s)). or_published r \<noteq> None \<longrightarrow> sent s (or_payload r) (or_event_id r))"

lemma sent_mono: "sent s x i \<Longrightarrow> marks_only I s s' \<Longrightarrow> sent s' x i"
  by (auto simp: sent_def marks_only_def)

lemma marks_only_sent:
  assumes "marks_only I s s'" "sent_ok s"
    and "\<And>r. r \<in> set (db_outbox (st_db s)) \<Longrightarrow> or_event_id r \<in> I \<Longrightarrow> sent s' (or_payload r) (or_event_id r)"
  shows "sent_ok s'"
proof -
  obtain f where f: "marks_events (st_db s) f (st_db s')" "publishes_only I f"
    using assms(1) unfolding marks_only_def by blast
  have "sent s' (or_payload q) (or_event_id q)" if "q \<in> set (db_outbox (st_db s'))" "or_published q \<noteq> None" for q
  proof -
    obtain r where r: "r \<in> set (db_outbox (st_db s))" "q = f r"
      using f(1) \<open>q \<in> set (db_outbox (st_db s'))\<close> by (auto simp: marks_events_def)
    then have id: "or_payload q = or_payload r" "or_event_id q = or_event_id r"
      using f(1) by (simp_all add: marks_events_def same_event_def)
    show ?thesis
    proof (cases "or_event_id r \<in> I")
      case True
      then show ?thesis using assms(3) [OF r(1)] id by simp
    next
      case False
      then have "or_published r \<noteq> None" using f(2) r(2) \<open>or_published q \<noteq> None\<close> by (simp add: publishes_only_def)
      then have "sent s (or_payload r) (or_event_id r)" using assms(2) r(1) by (simp add: sent_ok_def)
      then show ?thesis using sent_mono assms(1) id by metis
    qed
  qed
  then show ?thesis by (simp add: sent_ok_def)
qed

lemma ctx_err_silent: "ctx_err s = (r, s') \<Longrightarrow> marks_only I s s'"
  by (rule silent_marks [OF silent_simps(5)])

lemma publish_events_sent:
  assumes "publish_events p recs s = (r, s')" "sent_ok s" "\<forall>rec \<in> set recs. claimed_from (st_db s) rec"
  shows "sent_ok s' \<and> (\<exists>I. marks_only I s s')"
  using assms
proof (induction recs arbitrary: s)
  case Nil
  then show ?case by (auto simp: returnT_def intro: marks_only_refl [where qs = "[]"])
next
  case (Cons rec recs)
  obtain res s1 where q: "publish_event p rec s = (res, s1)" by fastforce
  have k: "(case res of Inl e \<Rightarrow> bindT ctx_err (\<lambda>stopped. if stopped then returnT () else failT e)
      | Inr _ \<Rightarrow> publish_events p recs) s1 = (r, s')"
    using Cons.prems(1) q by (simp add: tryT_def)
  obtain I where I: "marks_only I s s1" "I = {} \<or> I = {ce_event_id rec} \<and> sent s1 (ce_payload rec) (ce_event_id rec)"
    using publish_event_marks [OF q] by blast
  have ok: "sent_ok s1"
    by (rule marks_only_sent [OF I(1) Cons.prems(2)])
      (use I(2) Cons.prems(3) in \<open>auto simp: claimed_from_def\<close>)
  show ?case
  proof (cases res)
    case (Inl e)
    have silent: "silent (bindT ctx_err (\<lambda>stopped. if stopped then returnT () else failT e))" by auto
    then have m: "marks_only {} s1 s'" using k Inl silent_marks [OF silent] by simp
    then have "sent_ok s'" using marks_only_sent [OF m ok] by simp
    then show ?thesis using marks_only_then [OF I(1) m] by blast
  next
    case (Inr u)
    have "\<forall>x \<in> set recs. claimed_from (st_db s1) x"
      using Cons.prems(3) claimed_from_only I(1) by fastforce
    then have "sent_ok s' \<and> (\<exists>J. marks_only J s1 s')" using Cons.IH [of s1] k Inr ok by simp
    then show ?thesis using marks_only_trans I(1) by blast
  qed
qed

lemma publish_batch_sent:
  assumes "publish_batch p s = (r, s')" "sent_ok s" "keys_ok (st_db s)"
  shows "sent_ok s' \<and> (\<exists>I. marks_only I s s')"
proof -
  obtain res s1 where q: "claim_events (pb_batch p) (pb_lease p) s = (res, s1)" by fastforce
  have c: "marks_only {} s s1" "\<forall>recs. res = Inr recs \<longrightarrow> (\<forall>rec \<in> set recs. claimed_from (st_db s1) rec)"
    using claim_events_ok [OF q assms(3)] by auto
  have ok: "sent_ok s1" using marks_only_sent [OF c(1) assms(2)] by simp
  show ?thesis
  proof (cases res)
    case (Inl e)
    then show ?thesis using assms(1) q c ok by (auto simp: publish_batch_def bindT_def)
  next
    case (Inr recs)
    obtain y s2 where y: "refresh_metrics s1 = (y, s2)" by fastforce
    have m: "marks_only {} s1 s2" by (rule silent_marks [OF refresh_metrics_silent y])
    have ok2: "sent_ok s2" using marks_only_sent [OF m ok] by simp
    show ?thesis
    proof (cases y)
      case (Inl e)
      then show ?thesis using assms(1) q Inr y ok2 marks_only_then [OF c(1) m] by (auto simp: publish_batch_def bindT_def)
    next
      case (Inr u)
      then have "publish_events p recs s2 = (r, s')"
        using assms(1) q \<open>res = Inr recs\<close> y by (simp add: publish_batch_def bindT_def)
      moreover have "\<forall>rec \<in> set recs. claimed_from (st_db s2) rec"
        using c(2) \<open>res = Inr recs\<close> claimed_from_only m by blast
      ultimately have "sent_ok s' \<and> (\<exists>I. marks_only I s2 s')" using publish_events_sent ok2 by blast
      then show ?thesis using marks_only_trans [OF marks_only_then [OF c(1) m]] by blast
    qed
  qed
qed

lemma publish_batch_step: "publish_batch p s = (r, s') \<Longrightarrow> sent_ok s \<Longrightarrow> keys_ok (st_db s) \<Longrightarrow> ledger_step (st_db s) (st_db s')"
  using publish_batch_sent marks_only_step by blast

section \<open>A pass in which nothing fails\<close>

lemma quiet_step: "st_ticks s = [] \<Longrightarrow> next_tick s = (Quiet, s)"
  by (simp add: next_tick_def)

text \<open>\<open>m\<close> succeeds when no tick is left, and leaves none.\<close>

definition serene :: "(app_error, 'a) tx \<Rightarrow> bool" where
  "serene m \<longleftrightarrow> (\<forall>s. st_ticks s = [] \<longrightarrow> (\<exists>x s'. m s = (Inr x, s') \<and> st_ticks s' = []))"

lemma sereneD: "serene m \<Longrightarrow> st_ticks s = [] \<Longrightarrow> \<exists>x s'. m s = (Inr x, s') \<and> st_ticks s' = []"
  by (simp add: serene_def)

lemma serene_simps [intro, simp]:
  "serene (returnT x)" "serene (observe c)" "serene get_now" "serene (query f)" "serene (enqueue q)" "serene (error_text p)"
  by (auto simp: serene_def returnT_def observe_def get_now_def query_def map_errT_def pg_read_def pg_def enqueue_def
      error_text_def quiet_step split: list.splits)

lemma serene_bindT [intro]: "serene m \<Longrightarrow> (\<And>x. serene (k x)) \<Longrightarrow> serene (bindT m k)"
  unfolding serene_def bindT_def by fastforce

lemma serene_tryT [intro]: "serene m \<Longrightarrow> (\<And>x. serene (k (Inr x))) \<Longrightarrow> serene (tryT m k)"
  unfolding serene_def tryT_def by fastforce

lemma serene_refresh [intro, simp]: "serene refresh_metrics"
  unfolding refresh_metrics_def outbox_stats_def
  by (intro serene_tryT) (auto intro!: serene_bindT split: option.splits)

lemma serene_autocommit:
  "(\<And>s. \<exists>d x. f s = Inr (d, x)) \<Longrightarrow> serene (autocommit f)"
  unfolding serene_def autocommit_def
proof (intro allI impI)
  fix s :: world assume f: "\<And>s. \<exists>d x. f s = Inr (d, x)" and t: "st_ticks s = []"
  obtain d x where "f s = Inr (d, x)" using f by blast
  then show "\<exists>x s'. (case next_tick s of (t, s1) \<Rightarrow> if t = Fault then (Inl Infra, s1)
      else case f s1 of Inl _ \<Rightarrow> (Inl Infra, s1)
        | Inr (d, x) \<Rightarrow> (if t = Quiet then Inr x else Inl Infra, s1\<lparr>st_db := d\<rparr>)) = (Inr x, s') \<and> st_ticks s' = []"
    using t by (simp add: quiet_step)
qed

lemma serene_mark: "serene (mark_published i)"
  unfolding mark_published_def
  by (rule serene_autocommit) (use update_outbox_total same_event_def in fastforce)

lemma serene_schedule: "serene (schedule_retry i delay msg)"
  unfolding schedule_retry_def
  by (rule serene_autocommit) (use update_outbox_total same_event_def in fastforce)

lemma serene_publish_event: "serene (publish_event p rec)"
proof -
  have r: "serene (retry_event p rec)"
    unfolding retry_event_def Let_def
    by (rule serene_bindT, simp, rule serene_tryT, rule serene_schedule) (auto intro!: serene_bindT)
  have c: "serene (confirm_event rec)"
    unfolding confirm_event_def
    by (rule serene_tryT, rule serene_mark) (auto intro!: serene_bindT)
  have e: "serene (tryT (enqueue q) (\<lambda>res. case res of Inl _ \<Rightarrow> retry_event p rec | Inr _ \<Rightarrow> confirm_event rec))" for q
    by (rule serene_tryT) (use c in simp_all)
  show ?thesis
    using r e by (simp add: publish_event_def split: option.splits)
qed

lemma serene_publish_events: "serene (publish_events p recs)"
proof (induction recs)
  case (Cons rec recs)
  then show ?case by (auto intro!: serene_tryT serene_publish_event)
qed simp

text \<open>A published row stays published, and a quiet publication publishes its row.\<close>

definition published_in :: "db \<Rightarrow> string \<Rightarrow> bool" where
  "published_in d i \<longleftrightarrow> (\<forall>r \<in> set (db_outbox d). or_event_id r = i \<longrightarrow> or_published r \<noteq> None)"

lemma published_in_marks: "published_in (st_db s) i \<Longrightarrow> marks_only I s s' \<Longrightarrow> published_in (st_db s') i"
  by (auto simp: published_in_def marks_only_def marks_events_def publishes_only_def same_event_def)

lemma published_in_update:
  assumes "db_outbox d = map (\<lambda>r. if unpublished i r then f r else r) rs" "\<And>r. or_published (f r) \<noteq> None"
  shows "published_in d i"
  using assms unfolding published_in_def unpublished_def by (auto split: if_splits)

lemma mark_published_quiet:
  assumes "mark_published i s = (Inr u, s')"
  shows "published_in (st_db s') i"
proof -
  obtain t s1 where t: "next_tick s = (t, s1)" by fastforce
  let ?f = "\<lambda>r. r\<lparr>or_published := Some (st_pg_now s1), or_locked_until := None, or_last_error := None\<rparr>"
  obtain d where d: "sql_update_outbox (unpublished i) ?f s1 = Inr (d, ())"
    using update_outbox_total [of ?f] by (auto simp: same_event_def)
  have "s' = s1\<lparr>st_db := d\<rparr>" using assms t d by (auto simp: mark_published_def autocommit_def split: if_splits)
  moreover have "db_outbox d = map (\<lambda>r. if unpublished i r then ?f r else r) (db_outbox (st_db s1))"
    by (simp add: update_outbox_rows [OF d])
  ultimately show ?thesis using published_in_update [of d i ?f] by simp
qed

lemma publish_event_quiet:
  assumes "publish_event p rec s = (r, s')" "st_ticks s = []" "payload_wallet (ce_payload rec) = Some w" "w \<noteq> ''''"
  shows "published_in (st_db s') (ce_event_id rec)"
proof -
  obtain x s1 where q: "enqueue (SendEvent w (ce_payload rec) (ce_event_id rec)) s = (Inr x, s1)" "st_ticks s1 = []"
    using sereneD [OF serene_simps(5) assms(2)] by blast
  obtain u s2 where m: "mark_published (ce_event_id rec) s1 = (Inr u, s2)"
    using sereneD [OF serene_mark q(2)] by blast
  have k: "bindT (observe (Count ''outbox_published_total'')) (\<lambda>_. refresh_metrics) s2 = (r, s')"
    using assms q m by (simp add: publish_event_def confirm_event_def tryT_def)
  have "marks_only {} s2 s'"
    using silent_marks [OF counted_silent [OF refresh_metrics_silent] k] .
  then show ?thesis using mark_published_quiet [OF m] published_in_marks by blast
qed

lemma publish_events_quiet:
  assumes "publish_events p recs s = (r, s')" "st_ticks s = []"
    and "\<forall>rec \<in> set recs. \<exists>w. payload_wallet (ce_payload rec) = Some w \<and> w \<noteq> ''''"
  shows "(\<exists>I. marks_only I s s') \<and> (\<forall>rec \<in> set recs. published_in (st_db s') (ce_event_id rec))"
  using assms
proof (induction recs arbitrary: s)
  case Nil
  then show ?case by (auto simp: returnT_def intro: marks_only_refl [where qs = "[]"])
next
  case (Cons rec recs)
  obtain u s1 where q: "publish_event p rec s = (Inr u, s1)" "st_ticks s1 = []"
    using sereneD [OF serene_publish_event Cons.prems(2)] by blast
  have "publish_events p recs s1 = (r, s')" using Cons.prems(1) q by (simp add: tryT_def)
  then have ih: "\<exists>I. marks_only I s1 s'" "\<forall>x \<in> set recs. published_in (st_db s') (ce_event_id x)"
    using Cons.IH [of s1] q(2) Cons.prems(3) by auto
  obtain w where w: "payload_wallet (ce_payload rec) = Some w" "w \<noteq> ''''" using Cons.prems(3) by auto
  have "published_in (st_db s1) (ce_event_id rec)" using publish_event_quiet [OF q(1) Cons.prems(2) w] .
  then have "published_in (st_db s') (ce_event_id rec)" using ih(1) published_in_marks by blast
  moreover have "\<exists>I. marks_only I s s'"
    using publish_event_marks [OF q(1)] ih(1) marks_only_trans by blast
  ultimately show ?case using ih(2) by simp
qed

lemma due_ids_rows: "i \<in> set (due_ids batch s) \<Longrightarrow> \<exists>r \<in> set (db_outbox (st_db s)). or_event_id r = i"
  unfolding due_ids_def using set_take_subset by fastforce

lemma claim_quiet:
  assumes "st_ticks s = []"
  obtains recs s' where "claim_events batch lease s = (Inr recs, s')" "st_ticks s' = []"
    "\<And>i. i \<in> set (due_ids batch s) \<Longrightarrow> \<exists>rec \<in> set recs. ce_event_id rec = i"
    "\<And>rec. rec \<in> set recs \<Longrightarrow> \<exists>r \<in> set (db_outbox (st_db s)). or_payload r = ce_payload rec"
proof -
  let ?f = "\<lambda>r. r\<lparr>or_locked_until := Some (time_add (st_pg_now s) lease)\<rparr>"
  let ?hit = "\<lambda>r. List.member (due_ids batch s) (or_event_id r)"
  obtain d where d: "sql_update_outbox ?hit ?f s = Inr (d, ())"
    using update_outbox_total [of ?f] by (auto simp: same_event_def)
  let ?recs = "map claimed_event_of (filter ?hit (db_outbox (st_db s)))"
  have "sql_claim_events batch lease s = Inr (d, ?recs)" using d by (simp add: sql_claim_events_def Let_def)
  then have "claim_events batch lease s = (Inr ?recs, s\<lparr>st_db := d\<rparr>)"
    using assms by (simp add: claim_events_def within_tx_def execute_def map_errT_def pg_def quiet_step next_tick_def)
  then show thesis
  proof (rule that)
    show "\<exists>rec \<in> set ?recs. ce_event_id rec = i" if "i \<in> set (due_ids batch s)" for i
      using due_ids_rows [OF that] that by (fastforce simp: claimed_event_of_def)
  qed (use assms in \<open>auto simp: claimed_event_of_def\<close>)
qed

lemma publish_batch_quiet:
  assumes "st_ticks s = []"
    and "\<forall>r \<in> set (db_outbox (st_db s)). \<exists>w. payload_wallet (or_payload r) = Some w \<and> w \<noteq> ''''"
  shows "\<exists>s'. publish_batch p s = (Inr (), s') \<and> (\<forall>i \<in> set (due_ids (pb_batch p) s). published_in (st_db s') i)"
proof -
  obtain recs s1 where c: "claim_events (pb_batch p) (pb_lease p) s = (Inr recs, s1)" "st_ticks s1 = []"
    "\<And>i. i \<in> set (due_ids (pb_batch p) s) \<Longrightarrow> \<exists>rec \<in> set recs. ce_event_id rec = i"
    "\<And>rec. rec \<in> set recs \<Longrightarrow> \<exists>r \<in> set (db_outbox (st_db s)). or_payload r = ce_payload rec"
    using claim_quiet [OF assms(1)] by blast
  obtain u s2 where m: "refresh_metrics s1 = (Inr u, s2)" "st_ticks s2 = []"
    using sereneD [OF serene_refresh c(2)] by blast
  obtain v s' where e: "publish_events p recs s2 = (Inr v, s')"
    using sereneD [OF serene_publish_events m(2)] by blast
  have "\<forall>rec \<in> set recs. \<exists>w. payload_wallet (ce_payload rec) = Some w \<and> w \<noteq> ''''" using c(4) assms(2) by metis
  then have "\<forall>rec \<in> set recs. published_in (st_db s') (ce_event_id rec)"
    using publish_events_quiet [OF e m(2)] by blast
  then have "\<forall>i \<in> set (due_ids (pb_batch p) s). published_in (st_db s') i" using c(3) by blast
  moreover have "publish_batch p s = (Inr (), s')" using c(1) m(1) e by (simp add: publish_batch_def bindT_def)
  ultimately show ?thesis by blast
qed

section \<open>The group of the service's own events\<close>

lemma read_wallet_id_append: "read_wallet_id v (xs @ ys) =
    (case read_wallet_id v xs of None \<Rightarrow> None | Some v' \<Rightarrow> read_wallet_id v' ys)"
  by (induction v xs rule: read_wallet_id.induct) (auto split: json.splits option.splits)

lemma read_string_field_append: "read_string_field n v (xs @ ys) =
    (case read_string_field n v xs of None \<Rightarrow> None | Some v' \<Rightarrow> read_string_field n v' ys)"
  by (induction n v xs rule: read_string_field.induct) (auto split: json.splits)

lemma read_omit_empty:
  "\<not> same_field k ''data'' \<Longrightarrow> read_wallet_id v (omit_empty k x) = Some v"
  "\<not> same_field k n \<Longrightarrow> read_string_field n v (omit_empty k x) = Some v"
  by (simp_all add: omit_empty_def)

lemma same_field_names:
  "same_field ''data'' ''data''" "same_field ''walletId'' ''walletId''"
  "k \<in> {''eventId'', ''eventType'', ''aggregateId'', ''correlationId'', ''causationId'', ''occurredAt'', ''version''} \<Longrightarrow>
     \<not> same_field k ''data''"
  "k \<in> {''transactionId'', ''playerId'', ''kind'', ''origin'', ''externalTransactionId'', ''providerId'',
     ''idempotencyKey'', ''payloadHash'', ''roundId'', ''gameId'', ''referenceExternalTransactionId'', ''money'',
     ''status'', ''failureCode'', ''direction'', ''balanceBefore'', ''balanceAfter'', ''walletVersion'',
     ''pendingExpiresAt''} \<Longrightarrow> \<not> same_field k ''walletId''"
  by (auto simp: same_field_def lower_ascii_def)

lemma data_wallet: "event_data e = Inr j \<Longrightarrow> \<exists>xs. j = JObj xs \<and> read_string_field ''walletId'' v xs = Some (event_wallet e)"
  by (cases e) (auto simp: ok_iff read_string_field_append read_omit_empty same_field_names)

lemma payload_wallet_event:
  assumes "event_json e = Inr j"
  shows "payload_wallet j = Some (event_wallet e)"
proof -
  obtain d where d: "event_data e = Inr d" "j = JObj (envelope_fields (event_envelope_of e) @ [(''data'', d)])"
    using assms by (auto simp: event_json_def ok_iff)
  obtain xs where xs: "d = JObj xs" "read_string_field ''walletId'' '''' xs = Some (event_wallet e)"
    using data_wallet [OF d(1)] by blast
  have "read_wallet_id '''' (envelope_fields (event_envelope_of e)) = Some ''''"
    by (simp add: envelope_fields_def read_wallet_id_append read_omit_empty same_field_names)
  then show ?thesis using d(2) xs by (simp add: read_wallet_id_append same_field_names)
qed

lemma event_row_wallet: "event_row r \<Longrightarrow> \<exists>w. payload_wallet (or_payload r) = Some w \<and> w \<noteq> ''''"
  using payload_wallet_event by (auto simp: event_row_def)

section \<open>Properties\<close>

definition sample_event :: event where
  "sample_event = RejectedEvent
     \<lparr>ev_event_id = ''e'', ev_event_type = RejectedEventType, ev_aggregate_id = ''t'', ev_correlation_id = ''c'',
      ev_causation_id = '''', ev_occurred_at = rfc3339_utc sample_time, ev_version = 1\<rparr>
     \<lparr>rd_transaction_id = ''t'', rd_wallet_id = ''w'', rd_player_id = ''p'', rd_kind = Bet, rd_origin = External,
      rd_failure_code = ''insufficient_funds'', rd_status = Rejected\<rparr>"

definition sample_row :: outbox_row where
  "sample_row = \<lparr>or_event_id = ''e'', or_aggregate_type = ''WagerTransaction'', or_aggregate_id = ''t'',
     or_event_type = RejectedEventType, or_event_version = 1,
     or_payload = (case event_json sample_event of Inr j \<Rightarrow> j | Inl _ \<Rightarrow> JNum 0), or_occurred = sample_time,
     or_attempts = 0, or_next_attempt = sample_time, or_locked_until = None, or_published = None, or_last_error = None\<rparr>"

definition sample_world :: "tick list \<Rightarrow> outbox_row list \<Rightarrow> world" where
  "sample_world ts os = \<lparr>st_db = empty_db\<lparr>db_outbox := os\<rparr>, st_ticks = ts, st_ids = [], st_now = [], st_pg_now = sample_time,
     st_seq = 1, st_uuid = Some, st_time = (\<lambda>t. t), st_metrics = [], st_queue = [], st_stopped = [], st_locked = []\<rparr>"

definition sample_publisher :: publisher where
  "sample_publisher = \<lparr>pb_batch = 10, pb_lease = 30, pb_retry_base = 1, pb_retry_max = 60, pb_error_text = (\<lambda>_. ''e'')\<rparr>"

lemma sample_row_ok: "event_row sample_row"
  unfolding event_row_def
  by (intro exI [of _ sample_event]) (simp add: sample_row_def sample_event_def event_json_def)

text \<open>
  C19: a pass of the publisher in which nothing fails returns no error and publishes every event it
  claimed: all that were due, oldest first, up to the batch size. The payloads the service writes
  always decode, so no committed event can keep the others waiting.
\<close>
theorem publisher_quiet_pass:
  assumes "outbox_ok (st_db s)" "st_ticks s = []"
  shows "\<exists>s'. publish_batch p s = (Inr (), s') \<and> (\<forall>i \<in> set (due_ids (pb_batch p) s). published_in (st_db s') i)"
  using assms(2) by (rule publish_batch_quiet) (use assms(1) event_row_wallet in \<open>simp add: outbox_ok_def\<close>)

theorem publisher_quiet_pass_witness:
  "due_ids 10 (sample_world [] [sample_row]) = [''e''] \<and>
   (\<exists>s'. publish_batch sample_publisher (sample_world [] [sample_row]) = (Inr (), s') \<and> published_in (st_db s') ''e'')"
proof
  have due: "due_ids 10 (sample_world [] [sample_row]) = [''e'']"
    by (simp add: due_ids_def due_event_def sample_world_def sample_row_def empty_db_def)
  then show "due_ids 10 (sample_world [] [sample_row]) = [''e'']" .
  have "outbox_ok (st_db (sample_world [] [sample_row]))" "st_ticks (sample_world [] [sample_row]) = []"
    using sample_row_ok by (simp_all add: outbox_ok_def sample_world_def empty_db_def)
  from publisher_quiet_pass [OF this, of sample_publisher] due
  show "\<exists>s'. publish_batch sample_publisher (sample_world [] [sample_row]) = (Inr (), s') \<and> published_in (st_db s') ''e''"
    by (simp add: sample_publisher_def)
qed

text \<open>
  C18: whatever fails during a pass, an event is marked as published only after the queue accepted it,
  with the payload of its row, under its own id as the deduplication id, and in the group of its
  wallet; and the pass changes nothing else in the database.
\<close>
theorem publisher_sends_before_marking:
  assumes "keys_ok (st_db s)" "sent_ok s" "publish_batch p s = (r, s')"
  shows "sent_ok s' \<and> (\<exists>f. marks_events (st_db s) f (st_db s'))"
  using publish_batch_sent [OF assms(3,2,1)] by (auto simp: marks_only_def)

theorem publisher_sends_before_marking_witness:
  "sent_ok (snd (publish_batch sample_publisher (sample_world [Quiet, Quiet, Quiet, FaultAfter] [sample_row])))"
proof -
  let ?s = "sample_world [Quiet, Quiet, Quiet, FaultAfter] [sample_row]"
  have "keys_ok (st_db ?s)" "sent_ok ?s"
    by (simp_all add: keys_ok_def sent_ok_def sample_world_def empty_db_def sample_row_def)
  from publisher_sends_before_marking [OF this, of sample_publisher "fst (publish_batch sample_publisher ?s)"
      "snd (publish_batch sample_publisher ?s)"]
  show ?thesis by simp
qed
end
