(* ===== verification/Consumer.thy ===== *)
theory Consumer
  imports ProcessOperation JsonDecode Backoff
begin

text \<open>
  The queue consumer of \<open>internal/consumer/consumer.go\<close>: decoding an envelope, processing it in the
  transaction of its inbox row, and what becomes of the message: deleted, hidden until a retry, or
  sent to the dead-letter queue. Handlers run one after the other here, each against any state of
  the service; \<open>ConsumerLoop\<close> lets them interleave.
\<close>

section \<open>Messages\<close>

text \<open>
  A received message; the last two fields are the attributes \<open>MessageGroupId\<close> and
  \<open>ApproximateReceiveCount\<close>, empty when absent.
\<close>

record sqs_message =
  sm_id :: string
  sm_body :: string
  sm_receipt :: string
  sm_group :: string
  sm_receive_count :: string

record consumer =
  cs_retry_base :: int64
  cs_retry_max :: int64
  cs_allowlist :: "string list"

abbreviation ConsumerName :: string where "ConsumerName \<equiv> ''wager-transactions''"
abbreviation ChannelSQS :: string where "ChannelSQS \<equiv> ''sqs''"

section \<open>The envelope\<close>

record envelope_money =
  vm_amount :: string
  vm_currency :: string

record envelope_data =
  vd_provider_id :: string
  vd_external_id :: string
  vd_player_id :: string
  vd_wallet_id :: string
  vd_round_id :: string
  vd_game_id :: string
  vd_kind :: string
  vd_key :: string
  vd_money :: envelope_money
  vd_reference :: "string ptr"

record envelope =
  vl_type :: string
  vl_message_id :: string
  vl_occurred_at :: string
  vl_data :: envelope_data

definition zero_envelope_money :: envelope_money where
  "zero_envelope_money = \<lparr>vm_amount = '''', vm_currency = ''''\<rparr>"

definition zero_envelope_data :: envelope_data where
  "zero_envelope_data = \<lparr>vd_provider_id = '''', vd_external_id = '''', vd_player_id = '''', vd_wallet_id = '''',
     vd_round_id = '''', vd_game_id = '''', vd_kind = '''', vd_key = '''', vd_money = zero_envelope_money,
     vd_reference = None\<rparr>"

definition zero_envelope :: envelope where
  "zero_envelope = \<lparr>vl_type = '''', vl_message_id = '''', vl_occurred_at = '''', vl_data = zero_envelope_data\<rparr>"

definition set_envelope_money :: "envelope_money setter" where
  "set_envelope_money n x m =
     (if n = ''amount'' then (case string_value x (vm_amount m) of (b, s) \<Rightarrow> Inr (b, m\<lparr>vm_amount := s\<rparr>))
      else (case string_value x (vm_currency m) of (b, s) \<Rightarrow> Inr (b, m\<lparr>vm_currency := s\<rparr>)))"

definition data_names :: "string list" where
  "data_names = [''providerId'', ''externalTransactionId'', ''playerId'', ''walletId'', ''roundId'', ''gameId'', ''kind'',
     ''idempotencyKey'', ''money'', ''referenceExternalTransactionId'']"

definition set_envelope_data :: "envelope_data setter" where
  "set_envelope_data n x d =
     (if n = ''providerId'' then set_text x (vd_provider_id d) (\<lambda>s. d\<lparr>vd_provider_id := s\<rparr>)
      else if n = ''externalTransactionId'' then set_text x (vd_external_id d) (\<lambda>s. d\<lparr>vd_external_id := s\<rparr>)
      else if n = ''playerId'' then set_text x (vd_player_id d) (\<lambda>s. d\<lparr>vd_player_id := s\<rparr>)
      else if n = ''walletId'' then set_text x (vd_wallet_id d) (\<lambda>s. d\<lparr>vd_wallet_id := s\<rparr>)
      else if n = ''roundId'' then set_text x (vd_round_id d) (\<lambda>s. d\<lparr>vd_round_id := s\<rparr>)
      else if n = ''gameId'' then set_text x (vd_game_id d) (\<lambda>s. d\<lparr>vd_game_id := s\<rparr>)
      else if n = ''kind'' then set_text x (vd_kind d) (\<lambda>s. d\<lparr>vd_kind := s\<rparr>)
      else if n = ''idempotencyKey'' then set_text x (vd_key d) (\<lambda>s. d\<lparr>vd_key := s\<rparr>)
      else if n = ''money'' then
        bindE (decode_struct set_envelope_money [''amount'', ''currency''] x (vd_money d)) (\<lambda>(b, m).
        Inr (b, d\<lparr>vd_money := m\<rparr>))
      else (case string_pointer x (vd_reference d) of (b, p) \<Rightarrow> Inr (b, d\<lparr>vd_reference := p\<rparr>)))"

definition set_envelope :: "envelope setter" where
  "set_envelope n x e =
     (if n = ''type'' then set_text x (vl_type e) (\<lambda>s. e\<lparr>vl_type := s\<rparr>)
      else if n = ''messageId'' then set_text x (vl_message_id e) (\<lambda>s. e\<lparr>vl_message_id := s\<rparr>)
      else if n = ''occurredAt'' then set_text x (vl_occurred_at e) (\<lambda>s. e\<lparr>vl_occurred_at := s\<rparr>)
      else bindE (decode_struct set_envelope_data data_names x (vl_data e)) (\<lambda>(b, d). Inr (b, e\<lparr>vl_data := d\<rparr>)))"

text \<open>A text that does not decode, or goes on after the object, gives an error that carries no name.\<close>

definition decode_envelope :: "string \<Rightarrow> app_error + envelope" where
  "decode_envelope body =
     (case decode_single set_envelope [''type'', ''messageId'', ''occurredAt'', ''data''] zero_envelope body of
        Inl _ \<Rightarrow> Inl Infra
      | Inr e \<Rightarrow>
          if vl_type e = '''' \<or> vl_message_id e = '''' \<or> vd_key (vl_data e) = '''' then Inl ErrMalformedEnvelope
          else if vl_type e \<noteq> ''WagerTransactionRequested'' then Inl ErrUnknownEnvelopeType
          else Inr e)"

definition envelope_input :: "envelope \<Rightarrow> app_error + process_input" where
  "envelope_input e =
     (let d = vl_data e in
      bindE (map_err MoneyErr (money_parse (vm_amount (vd_money d)) (vm_currency (vd_money d)))) (\<lambda>m.
      Inr \<lparr>pr_request = \<lparr>rq_provider_id = vd_provider_id d, rq_external_id = vd_external_id d,
               rq_player_id = vd_player_id d, rq_wallet_id = vd_wallet_id d, rq_round_id = vd_round_id d,
               rq_game_id = vd_game_id d, rq_kind = vd_kind d, rq_money = m, rq_reference = vd_reference d\<rparr>,
           pr_key = vd_key d, pr_correlation_id = vl_message_id e, pr_causation_id = vl_message_id e,
           pr_channel = ChannelSQS\<rparr>))"

definition allowed_provider :: "consumer \<Rightarrow> string \<Rightarrow> bool" where
  "allowed_provider c p = list_ex (\<lambda>candidate. p = candidate) (cs_allowlist c)"

section \<open>Classifying errors\<close>

definition is_permanent :: "app_error \<Rightarrow> bool" where
  "is_permanent e \<longleftrightarrow> e = ErrInboxHashMismatch \<or>
     (case e of OpErr o' \<Rightarrow> classification_for (err_code o') \<noteq> Some Unavailable | _ \<Rightarrow> False)"

definition permanent_reason :: "app_error \<Rightarrow> string" where
  "permanent_reason e =
     (case e of
        ErrMalformedEnvelope \<Rightarrow> ''MALFORMED_ENVELOPE''
      | ErrUnknownEnvelopeType \<Rightarrow> ''UNKNOWN_ENVELOPE_TYPE''
      | ErrInboxHashMismatch \<Rightarrow> ''message_id_hash_mismatch''
      | OpErr o' \<Rightarrow> err_code o'
      | _ \<Rightarrow> ''permanent_processing_failure'')"

section \<open>Processing\<close>

definition no_result :: process_result where
  "no_result = \<lparr>ps_transaction_id = '''', ps_status = '''', ps_failure_code = '''', ps_balance = zero_money,
     ps_expires = None, ps_replay = False, ps_kind = ''''\<rparr>"

definition is_message :: "string \<Rightarrow> inbox_row \<Rightarrow> bool" where
  "is_message mid m \<longleftrightarrow> ir_consumer m = ConsumerName \<and> ir_message m = mid"

definition sql_complete_message :: "string \<Rightarrow> world \<Rightarrow> pg_error + (db \<times> unit)" where
  "sql_complete_message mid s = (let d = st_db s in
     Inr (d\<lparr>db_inbox := map (\<lambda>m. if is_message mid m then m\<lparr>ir_completed := Some (st_pg_now s)\<rparr> else m) (db_inbox d)\<rparr>, ()))"

definition find_message_hash :: "string \<Rightarrow> (app_error, string) tx" where
  "find_message_hash mid =
     bindT (query (\<lambda>s. List.find (is_message mid) (db_inbox (st_db s)))) (\<lambda>r.
     case r of None \<Rightarrow> failT Infra | Some m \<Rightarrow> returnT (ir_hash m))"

text \<open>The transaction of one attempt: a result and whether the delivery was a duplicate.\<close>

definition process_in_tx :: "use_case \<Rightarrow> string \<Rightarrow> prepared_operation \<Rightarrow> (app_error, process_result \<times> bool) tx" where
  "process_in_tx uc mid p =
     bindT new_id (\<lambda>i.
     bindT (execute (sql_insert_inbox_nothing
        \<lparr>ir_id = i, ir_consumer = ConsumerName, ir_message = mid, ir_hash = po_hash p, ir_completed = None\<rparr>)) (\<lambda>n.
     if n = 0 then
       bindT (find_message_hash mid) (\<lambda>h.
       if h \<noteq> po_hash p then failT ErrInboxHashMismatch else returnT (no_result, True))
     else
       bindT (execute_in_tx uc p) (\<lambda>res.
       bindT (execute (sql_complete_message mid)) (\<lambda>_. returnT (res, False)))))"

text \<open>The third component asks for another attempt; its transaction was rolled back.\<close>

definition process_once :: "use_case \<Rightarrow> string \<Rightarrow> prepared_operation \<Rightarrow> (app_error, process_result \<times> bool \<times> bool) tx" where
  "process_once uc mid p =
     tryT (within_tx (process_in_tx uc mid p)) (\<lambda>r. case r of
       Inl e \<Rightarrow> if e = ErrRetryInNewTransaction then returnT (no_result, False, True) else failT e
     | Inr (res, duplicate) \<Rightarrow> returnT (res, duplicate, False))"

fun process_attempts :: "nat \<Rightarrow> use_case \<Rightarrow> string \<Rightarrow> prepared_operation \<Rightarrow> (app_error, process_result \<times> bool) tx" where
  "process_attempts 0 uc mid p = failT (OpErr TemporarilyUnavailable)"
| "process_attempts (Suc n) uc mid p =
     bindT (process_once uc mid p) (\<lambda>(res, duplicate, again).
     if \<not> again then returnT (res, duplicate) else process_attempts n uc mid p)"

definition consumer_process :: "use_case \<Rightarrow> string \<Rightarrow> prepared_operation \<Rightarrow> (app_error, process_result \<times> bool) tx" where
  "consumer_process = process_attempts 2"

section \<open>The fate of a message\<close>

text \<open>
  \<open>fmt.Sscanf\<close> with \<open>%d\<close>: white space but no line feed, a sign and digits; anything else, or a number outside 64 bits,
  leaves 0. The white space outside ASCII that Go skips too never occurs in this attribute of SQS.
\<close>

definition scan_count :: "string \<Rightarrow> int" where
  "scan_count s =
     (let s1 = dropWhile (\<lambda>c. c \<in> {CHR 0x09, CHR 0x0B, CHR 0x0C, CHR 0x0D, CHR '' ''}) s;
          neg = (s1 \<noteq> [] \<and> hd s1 = CHR ''-'');
          s2 = (if s1 \<noteq> [] \<and> (hd s1 = CHR ''-'' \<or> hd s1 = CHR ''+'') then tl s1 else s1);
          ds = takeWhile is_digit s2; n = int (dec_val ds);
          v = (if neg then - n else n)
      in if ds = [] \<or> v < - (2 ^ 63) \<or> 2 ^ 63 \<le> v then 0 else v)"

definition receive_count :: "sqs_message \<Rightarrow> int" where
  "receive_count m = (let n = scan_count (sm_receive_count m) in if n < 1 then 1 else n)"

text \<open>
  \<open>math.Ceil(d.Seconds())\<close>, at least 0. The floating point is exact enough for this to be the integer
  ceiling for every delay SQS accepts, which is at most twelve hours.
\<close>

definition seconds :: "int64 \<Rightarrow> int" where
  "seconds d = (let n = - ((- sint d) div 1000000000) in if n < 0 then 0 else n)"

definition send_dlq :: "sqs_message \<Rightarrow> (app_error, unit) tx" where
  "send_dlq m = enqueue (SendDeadLetter (if sm_group m = '''' then ''invalid'' else sm_group m) (sm_body m) (sm_id m))"

definition delete_message :: "sqs_message \<Rightarrow> (app_error, unit) tx" where
  "delete_message m = enqueue (DeleteMessage (sm_receipt m))"

definition change_visibility :: "sqs_message \<Rightarrow> int64 \<Rightarrow> (app_error, unit) tx" where
  "change_visibility m delay =
     enqueue (SetVisibility (sm_receipt m) (sint (word_of_int (seconds delay) :: 32 word)))"

definition retry_message :: "consumer \<Rightarrow> sqs_message \<Rightarrow> (app_error, unit) tx" where
  "retry_message c m =
     (let delay = exponential (receive_count m - 1) (cs_retry_base c) (cs_retry_max c) in
      tryT (change_visibility m delay) (\<lambda>r. case r of
        Inl _ \<Rightarrow> returnT ()
      | Inr _ \<Rightarrow> observe (Count ''sqs_consumer_retries_total'')))"

definition reject_message :: "consumer \<Rightarrow> sqs_message \<Rightarrow> string \<Rightarrow> (app_error, unit) tx" where
  "reject_message c m reason =
     tryT (send_dlq m) (\<lambda>r. case r of
       Inl _ \<Rightarrow> retry_message c m
     | Inr _ \<Rightarrow> tryT (delete_message m) (\<lambda>r'. case r' of
         Inl _ \<Rightarrow> returnT ()
       | Inr _ \<Rightarrow> observe (Count (''sqs_consumer_dlq_total:'' @ reason))))"

text \<open>What follows the processing of a message.\<close>

definition settle_message ::
    "consumer \<Rightarrow> sqs_message \<Rightarrow> app_error + (process_result \<times> bool) \<Rightarrow> (app_error, unit) tx" where
  "settle_message c m r =
     (case r of
        Inl e \<Rightarrow> if is_permanent e then reject_message c m (permanent_reason e) else retry_message c m
      | Inr (res, duplicate) \<Rightarrow>
          bindT (if duplicate then observe (Count ''sqs_consumer_duplicate_messages_total'')
                 else bindT get_now (\<lambda>_. record_outcome ChannelSQS res)) (\<lambda>_.
          tryT (delete_message m) (\<lambda>_. returnT ())))"

definition handle_input :: "use_case \<Rightarrow> consumer \<Rightarrow> sqs_message \<Rightarrow> string \<Rightarrow> process_input \<Rightarrow> (app_error, unit) tx" where
  "handle_input uc c m mid i =
     (case prepare i of
        Inl e \<Rightarrow> reject_message c m (permanent_reason e)
      | Inr p \<Rightarrow> tryT (consumer_process uc mid p) (settle_message c m))"

definition handle_message :: "use_case \<Rightarrow> consumer \<Rightarrow> sqs_message \<Rightarrow> (app_error, unit) tx" where
  "handle_message uc c m =
     bindT get_now (\<lambda>_.
     case decode_envelope (sm_body m) of
       Inl e \<Rightarrow> reject_message c m (permanent_reason e)
     | Inr e \<Rightarrow>
         if \<not> allowed_provider c (vd_provider_id (vl_data e)) then reject_message c m ''provider_not_allowed''
         else case envelope_input e of
           Inl err \<Rightarrow> reject_message c m (permanent_reason err)
         | Inr i \<Rightarrow> handle_input uc c m (vl_message_id e) i)"

section \<open>A received batch\<close>

text \<open>Messages that were received but not dispatched, or are still being handled, at a shutdown.\<close>

fun release_messages :: "sqs_message list \<Rightarrow> (app_error, unit) tx" where
  "release_messages [] = returnT ()"
| "release_messages (m # ms) = tryT (change_visibility m 0) (\<lambda>_. release_messages ms)"

text \<open>
  The dispatch loop: \<open>receiveCtx\<close> is looked at before a message waits for a worker and after it got one.
\<close>

fun dispatch :: "use_case \<Rightarrow> consumer \<Rightarrow> sqs_message list \<Rightarrow> (app_error, unit) tx" where
  "dispatch uc c [] = returnT ()"
| "dispatch uc c (m # ms) =
     bindT ctx_err (\<lambda>stopped. if stopped then release_messages (m # ms) else
     bindT ctx_err (\<lambda>stopped_waiting. if stopped_waiting then release_messages (m # ms) else
     bindT (handle_message uc c m) (\<lambda>_. dispatch uc c ms)))"

definition receive_batch :: "use_case \<Rightarrow> consumer \<Rightarrow> sqs_message list \<Rightarrow> (app_error, unit) tx" where
  "receive_batch uc c ms = bindT ctx_err (\<lambda>stopped. if stopped then release_messages ms else dispatch uc c ms)"
end
