(* ===== verification/Frame.thy ===== *)
theory Frame
  imports Consumer WalletUseCases ReferenceWorker
begin

text \<open>
  What the operations of the service leave alone: a part of the world that the database, the clocks
  and the counters do not reach is the same after every use case. The queue is such a part.
\<close>

named_theorems keeps \<open>operations that keep a view of the world\<close>

definition keeps :: "(world \<Rightarrow> 'v) \<Rightarrow> ('e, 'a) tx \<Rightarrow> bool" where
  "keeps view m \<longleftrightarrow> (\<forall>s. view (snd (m s)) = view s)"

lemma keepsD: "keeps view m \<Longrightarrow> m s = (r, s') \<Longrightarrow> view s' = view s"
  by (metis keeps_def snd_conv)

lemma keeps_bindT: "keeps view m \<Longrightarrow> (\<And>x. keeps view (k x)) \<Longrightarrow> keeps view (bindT m k)"
  by (simp add: keeps_def bindT_def split: prod.splits sum.splits) (metis snd_conv)

lemma keeps_tryT: "keeps view m \<Longrightarrow> (\<And>x. keeps view (k x)) \<Longrightarrow> keeps view (tryT m k)"
  by (simp add: keeps_def tryT_def split: prod.splits) (metis snd_conv)

lemma keeps_map_errT: "keeps view m \<Longrightarrow> keeps view (map_errT f m)"
  by (simp add: keeps_def map_errT_def split: prod.splits) (metis snd_conv)

lemma keeps_plain [keeps]: "keeps view (returnT x)" "keeps view (failT e)" "keeps view (liftE r)"
  by (simp_all add: keeps_def returnT_def failT_def liftE_def)

locale frame =
  fixes view :: "world \<Rightarrow> 'v"
  assumes view_db: "view (s\<lparr>st_db := d\<rparr>) = view s"
    and view_ticks: "view (s\<lparr>st_ticks := ts\<rparr>) = view s"
    and view_ids: "view (s\<lparr>st_ids := is\<rparr>) = view s"
    and view_now: "view (s\<lparr>st_now := cs\<rparr>) = view s"
    and view_seq: "view (s\<lparr>st_seq := n\<rparr>) = view s"
    and view_metrics: "view (s\<lparr>st_metrics := ms\<rparr>) = view s"
    and view_stopped: "view (s\<lparr>st_stopped := bs\<rparr>) = view s"
begin

lemmas view_updates = view_db view_ticks view_ids view_now view_seq view_metrics view_stopped

lemma next_tick_view: "next_tick s = (t, s') \<Longrightarrow> view s' = view s"
  by (auto simp: next_tick_def view_updates split: list.splits)

lemma input_keeps [keeps]:
  "keeps view new_id" "keeps view get_now" "keeps view (observe q)" "keeps view ctx_err" "keeps view next_seq"
  by (auto simp: keeps_def new_id_def get_now_def observe_def ctx_err_def next_seq_def view_updates split: list.splits)

lemma pg_keeps [keeps]: "keeps view (pg f)"
  by (auto simp: keeps_def pg_def view_updates dest: next_tick_view split: prod.splits sum.splits)

lemma statement_keeps [keeps]: "keeps view (pg_read g)" "keeps view (query g)" "keeps view (execute f)" "keeps view get_world"
  unfolding pg_read_def query_def execute_def
  by (intro keeps_map_errT pg_keeps)+ (simp add: keeps_def get_world_def)

lemma keeps_within: "keeps view m \<Longrightarrow> keeps view (within_tx m)"
proof -
  assume m: "keeps view m"
  have "view s' = view s" if w: "within_tx m s = (r, s')" for s r s'
  proof -
    obtain t s1 where t: "next_tick s = (t, s1)" by fastforce
    obtain q s2 where q: "m s1 = (q, s2)" by fastforce
    obtain t' s3 where t': "next_tick s2 = (t', s3)" by fastforce
    have "view s1 = view s" "view s2 = view s1" "view s3 = view s2"
      using next_tick_view [OF t] keepsD [OF m q] next_tick_view [OF t'] by simp_all
    then show ?thesis using w t q t' by (auto simp: within_tx_def view_updates split: if_splits sum.splits)
  qed
  then show ?thesis by (metis keeps_def prod.collapse)
qed

lemma find_existing_keeps [keeps]: "keeps view m \<Longrightarrow> keeps view (find_existing m)"
  unfolding find_existing_def by (intro keeps_tryT) (auto intro: keeps split: sum.splits)

lemma not_found_as_keeps [keeps]: "keeps view m \<Longrightarrow> keeps view (not_found_as e m)"
  unfolding not_found_as_def by (intro keeps_map_errT)

lemma find_tx_keeps [keeps]: "keeps view (find_tx P)" "keeps view (txs_find_existing P)" "keeps view (txs_find_detail P)"
  unfolding find_tx_def txs_find_existing_def txs_find_detail_def
  by (intro keeps keeps_bindT)+

lemma worker_jitter_keeps [keeps]: "keeps view (worker_jitter w delay)"
  by (simp add: keeps_def worker_jitter_def)

lemmas keeps_rules = keeps_bindT keeps_tryT keeps_map_errT keeps_within

lemma repositories_keep [keeps]:
  "keeps view (wallets_insert x1)" "keeps view (wallets_find x2)" "keeps view (wallets_update_balance x3 x4)" "keeps
  view (txs_insert x5 x6)" "keeps view (txs_insert_new x7 x8)" "keeps view (txs_insert_pending x9 x10 x11)" "keeps
  view (txs_find_by_key x12 x13)" "keeps view (txs_find_by_external x14 x15)" "keeps view (txs_find_reference x16
  x17)" "keeps view (txs_exists_reversal x18)" "keeps view (txs_find_pending_for_update x19)" "keeps view
  (txs_reschedule_pending x20 x21 x22)" "keeps view (txs_complete_pending x23 x24)" "keeps view
  (txs_find_detail_by_id x25)" "keeps view (txs_find_detail_by_external x26 x27)" "keeps view (ledger_insert x28)"
  "keeps view (ledger_list x29 x30 x31)" "keeps view (ledger_reconcile x32)" "keeps view (outbox_insert x33)"
  unfolding wallets_insert_def wallets_find_def wallets_update_balance_def txs_insert_def txs_insert_new_def
    txs_insert_pending_def txs_find_by_key_def txs_find_by_external_def txs_find_reference_def
    txs_exists_reversal_def txs_find_pending_for_update_def txs_reschedule_pending_def
    txs_complete_pending_def txs_find_detail_by_id_def txs_find_detail_by_external_def ledger_insert_def
    ledger_list_def ledger_reconcile_def outbox_insert_def Let_def
  by (intro keeps keeps_rules | auto intro: keeps split: option.splits sum.splits prod.splits)+

lemma lookups_keep [keeps]:
  "keeps view (wallets_find_by_id x1)" "keeps view (wallets_find_for_update x2)" "keeps view (lookup_existing x3 x4
  x5)" "keeps view (resolve_decision x6 x7)" "keeps view (write_outbox_events x8 x9 x10 x11 x12 x13)" "keeps view
  (record_outcome x14 x15)" "keeps view (persist_movement x16 x17)" "keeps view (move_new x18 x19 x20 x21 x22)"
  unfolding wallets_find_by_id_def wallets_find_for_update_def lookup_existing_def resolve_decision_def
    write_outbox_events_def record_outcome_def persist_movement_def move_new_def Let_def
  by (intro keeps keeps_rules | auto intro: keeps split: option.splits sum.splits prod.splits)+

lemma handlers_keep [keeps]:
  "keeps view (process_pending_new x1 x2 x3 x4 x5)" "keeps view (record_new x6 x7 x8 x9 x10)" "keeps view
  (reject_pending x11 x12 x13 x14)" "keeps view (process_pending x15 x16 x17 x18)"
  unfolding process_pending_new_def record_new_def reject_pending_def process_pending_def Let_def
  by (intro keeps keeps_rules | auto intro: keeps split: option.splits sum.splits prod.splits)+

lemma new_operation_keep [keeps]:
  "keeps view (process_new x1 x2 x3 x4 x5 x6)" "keeps view (resume_decided x7 x8 x9 x10 x11 x12)"
  unfolding process_new_def resume_decided_def Let_def
  by (intro keeps keeps_rules | auto intro: keeps split: option.splits sum.splits prod.splits)+

lemma attempt_keep [keeps]:
  "keeps view (attempt x1 x2 x3 x4 x5)" "keeps view (resume_body x6 x7 x8)"
  unfolding attempt_def resume_body_def Let_def
  by (intro keeps keeps_rules | auto intro: keeps split: option.splits sum.splits prod.splits)+

lemma execution_keep [keeps]:
  "keeps view (execute_in_tx x1 x2)" "keeps view (resume_pending x3 x4 x5)" "keeps view (fail_pending x6 x7)" "keeps
  view (reschedule_pending_after_failure x8 x9 x10)"
  unfolding execute_in_tx_def resume_pending_def fail_pending_def reschedule_pending_after_failure_def Let_def
  by (intro keeps keeps_rules | auto intro: keeps split: option.splits sum.splits prod.splits)+

lemma processing_keep [keeps]:
  "keeps view (run_in_new_tx x1 x2)" "keeps view (process_with_retry x3 x4)"
  unfolding run_in_new_tx_def process_with_retry_def Let_def
  by (intro keeps keeps_rules | auto intro: keeps split: option.splits sum.splits prod.splits)+

lemma use_cases_keep [keeps]:
  "keeps view (process x1 x2)" "keeps view (money_step x3)" "keeps view (domain_step x4)" "keeps view (open_metadata
  x5 x6)" "keeps view (open_ids x7)" "keeps view (open_transaction x8 x9 x10 x11 x12)" "keeps view (get_wallet x13)"
  "keeps view (get_by_id x14 x15)" "keeps view (get_by_provider_external_id x16 x17 x18)" "keeps view (audit_list x19
  x20 x21)" "keeps view (audit_reconcile x22)"
  unfolding process_def money_step_def domain_step_def open_metadata_def open_ids_def open_transaction_def
    get_wallet_def get_by_id_def get_by_provider_external_id_def audit_list_def audit_reconcile_def Let_def
  by (intro keeps keeps_rules | auto intro: keeps split: option.splits sum.splits prod.splits)+

lemma opening_keep [keeps]:
  "keeps view (open_body x1 x2 x3 x4)"
  unfolding open_body_def Let_def
  by (intro keeps keeps_rules | auto intro: keeps split: option.splits sum.splits prod.splits)+

lemma open_use_case_keep [keeps]:
  "keeps view (open_use_case x1)"
  unfolding open_use_case_def Let_def
  by (intro keeps keeps_rules | auto intro: keeps split: option.splits sum.splits prod.splits)+

lemma worker_keep [keeps]:
  "keeps view (worker_claim x1 x2)" "keeps view worker_pending" "keeps view worker_metrics"
  unfolding worker_claim_def worker_pending_def worker_metrics_def Let_def
  by (intro keeps keeps_rules | auto intro: keeps split: option.splits sum.splits prod.splits)+

lemma after_failure_keep [keeps]:
  "keeps view (after_failure x1 x2 x3)"
  unfolding after_failure_def Let_def
  by (intro keeps keeps_rules | auto intro: keeps split: option.splits sum.splits prod.splits)+

lemma process_record_keep [keeps]:
  "keeps view (process_record x1 x2)"
  unfolding process_record_def Let_def
  by (intro keeps keeps_rules | auto intro: keeps split: option.splits sum.splits prod.splits)+

lemma process_records_keeps [keeps]: "keeps view (process_records w rs)"
  by (induction rs) (auto intro!: keeps keeps_bindT)

lemma process_batch_keep [keeps]:
  "keeps view (process_batch x1)"
  unfolding process_batch_def Let_def
  by (intro keeps keeps_rules | auto intro: keeps split: option.splits sum.splits prod.splits)+

lemma consumer_keep [keeps]:
  "keeps view (find_message_hash x1)"
  unfolding find_message_hash_def Let_def
  by (intro keeps keeps_rules | auto intro: keeps split: option.splits sum.splits prod.splits)+

lemma process_in_tx_keep [keeps]:
  "keeps view (process_in_tx x1 x2 x3)"
  unfolding process_in_tx_def Let_def
  by (intro keeps keeps_rules | auto intro: keeps split: option.splits sum.splits prod.splits)+

lemma process_once_keep [keeps]:
  "keeps view (process_once x1 x2 x3)"
  unfolding process_once_def Let_def
  by (intro keeps keeps_rules | auto intro: keeps split: option.splits sum.splits prod.splits)+

lemma consumer_process_keeps [keeps]: "keeps view (process_attempts n uc mid p)" "keeps view (consumer_process uc mid p)"
proof -
  show "keeps view (process_attempts n uc mid p)" for n
    by (induction n) (auto intro!: keeps keeps_bindT split: prod.splits)
  then show "keeps view (consumer_process uc mid p)" by (simp add: consumer_process_def)
qed

end

interpretation queue_frame: frame st_queue
  by unfold_locales simp_all
end
