(* ===== verification/ConsumerSteps.thy ===== *)
theory ConsumerSteps
  imports Frame ProcessSteps
begin

text \<open>
  What handling a message does: the inbox row and the effect of the operation are committed together
  or not at all, a delivery the inbox knows changes nothing, and a message is deleted only once one
  of its fates is durable.
\<close>

section \<open>Known messages stay known\<close>

lemma db_step_inbox: "db_step d d' \<Longrightarrow>
   set (map (\<lambda>m. (ir_consumer m, ir_message m)) (db_inbox d)) \<subseteq> set (map (\<lambda>m. (ir_consumer m, ir_message m)) (db_inbox d'))"
proof (induction rule: db_step.induct)
  case (processed d t d1 e d2 os d')
  then show ?case by (auto simp: adds_tx_def adds_events_def moves_def adds_entry_def set_balance_def)
next
  case (settled_processed d i f d1 e d2 os d')
  then show ?case by (auto simp: sets_pending_def adds_events_def moves_def adds_entry_def set_balance_def)
qed (auto simp: adds_wallet_def adds_tx_def adds_entry_def adds_events_def sets_pending_def leases_def adds_message_def
      completes_messages_def)

section \<open>One attempt\<close>

text \<open>The effect of a delivery that was not known: inbox row, answer, completion, as one commit.\<close>

definition delivered :: "string \<Rightarrow> process_input \<Rightarrow> string \<Rightarrow> process_result \<Rightarrow> db \<Rightarrow> db \<Rightarrow> bool" where
  "delivered mid i hash res d d' \<longleftrightarrow> (\<exists>m d1 d2 g. adds_message d m d1 \<and> is_message mid m \<and> ir_hash m = hash \<and>
     answered i hash res d1 d2 \<and> completes_messages d2 g d')"

definition knows_message :: "db \<Rightarrow> string \<Rightarrow> bool" where
  "knows_message d mid \<longleftrightarrow> (\<exists>m \<in> set (db_inbox d). is_message mid m)"

definition message_hash :: "db \<Rightarrow> string \<Rightarrow> string \<Rightarrow> bool" where
  "message_hash d mid h \<longleftrightarrow> (\<exists>m \<in> set (db_inbox d). is_message mid m \<and> ir_hash m = h)"

lemma answered_steps: "answered i hash res d d' \<Longrightarrow> db_step\<^sup>*\<^sup>* d d'"
  by (auto simp: answered_def)

lemma delivered_steps: "delivered mid i hash res d d' \<Longrightarrow> db_step\<^sup>*\<^sup>* d d'"
  unfolding delivered_def
  by (auto dest!: answered_steps intro: db_step.received db_step.completed rtranclp.rtrancl_into_rtrancl
      converse_rtranclp_into_rtranclp)

lemma insert_message:
  assumes "execute (sql_insert_inbox_nothing m) s = (Inr n, s')" "is_message mid m"
  shows "(n = 0 \<and> st_db s' = st_db s \<and> list_ex (inbox_conflict m) (db_inbox (st_db s))) \<or>
     (n = 1 \<and> adds_message (st_db s) m (st_db s') \<and> \<not> knows_message (st_db s) mid)"
proof -
  obtain s1 d where e: "next_tick s = (Quiet, s1)" "sql_insert_inbox_nothing m s1 = Inr (d, n)" "s' = s1\<lparr>st_db := d\<rparr>"
    using assms(1) by (auto simp: execute_ok)
  have "st_db s1 = st_db s" by (rule next_tick_ok [OF e(1)])
  then show ?thesis using e(2,3) assms(2)
    by (auto simp: sql_insert_inbox_nothing_def Let_def adds_message_def knows_message_def is_message_def inbox_conflict_def
        list_ex_iff split: if_splits)
qed

lemma complete_message:
  assumes "execute (sql_complete_message mid) s = (Inr u, s')"
  shows "\<exists>g. completes_messages (st_db s) g (st_db s')"
proof -
  obtain s1 d where e: "next_tick s = (Quiet, s1)" "sql_complete_message mid s1 = Inr (d, u)" "s' = s1\<lparr>st_db := d\<rparr>"
    using assms by (auto simp: execute_ok)
  let ?g = "\<lambda>m. if is_message mid m then Some (st_pg_now s1) else ir_completed m"
  have "st_db s1 = st_db s" by (rule next_tick_ok [OF e(1)])
  then have "completes_messages (st_db s) ?g (st_db s')"
    using e(2,3) by (auto simp: sql_complete_message_def Let_def completes_messages_def)
  then show ?thesis by blast
qed

lemma find_message_hash_ok:
  assumes "find_message_hash mid s = (Inr h, s')"
  shows "st_db s' = st_db s \<and> message_hash (st_db s) mid h"
proof -
  obtain m s1 where m: "query (\<lambda>s. List.find (is_message mid) (db_inbox (st_db s))) s = (Inr (Some m), s1)" "h = ir_hash m" "s' = s1"
    using assms by (auto simp: find_message_hash_def bindT_ok returnT_ok failT_ok split: option.splits)
  then have "List.find (is_message mid) (db_inbox (st_db s1)) = Some m" "st_db s1 = st_db s"
    by (auto simp: query_def map_errT_ok pg_read_ok dest: next_tick_ok)
  then show ?thesis using m(2,3) find_Some_set [of "is_message mid" "db_inbox (st_db s)" m] by (auto simp: message_hash_def)
qed

lemma process_in_tx_ok:
  assumes "process_in_tx uc mid p s = (Inr (res, duplicate), s')" "prepare i = Inr p"
  shows "if duplicate then st_db s' = st_db s \<and> message_hash (st_db s) mid (po_hash p)
     else delivered mid i (po_hash p) res (st_db s) (st_db s') \<and> \<not> knows_message (st_db s) mid"
proof -
  obtain j s1 where j: "new_id s = (Inr j, s1)" using assms(1) by (auto simp: process_in_tx_def bindT_ok)
  have d1: "st_db s1 = st_db s" by (rule new_id_db [OF j])
  let ?m = "\<lparr>ir_id = j, ir_consumer = ConsumerName, ir_message = mid, ir_hash = po_hash p, ir_completed = None\<rparr>"
  obtain n s2 where n: "execute (sql_insert_inbox_nothing ?m) s1 = (Inr n, s2)"
    and k: "(if n = 0 then
       bindT (find_message_hash mid) (\<lambda>h. if h \<noteq> po_hash p then failT ErrInboxHashMismatch else returnT (no_result, True))
     else bindT (execute_in_tx uc p) (\<lambda>res. bindT (execute (sql_complete_message mid)) (\<lambda>_. returnT (res, False)))) s2 =
       (Inr (res, duplicate), s')"
    using assms(1) j by (auto simp: process_in_tx_def bindT_ok)
  have m: "is_message mid ?m" by (simp add: is_message_def)
  from insert_message [OF n m] show ?thesis
  proof (elim disjE conjE)
    assume "n = 0" "st_db s2 = st_db s1"
    then have "duplicate \<and> find_message_hash mid s2 = (Inr (po_hash p), s')"
      using k by (auto simp: bindT_ok failT_ok returnT_ok split: if_splits)
    then show ?thesis using find_message_hash_ok [of mid s2] d1 \<open>st_db s2 = st_db s1\<close> by simp
  next
    assume one: "n = 1" "adds_message (st_db s1) ?m (st_db s2)" "\<not> knows_message (st_db s1) mid"
    then obtain s3 where e: "execute_in_tx uc p s2 = (Inr res, s3)" "execute (sql_complete_message mid) s3 = (Inr (), s')"
        "\<not> duplicate"
      using k by (auto simp: bindT_ok returnT_ok)
    obtain g where "completes_messages (st_db s3) g (st_db s')" using complete_message [OF e(2)] by blast
    moreover have "answered i (po_hash p) res (st_db s2) (st_db s3)"
      by (rule execute_in_tx_answered [OF e(1) assms(2)])
    ultimately have "delivered mid i (po_hash p) res (st_db s) (st_db s')"
      unfolding delivered_def using one(2) m d1 by (intro exI conjI) (assumption | simp)+
    then show ?thesis using e(3) one(3) d1 by simp
  qed
qed

text \<open>
  A transaction that failed left no trace, unless only the answer to its commit was lost; a known
  delivery changes nothing whatever becomes of it.
\<close>

lemma process_once_db:
  assumes "process_once uc mid p s = (r, s')" "prepare i = Inr p"
  shows "(st_db s' = st_db s \<and> (\<forall>res duplicate again. r = Inr (res, duplicate, again) \<longrightarrow>
       again \<or> duplicate \<and> message_hash (st_db s) mid (po_hash p))) \<or>
     (\<exists>res. (r = Inr (res, False, False) \<or> r = Inl Infra) \<and> delivered mid i (po_hash p) res (st_db s) (st_db s') \<and>
        \<not> knows_message (st_db s) mid)"
proof -
  obtain q s1 where q: "within_tx (process_in_tx uc mid p) s = (q, s1)" by fastforce
  have k: "(case q of Inl e \<Rightarrow> if e = ErrRetryInNewTransaction then returnT (no_result, False, True) else failT e
     | Inr (res, duplicate) \<Rightarrow> returnT (res, duplicate, False)) s1 = (r, s')"
    using assms(1) q by (simp add: process_once_def tryT_def)
  have s': "s' = s1" using k by (auto simp: returnT_def failT_def split: sum.splits if_splits prod.splits)
  from pg_uow.outcome [OF q] show ?thesis
  proof (elim disjE exE conjE)
    fix e assume "st_db s1 = st_db s" "q = Inl e"
    then show ?thesis using k s' by (auto simp: returnT_def failT_def split: if_splits)
  next
    fix t1 t2 x assume t: "st_db t1 = st_db s" "process_in_tx uc mid p t1 = (Inr x, t2)" "st_db s1 = st_db t2" "q = Inr x"
    obtain res duplicate where x: "x = (res, duplicate)" by (cases x)
    with process_in_tx_ok [of uc mid p t1 res duplicate t2 i] t(2) assms(2) t(1,3,4) k s' show ?thesis
      by (auto simp: returnT_def split: if_splits)
  next
    fix t1 t2 x assume t: "st_db t1 = st_db s" "process_in_tx uc mid p t1 = (Inr x, t2)" "st_db s1 = st_db t2" "q = Inl Infra"
    obtain res duplicate where x: "x = (res, duplicate)" by (cases x)
    with process_in_tx_ok [of uc mid p t1 res duplicate t2 i] t(2) assms(2) t(1,3,4) k s' show ?thesis
      by (auto simp: failT_def split: if_splits)
  qed
qed

section \<open>Both attempts\<close>

lemma process_attempts_db:
  assumes "process_attempts n uc mid p s = (r, s')" "prepare i = Inr p"
  shows "(st_db s' = st_db s \<and> (\<forall>res duplicate. r = Inr (res, duplicate) \<longrightarrow> duplicate \<and> message_hash (st_db s) mid (po_hash p))) \<or>
     (\<exists>res. (r = Inr (res, False) \<or> r = Inl Infra) \<and> delivered mid i (po_hash p) res (st_db s) (st_db s') \<and>
        \<not> knows_message (st_db s) mid)"
  using assms(1)
proof (induction n arbitrary: s)
  case 0
  then show ?case by (auto simp: failT_def)
next
  case (Suc n)
  obtain q s1 where q: "process_once uc mid p s = (q, s1)" by fastforce
  note once = process_once_db [OF q assms(2)]
  show ?case
  proof (cases q)
    case (Inl e)
    then show ?thesis using Suc.prems q once by (auto simp: bindT_def)
  next
    case (Inr x)
    obtain res duplicate again where x: "x = (res, duplicate, again)" by (cases x)
    show ?thesis
    proof (cases again)
      case True
      then have "process_attempts n uc mid p s1 = (r, s')" using Suc.prems q Inr x by (simp add: bindT_def)
      moreover have "st_db s1 = st_db s" using once Inr x True by auto
      ultimately show ?thesis using Suc.IH [of s1] by simp
    next
      case False
      then show ?thesis using Suc.prems q Inr x once by (auto simp: bindT_def returnT_def)
    qed
  qed
qed

lemma delivered_knows: "delivered mid i h res d d' \<Longrightarrow> knows_message d' mid"
proof -
  assume "delivered mid i h res d d'"
  then obtain m d1 d2 g where m: "adds_message d m d1" "is_message mid m" "answered i h res d1 d2"
      "completes_messages d2 g d'"
    unfolding delivered_def by blast
  have "m \<in> set (db_inbox d1)" using m(1) by (simp add: adds_message_def)
  moreover have "set (map (\<lambda>m. (ir_consumer m, ir_message m)) (db_inbox d1)) \<subseteq>
      set (map (\<lambda>m. (ir_consumer m, ir_message m)) (db_inbox d2))"
    using m(3) db_step_inbox [of d1 d2] unfolding answered_def by blast
  ultimately have "(ir_consumer m, ir_message m) \<in> (\<lambda>m. (ir_consumer m, ir_message m)) ` set (db_inbox d2)" by auto
  then show ?thesis using m(2,4) by (auto simp: knows_message_def is_message_def completes_messages_def)
qed

section \<open>The queue\<close>

text \<open>Steps that only add operations \<open>Q\<close> allows to the queue, and leave the database.\<close>

definition only_queues :: "(queue_op \<Rightarrow> bool) \<Rightarrow> world \<Rightarrow> world \<Rightarrow> bool" where
  "only_queues Q s s' \<longleftrightarrow> st_db s' = st_db s \<and> (\<exists>qs. st_queue s' = st_queue s @ qs \<and> list_all Q qs)"

lemma only_queues_refl: "st_db s' = st_db s \<Longrightarrow> st_queue s' = st_queue s \<Longrightarrow> only_queues Q s s'"
  by (simp add: only_queues_def)

lemma only_queues_trans: "only_queues Q a b \<Longrightarrow> only_queues Q b c \<Longrightarrow> only_queues Q a c"
  by (auto simp: only_queues_def)

lemma only_queues_mono: "only_queues P a b \<Longrightarrow> (\<And>q. P q \<Longrightarrow> Q q) \<Longrightarrow> only_queues Q a b"
  unfolding only_queues_def by (auto simp: list_all_iff)

lemma enqueue_only:
  assumes "enqueue q s = (r, s')" "Q q"
  shows "only_queues Q s s' \<and> (r = Inr () \<longrightarrow> q \<in> set (st_queue s'))"
proof -
  obtain t s1 where t: "next_tick s = (t, s1)" by fastforce
  have "st_queue s1 = st_queue s" using t by (auto simp: next_tick_def split: list.splits)
  moreover have "st_db s' = st_db s" using assms(1) by (rule db_sameD [OF db_same_simps(8)])
  ultimately show ?thesis using assms t by (auto simp: only_queues_def enqueue_def split: if_splits)
qed

text \<open>Hiding a message again or for a while is the only thing a retry does.\<close>

definition hides :: "sqs_message \<Rightarrow> queue_op \<Rightarrow> bool" where
  "hides m q \<longleftrightarrow> (\<exists>n. q = SetVisibility (sm_receipt m) n)"

lemma observe_only: "observe q s = (r, s') \<Longrightarrow> only_queues Q s s'"
  by (rule only_queues_refl) (auto simp: observe_def)

lemma after_call_only:
  "(case q of Inl _ \<Rightarrow> returnT () | Inr _ \<Rightarrow> observe c) s = (r, s') \<Longrightarrow> only_queues Q s s'"
  by (cases q) (auto simp: returnT_def intro: only_queues_refl dest: observe_only)

lemma retry_message_only:
  assumes "retry_message c m s = (r, s')"
  shows "only_queues (hides m) s s'"
proof -
  obtain d q s1 where q: "change_visibility m d s = (q, s1)"
    "(case q of Inl _ \<Rightarrow> returnT () | Inr _ \<Rightarrow> observe (Count ''sqs_consumer_retries_total'')) s1 = (r, s')"
    using assms by (auto simp: retry_message_def Let_def tryT_def split: prod.splits)
  have "only_queues (hides m) s s1"
    using q(1) enqueue_only [of _ s q s1 "hides m"] by (auto simp: change_visibility_def hides_def)
  moreover have "only_queues (hides m) s1 s'"
    using q(2) by (rule after_call_only)
  ultimately show ?thesis by (rule only_queues_trans)
qed

definition dead_letter_of :: "sqs_message \<Rightarrow> queue_op \<Rightarrow> bool" where
  "dead_letter_of m q \<longleftrightarrow> (\<exists>g. q = SendDeadLetter g (sm_body m) (sm_id m))"

definition of_message :: "sqs_message \<Rightarrow> queue_op \<Rightarrow> bool" where
  "of_message m q \<longleftrightarrow> hides m q \<or> dead_letter_of m q \<or> q = DeleteMessage (sm_receipt m)"

text \<open>
  A rejected message is deleted only after the dead-letter queue took its body: the operations of the
  run contain no deletion, or a dead letter before it.
\<close>

definition deletes_after :: "bool \<Rightarrow> sqs_message \<Rightarrow> world \<Rightarrow> world \<Rightarrow> bool" where
  "deletes_after durable m s s' \<longleftrightarrow> st_db s' = st_db s \<and> (\<exists>qs. st_queue s' = st_queue s @ qs \<and> list_all (of_message m) qs \<and>
     (DeleteMessage (sm_receipt m) \<in> set qs \<longrightarrow> durable \<or> (\<exists>q \<in> set qs. dead_letter_of m q)))"

lemma hides_deletes: "only_queues (hides m) s s' \<Longrightarrow> deletes_after b m s s'"
  unfolding only_queues_def deletes_after_def
  by (auto simp: list_all_iff of_message_def hides_def)

lemma tryT_run: "m s = (x, s1) \<Longrightarrow> tryT m k s = k x s1"
  by (simp add: tryT_def)

lemma bindT_run: "m s = (Inr x, s1) \<Longrightarrow> bindT m k s = k x s1"
  by (simp add: bindT_def)

lemma reject_message_deletes:
  assumes "reject_message c m reason s = (r, s')"
  shows "deletes_after False m s s'"
proof -
  let ?k = "\<lambda>r'. case r' of Inl _ \<Rightarrow> returnT () | Inr _ \<Rightarrow> observe (Count (''sqs_consumer_dlq_total:'' @ reason))"
  let ?d = "SendDeadLetter (if sm_group m = '''' then ''invalid'' else sm_group m) (sm_body m) (sm_id m)"
  obtain q s1 where q: "enqueue ?d s = (q, s1)" by fastforce
  have k: "(case q of Inl _ \<Rightarrow> retry_message c m
     | Inr _ \<Rightarrow> tryT (delete_message m) (\<lambda>r'. case r' of
         Inl _ \<Rightarrow> returnT () | Inr _ \<Rightarrow> observe (Count (''sqs_consumer_dlq_total:'' @ reason)))) s1 = (r, s')"
    using assms q by (simp add: reject_message_def send_dlq_def tryT_def)
  have dl: "only_queues (dead_letter_of m) s s1" "q = Inr () \<longrightarrow> ?d \<in> set (st_queue s1)"
    using enqueue_only [OF q, of "dead_letter_of m"] by (auto simp: dead_letter_of_def)
  show ?thesis
  proof (cases q)
    case (Inl e)
    then have "only_queues (hides m) s1 s'" using k retry_message_only by simp
    then show ?thesis using dl(1) unfolding only_queues_def deletes_after_def
      by (auto simp: list_all_iff of_message_def hides_def dead_letter_of_def)
  next
    case (Inr u)
    obtain t sq where t: "next_tick s = (t, sq)" by fastforce
    have sq: "st_queue sq = st_queue s" using t by (auto simp: next_tick_def split: list.splits)
    have one: "st_queue s1 = st_queue s @ [?d]"
      using q Inr t sq by (auto simp: enqueue_def split: if_splits)
    obtain q' s2 where q': "enqueue (DeleteMessage (sm_receipt m)) s1 = (q', s2)" by fastforce
    have "tryT (delete_message m) ?k s1 = (r, s')" using k unfolding Inr sum.case .
    then have "?k q' s2 = (r, s')" unfolding tryT_run [where m = "delete_message m" and s = s1, OF q' [folded delete_message_def]] .
    then have "only_queues (\<lambda>q. False) s2 s'" by (rule after_call_only)
    moreover have "only_queues (\<lambda>q. q = DeleteMessage (sm_receipt m)) s1 s2" using enqueue_only [OF q', of "\<lambda>q. q = DeleteMessage (sm_receipt m)"] by simp
    ultimately show ?thesis using dl(1) one unfolding only_queues_def deletes_after_def
      by (auto simp: list_all_iff of_message_def dead_letter_of_def)
  qed
qed

section \<open>A message\<close>

lemma get_now_only: "get_now s = (r, s') \<Longrightarrow> only_queues Q s s'"
  by (rule only_queues_refl) (auto simp: get_now_def split: list.splits)

lemma record_outcome_only: "record_outcome ch res s = (r, s') \<Longrightarrow> only_queues Q s s'"
  by (rule only_queues_refl) (auto simp: record_outcome_def bindT_def observe_def returnT_def split: if_splits)

lemma settled_metrics_only:
  assumes "(if duplicate then observe q else bindT get_now (\<lambda>_. record_outcome ch res)) s = (r, s')"
  shows "only_queues Q s s' \<and> r = Inr ()"
proof (cases duplicate)
  case True
  then show ?thesis using assms observe_only by (auto simp: observe_def)
next
  case False
  obtain t s1 where t: "get_now s = (Inr t :: app_error + gotime, s1)" by (cases "st_now s") (auto simp: get_now_def)
  then have "record_outcome ch res s1 = (r, s')" using assms False by (simp add: bindT_def)
  then show ?thesis
    using only_queues_trans [OF get_now_only [OF t] record_outcome_only]
    by (auto simp: record_outcome_def bindT_def observe_def returnT_def split: if_splits)
qed

text \<open>What became of an operation when its message may be deleted: its inbox row is in the database.\<close>

lemma settle_message_deletes:
  assumes "settle_message c m x s = (r, s')"
  shows "deletes_after (\<exists>y. x = Inr y) m s s'"
proof (cases x)
  case (Inl e)
  then show ?thesis
    using assms reject_message_deletes hides_deletes [OF retry_message_only]
    by (auto simp: settle_message_def split: if_splits)
next
  case (Inr y)
  obtain res duplicate where y: "y = (res, duplicate)" by (cases y)
  let ?m = "if duplicate then observe (Count ''sqs_consumer_duplicate_messages_total'')
      else bindT get_now (\<lambda>_. record_outcome ChannelSQS res)"
  obtain q s1 where q: "?m s = (q, s1)" by fastforce
  note only = settled_metrics_only [OF q, of "hides m"]
  have "bindT ?m (\<lambda>_. tryT (delete_message m) (\<lambda>_. returnT ())) s = (r, s')"
    using assms unfolding Inr y settle_message_def sum.case prod.case .
  then have "tryT (delete_message m) (\<lambda>_. returnT ()) s1 = (r, s')"
    unfolding bindT_run [where m = ?m and s = s, OF q [unfolded only [THEN conjunct2]]] .
  then obtain z where z: "enqueue (DeleteMessage (sm_receipt m)) s1 = (z, s')"
    by (auto simp: tryT_def delete_message_def returnT_def split: prod.splits)
  have "only_queues (\<lambda>q. q = DeleteMessage (sm_receipt m)) s1 s'"
    using enqueue_only [OF z, of "\<lambda>q. q = DeleteMessage (sm_receipt m)"] by simp
  then show ?thesis using only Inr unfolding only_queues_def deletes_after_def
    by (auto simp: list_all_iff of_message_def hides_def)
qed

lemma handle_input_effect:
  assumes "handle_input uc c m mid i s = (r, s')"
  shows "\<exists>s1. db_step\<^sup>*\<^sup>* (st_db s) (st_db s1) \<and> st_queue s1 = st_queue s \<and>
     deletes_after (knows_message (st_db s') mid) m s1 s' \<and> (knows_message (st_db s) mid \<longrightarrow> st_db s' = st_db s)"
proof (cases "prepare i")
  case (Inl e)
  then have "deletes_after False m s s'" using assms reject_message_deletes by (simp add: handle_input_def)
  then show ?thesis by (intro exI [of _ s]) (auto simp: deletes_after_def)
next
  case (Inr p)
  obtain x s1 where x: "consumer_process uc mid p s = (x, s1)" by fastforce
  then have "settle_message c m x s1 = (r, s')" using assms Inr by (simp add: handle_input_def tryT_def)
  from settle_message_deletes [OF this] have d: "deletes_after (\<exists>y. x = Inr y) m s1 s'" .
  have q: "st_queue s1 = st_queue s" by (rule keepsD [OF queue_frame.consumer_process_keeps(2) x])
  have s': "st_db s' = st_db s1" using d by (simp add: deletes_after_def)
  from process_attempts_db [OF x [unfolded consumer_process_def] Inr] show ?thesis
  proof (elim disjE exE conjE)
    assume a: "st_db s1 = st_db s" "\<forall>res duplicate. x = Inr (res, duplicate) \<longrightarrow> duplicate \<and> message_hash (st_db s) mid (po_hash p)"
    then have "(\<exists>y. x = Inr y) \<longrightarrow> knows_message (st_db s') mid"
      using s' by (auto simp: message_hash_def knows_message_def)
    then show ?thesis using a(1) q d s' by (intro exI [of _ s1]) (auto simp: deletes_after_def)
  next
    fix res assume a: "delivered mid i (po_hash p) res (st_db s) (st_db s1)" "\<not> knows_message (st_db s) mid"
    then show ?thesis using delivered_steps [OF a(1)] delivered_knows [OF a(1)] q d s'
      by (intro exI [of _ s1]) (auto simp: deletes_after_def)
  next
    fix res assume a: "delivered mid i (po_hash p) res (st_db s) (st_db s1)" "\<not> knows_message (st_db s) mid"
    then show ?thesis using delivered_steps [OF a(1)] delivered_knows [OF a(1)] q d s'
      by (intro exI [of _ s1]) (auto simp: deletes_after_def)
  qed
qed

text \<open>The message id of a body that reaches the use case.\<close>

definition body_message :: "string \<Rightarrow> string option" where
  "body_message body = (case decode_envelope body of Inl _ \<Rightarrow> None | Inr e \<Rightarrow> Some (vl_message_id e))"

definition known_body :: "db \<Rightarrow> string \<Rightarrow> bool" where
  "known_body d body \<longleftrightarrow> (\<exists>mid. body_message body = Some mid \<and> knows_message d mid)"

lemma handle_message_effect:
  assumes "handle_message uc c m s = (r, s')"
  shows "\<exists>s1. db_step\<^sup>*\<^sup>* (st_db s) (st_db s1) \<and> st_queue s1 = st_queue s \<and>
     deletes_after (known_body (st_db s') (sm_body m)) m s1 s' \<and> (known_body (st_db s) (sm_body m) \<longrightarrow> st_db s' = st_db s)"
proof -
  obtain t s0 where t: "get_now s = (Inr t :: app_error + gotime, s0)" by (cases "st_now s") (auto simp: get_now_def)
  have s0: "st_db s0 = st_db s" "st_queue s0 = st_queue s"
    using get_now_db [OF t] keepsD [OF queue_frame.input_keeps(2) t] by simp_all
  have rejected: ?thesis if "reject_message c m reason s0 = (r, s')" for reason
    using reject_message_deletes [OF that] s0 by (intro exI [of _ s0]) (auto simp: deletes_after_def)
  show ?thesis
  proof (cases "decode_envelope (sm_body m)")
    case (Inl e)
    then show ?thesis using assms t rejected by (simp add: handle_message_def bindT_def)
  next
    case (Inr e)
    note e = this
    show ?thesis
    proof (cases "allowed_provider c (vd_provider_id (vl_data e)) \<and> (\<exists>i. envelope_input e = Inr i)")
      case False
      then show ?thesis using assms t e rejected
        by (auto simp: handle_message_def bindT_def split: if_splits sum.splits)
    next
      case True
      then obtain i where "handle_input uc c m (vl_message_id e) i s0 = (r, s')"
        using assms t e by (auto simp: handle_message_def bindT_def)
      from handle_input_effect [OF this] show ?thesis using s0 e by (simp add: known_body_def body_message_def)
    qed
  qed
qed

section \<open>A batch\<close>

definition grows :: "world \<Rightarrow> world \<Rightarrow> bool" where
  "grows s s' \<longleftrightarrow> db_step\<^sup>*\<^sup>* (st_db s) (st_db s') \<and> (\<exists>qs. st_queue s' = st_queue s @ qs)"

lemma grows_refl: "st_db s' = st_db s \<Longrightarrow> st_queue s' = st_queue s \<Longrightarrow> grows s s'"
  by (simp add: grows_def)

lemma grows_trans: "grows a b \<Longrightarrow> grows b c \<Longrightarrow> grows a c"
  unfolding grows_def by (metis append.assoc rtranclp_trans)

lemma only_queues_grows: "only_queues Q s s' \<Longrightarrow> grows s s'"
  by (auto simp: grows_def only_queues_def)

lemma handle_message_grows: "handle_message uc c m s = (r, s') \<Longrightarrow> grows s s'"
  using handle_message_effect by (fastforce simp: grows_def deletes_after_def)

lemma change_visibility_grows: "change_visibility m d s = (r, s') \<Longrightarrow> grows s s'"
  using enqueue_only [of _ s r s' "\<lambda>_. True"] only_queues_grows by (auto simp: change_visibility_def)

lemma release_messages_grows: "release_messages ms s = (r, s') \<Longrightarrow> grows s s'"
proof (induction ms arbitrary: s)
  case (Cons m ms)
  obtain q s1 where q: "change_visibility m 0 s = (q, s1)" by fastforce
  then have "release_messages ms s1 = (r, s')" using Cons.prems by (simp add: tryT_def)
  then show ?case using Cons.IH change_visibility_grows [OF q] grows_trans by blast
qed (simp add: returnT_def grows_refl)

lemma ctx_err_grows: "ctx_err s = (r, s') \<Longrightarrow> grows s s'"
  by (rule grows_refl) (auto simp: ctx_err_def split: list.splits)

lemma bindT_grows: "bindT m k s = (r, s') \<Longrightarrow> (\<And>x s1. m s = (x, s1) \<Longrightarrow> grows s s1) \<Longrightarrow>
    (\<And>x s1. k x s1 = (r, s') \<Longrightarrow> grows s1 s') \<Longrightarrow> grows s s'"
  unfolding bindT_def by (auto split: prod.splits sum.splits intro: grows_trans)

lemma dispatch_grows: "dispatch uc c ms s = (r, s') \<Longrightarrow> grows s s'"
proof (induction ms arbitrary: s)
  case (Cons m ms)
  have tail: "grows t s'" if "bindT (handle_message uc c m) (\<lambda>_. dispatch uc c ms) t = (r, s')" for t
    using that by (rule bindT_grows) (use handle_message_grows Cons.IH in auto)
  have wait: "grows t s'" if "bindT ctx_err (\<lambda>stopped. if stopped then release_messages (m # ms)
      else bindT (handle_message uc c m) (\<lambda>_. dispatch uc c ms)) t = (r, s')" for t
    using that by (rule bindT_grows) (use ctx_err_grows release_messages_grows tail in \<open>auto simp del: release_messages.simps split: if_splits\<close>)
  from Cons.prems [unfolded dispatch.simps] show ?case
    by (rule bindT_grows) (use ctx_err_grows release_messages_grows wait in \<open>auto simp del: release_messages.simps split: if_splits\<close>)
qed (simp add: returnT_def grows_refl)

lemma receive_batch_grows: "receive_batch uc c ms s = (r, s') \<Longrightarrow> grows s s'"
  unfolding receive_batch_def
  by (erule bindT_grows) (auto split: if_splits intro: ctx_err_grows release_messages_grows dispatch_grows)

section \<open>Reading an envelope\<close>

text \<open>The envelope a producer writes for a request.\<close>

definition envelope_json :: "string \<Rightarrow> string \<Rightarrow> process_input \<Rightarrow> string \<Rightarrow> json" where
  "envelope_json mid at i decimal =
     (let r = pr_request i in
      JObj [(''type'', JStr ''WagerTransactionRequested''), (''messageId'', JStr mid), (''occurredAt'', JStr at),
        (''data'', JObj ([(''providerId'', JStr (rq_provider_id r)), (''externalTransactionId'', JStr (rq_external_id r)),
           (''playerId'', JStr (rq_player_id r)), (''walletId'', JStr (rq_wallet_id r)), (''roundId'', JStr (rq_round_id r)),
           (''gameId'', JStr (rq_game_id r)), (''kind'', JStr (rq_kind r)), (''idempotencyKey'', JStr (pr_key i)),
           (''money'', JObj [(''amount'', JStr decimal), (''currency'', JStr (currency_of (rq_money r)))])] @
           (case rq_reference r of None \<Rightarrow> [] | Some x \<Rightarrow> [(''referenceExternalTransactionId'', JStr x)])))])"

definition input_texts_ok :: "process_input \<Rightarrow> bool" where
  "input_texts_ok i \<longleftrightarrow> (let r = pr_request i in list_all utf8_valid
     [rq_provider_id r, rq_external_id r, rq_player_id r, rq_wallet_id r, rq_round_id r, rq_game_id r, rq_kind r, pr_key i,
      (case rq_reference r of None \<Rightarrow> [] | Some x \<Rightarrow> x)])"

lemma envelope_fields_find:
  "find_field [''type'', ''messageId'', ''occurredAt'', ''data''] ''type'' = Some ''type''"
  "find_field [''type'', ''messageId'', ''occurredAt'', ''data''] ''messageId'' = Some ''messageId''"
  "find_field [''type'', ''messageId'', ''occurredAt'', ''data''] ''occurredAt'' = Some ''occurredAt''"
  "find_field [''type'', ''messageId'', ''occurredAt'', ''data''] ''data'' = Some ''data''"
  "find_field [''amount'', ''currency''] ''amount'' = Some ''amount''"
  "find_field [''amount'', ''currency''] ''currency'' = Some ''currency''"
  by (simp_all add: find_field_def)

lemma data_fields_find: "n \<in> set data_names \<Longrightarrow> find_field data_names n = Some n"
  by (simp add: find_field_def)

lemma ascii_utf8: "list_all (\<lambda>c. byte_of c < 128) n \<Longrightarrow> utf8_valid n"
  by (rule utf8_valid_ascii)

lemma envelope_valid:
  assumes "input_texts_ok i" "utf8_valid mid" "utf8_valid at" "utf8_valid decimal" "utf8_valid (currency_of (rq_money (pr_request i)))"
  shows "all_valid (envelope_json mid at i decimal)" "nesting (envelope_json mid at i decimal) \<le> max_nesting"
  using assms
  by (auto simp: envelope_json_def Let_def input_texts_ok_def ascii_utf8 byte_of_def max_nesting_def split: option.splits)

lemma read_data:
  fixes r :: request
  shows "decode_struct set_envelope_data data_names (to_jvalue (JObj ([(''providerId'', JStr (rq_provider_id r)),
     (''externalTransactionId'', JStr (rq_external_id r)), (''playerId'', JStr (rq_player_id r)),
     (''walletId'', JStr (rq_wallet_id r)), (''roundId'', JStr (rq_round_id r)), (''gameId'', JStr (rq_game_id r)),
     (''kind'', JStr (rq_kind r)), (''idempotencyKey'', JStr key),
     (''money'', JObj [(''amount'', JStr decimal), (''currency'', JStr c)])] @
     (case rq_reference r of None \<Rightarrow> [] | Some x \<Rightarrow> [(''referenceExternalTransactionId'', JStr x)])))) zero_envelope_data =
   Inr (False, \<lparr>vd_provider_id = rq_provider_id r, vd_external_id = rq_external_id r, vd_player_id = rq_player_id r,
     vd_wallet_id = rq_wallet_id r, vd_round_id = rq_round_id r, vd_game_id = rq_game_id r, vd_kind = rq_kind r,
     vd_key = key, vd_money = \<lparr>vm_amount = decimal, vm_currency = c\<rparr>, vd_reference = rq_reference r\<rparr>)"
  by (cases "rq_reference r")
    (simp_all add: decode_struct_def data_fields_find data_names_def find_field_def set_envelope_data_def set_text_def string_value_def
      string_pointer_def set_envelope_money_def zero_envelope_data_def zero_envelope_money_def)

definition read_envelope :: "string \<Rightarrow> string \<Rightarrow> process_input \<Rightarrow> string \<Rightarrow> envelope" where
  "read_envelope mid at i decimal = (let r = pr_request i in
     \<lparr>vl_type = ''WagerTransactionRequested'', vl_message_id = mid, vl_occurred_at = at,
      vl_data = \<lparr>vd_provider_id = rq_provider_id r, vd_external_id = rq_external_id r, vd_player_id = rq_player_id r,
        vd_wallet_id = rq_wallet_id r, vd_round_id = rq_round_id r, vd_game_id = rq_game_id r, vd_kind = rq_kind r,
        vd_key = pr_key i, vd_money = \<lparr>vm_amount = decimal, vm_currency = currency_of (rq_money r)\<rparr>,
        vd_reference = rq_reference r\<rparr>\<rparr>)"

lemma to_jvalue_envelope:
  "to_jvalue (envelope_json mid at i decimal) = VObject [(''type'', VString ''WagerTransactionRequested''),
     (''messageId'', VString mid), (''occurredAt'', VString at),
     (''data'', to_jvalue (snd (last (case envelope_json mid at i decimal of JObj fs \<Rightarrow> fs | _ \<Rightarrow> []))))]"
  by (simp add: envelope_json_def Let_def)

lemma decode_envelope_text:
  assumes "all_valid (envelope_json mid at i decimal)" "nesting (envelope_json mid at i decimal) \<le> max_nesting"
    and "mid \<noteq> ''''" "pr_key i \<noteq> ''''"
  shows "decode_envelope (json_text html (envelope_json mid at i decimal)) = Inr (read_envelope mid at i decimal)"
proof -
  let ?names = "[''type'', ''messageId'', ''occurredAt'', ''data'']"
  have "decode_struct set_envelope ?names (to_jvalue (envelope_json mid at i decimal)) zero_envelope =
      Inr (False, read_envelope mid at i decimal)"
    unfolding to_jvalue_envelope
    using read_data [of "pr_request i" "pr_key i" decimal "currency_of (rq_money (pr_request i))"]
    by (simp add: decode_struct_def [of set_envelope] envelope_fields_find set_envelope_def set_text_def string_value_def
        envelope_json_def Let_def zero_envelope_def read_envelope_def)
  moreover have "parse_json (json_text html (envelope_json mid at i decimal)) = Some (to_jvalue (envelope_json mid at i decimal), [])"
    by (rule parse_text [OF assms(1,2)])
  ultimately have "decode_single set_envelope ?names zero_envelope (json_text html (envelope_json mid at i decimal)) =
      Inr (read_envelope mid at i decimal)"
    by (simp add: decode_single_def skip_ws_def)
  then show ?thesis using assms(3,4) by (simp add: decode_envelope_def read_envelope_def Let_def)
qed

section \<open>Properties\<close>


definition sample_input :: process_input where
  "sample_input = \<lparr>pr_request = sample_request Bet None, pr_key = ''k1'', pr_correlation_id = ''m1'', pr_causation_id = ''m1'',
     pr_channel = ChannelSQS\<rparr>"

lemma sample_input_texts: "input_texts_ok sample_input"
  by (simp add: input_texts_ok_def sample_input_def sample_request_def sample_uuid_def ascii_utf8 byte_of_def)


text \<open>
  C8: whatever fails while a message is handled, everything the handler asks of the queue concerns that
  message, and the message is deleted only if the dead-letter queue took its body during the handling
  or the inbox holds the message's id, committed together with the effect of its operation.
\<close>
theorem consumer_deletes_durable:
  assumes "handle_message uc c m s = (r, s')"
  shows "\<exists>qs. st_queue s' = st_queue s @ qs \<and> list_all (of_message m) qs \<and>
     (DeleteMessage (sm_receipt m) \<in> set qs \<longrightarrow> known_body (st_db s') (sm_body m) \<or> (\<exists>q \<in> set qs. dead_letter_of m q))"
  using handle_message_effect [OF assms] by (auto simp: deletes_after_def)

definition sample_message :: sqs_message where
  "sample_message = \<lparr>sm_id = ''i'', sm_body = ''{}'', sm_receipt = ''r'', sm_group = '''', sm_receive_count = ''2''\<rparr>"

definition sample_consumer :: consumer where
  "sample_consumer = \<lparr>cs_retry_base = 1, cs_retry_max = 60, cs_allowlist = [''pr'']\<rparr>"

definition sample_inbox :: world where
  "sample_inbox = \<lparr>st_db = empty_db\<lparr>db_inbox := [\<lparr>ir_id = ''i'', ir_consumer = ConsumerName, ir_message = ''m1'',
     ir_hash = ''h'', ir_completed = None\<rparr>]\<rparr>, st_ticks = [], st_ids = [], st_now = [], st_pg_now = sample_time,
     st_seq = 1, st_uuid = Some, st_time = (\<lambda>t. t), st_metrics = [], st_queue = [], st_stopped = [], st_locked = []\<rparr>"

theorem consumer_deletes_durable_witness:
  "\<exists>qs. st_queue (snd (handle_message new_use_case sample_consumer sample_message sample_inbox)) = st_queue sample_inbox @ qs \<and>
     list_all (of_message sample_message) qs"
  using consumer_deletes_durable [of new_use_case sample_consumer sample_message sample_inbox
      "fst (handle_message new_use_case sample_consumer sample_message sample_inbox)"
      "snd (handle_message new_use_case sample_consumer sample_message sample_inbox)"] by auto

text \<open>
  C10: a message whose id the inbox holds leaves the database as it is, whatever the use case would make
  of its body and whatever fails on the way.
\<close>
theorem consumer_redelivery_no_effect:
  assumes "known_body (st_db s) (sm_body m)" "handle_message uc c m s = (r, s')"
  shows "st_db s' = st_db s"
  using handle_message_effect [OF assms(2)] assms(1) by blast

definition sample_body :: string where
  "sample_body = json_text True (envelope_json ''m1'' ''now'' sample_input (case money_decimal (rq_money (sample_request Bet None)) of
     Inr decimal \<Rightarrow> decimal | Inl _ \<Rightarrow> ''''))"

lemma sample_body_message: "body_message sample_body = Some ''m1''"
proof -
  have u: "utf8_valid ''m1''" "utf8_valid ''now''" by (simp_all add: ascii_utf8 byte_of_def)
  have m: "is_supported (currency_of (rq_money (pr_request sample_input)))" "0 \<le> amount (rq_money (pr_request sample_input))"
    by (simp_all add: sample_input_def sample_request_def is_supported_def)
  obtain decimal where d: "money_decimal (rq_money (pr_request sample_input)) = Inr decimal"
    using money_decimal_parses [OF m] by blast
  note valid = envelope_valid [OF sample_input_texts u decimal_ascii [OF m d] supported_ascii [OF m(1)]]
  have "decode_envelope sample_body = Inr (read_envelope ''m1'' ''now'' sample_input decimal)"
    using decode_envelope_text [OF valid, of True] d by (simp add: sample_body_def sample_input_def)
  then show ?thesis by (simp add: body_message_def read_envelope_def Let_def)
qed

theorem consumer_redelivery_no_effect_witness:
  "st_db (snd (handle_message new_use_case sample_consumer (sample_message\<lparr>sm_body := sample_body\<rparr>) sample_inbox)) =
     st_db sample_inbox"
proof -
  have "known_body (st_db sample_inbox) (sm_body (sample_message\<lparr>sm_body := sample_body\<rparr>))"
    by (simp add: known_body_def sample_body_message knows_message_def sample_inbox_def is_message_def)
  from consumer_redelivery_no_effect [OF this prod.collapse [symmetric]] show ?thesis .
qed

text \<open>
  C9: processing a prepared message leaves the database as it was, or commits the inbox row together with
  the answer of the use case, and that only for an id the inbox did not hold. A result that is not a
  duplicate is always of the second kind; a duplicate had the same payload hash.
\<close>
theorem consumer_commits_with_inbox:
  assumes "prepare i = Inr p" "consumer_process uc mid p s = (r, s')"
  shows "(st_db s' = st_db s \<and> (\<forall>res duplicate. r = Inr (res, duplicate) \<longrightarrow> duplicate \<and> message_hash (st_db s) mid (po_hash p))) \<or>
     (\<exists>res. (r = Inr (res, False) \<or> r = Inl Infra) \<and> delivered mid i (po_hash p) res (st_db s) (st_db s') \<and>
        \<not> knows_message (st_db s) mid)"
  using process_attempts_db [OF assms(2) [unfolded consumer_process_def] assms(1)] .

lemma sample_prepared: "\<exists>p. prepare sample_input = Inr p"
proof -
  have "valid_ids (sample_request Bet None)" by (simp add: sample_request_valid)
  then have "validate_request (sample_request Bet None) = Inr (the (kind_rules Bet))"
    by (simp add: validate_request_ok valid_amount_def) (simp add: sample_request_def is_supported_def)
  then have "\<exists>d. evaluate (sample_request Bet None) None False = Inr d"
    by (simp add: evaluate_def) (simp add: sample_request_def)
  moreover obtain h where "payload_hash (sample_request Bet None) = Inr h"
    using payload_hash_defined [of "sample_request Bet None"] sample_request_valid [of None Bet]
    by (auto simp: sample_request_def is_supported_def)
  moreover have "is_valid_idempotency_key ''k1''" by (simp add: is_valid_idempotency_key_def byte_of_def)
  ultimately show ?thesis by (auto simp: prepare_def bindE_def map_err_def sample_input_def)
qed

theorem consumer_commits_with_inbox_witness:
  "\<exists>p. prepare sample_input = Inr p \<and> st_db (snd (consumer_process new_use_case ''m1'' p sample_inbox)) = st_db sample_inbox"
proof -
  obtain p where p: "prepare sample_input = Inr p" using sample_prepared by blast
  have "knows_message (st_db sample_inbox) ''m1''" by (simp add: knows_message_def sample_inbox_def is_message_def)
  then show ?thesis using consumer_commits_with_inbox [OF p prod.collapse [symmetric], of new_use_case "''m1''" sample_inbox] p by blast
qed
end
