(* ===== verification/LedgerPages.thy ===== *)
theory LedgerPages
  imports Ledger "HOL-Library.Multiset"
begin

text \<open>
  Reading the ledger page by page: a page and what its cursor leads to are together all entries beyond
  the cursor it was read from, in the order of their sequence numbers.
\<close>

text \<open>The sequence numbers of a wallet's entries beyond a cursor, in order.\<close>

definition sequence_after :: "db \<Rightarrow> string \<Rightarrow> int \<Rightarrow> int list" where
  "sequence_after d w after = sort (map lr_seq (filter (\<lambda>r. lr_wallet r = w \<and> after < lr_seq r) (db_ledger d)))"

lemma beyond_nth:
  "sorted_wrt (<) xs \<Longrightarrow> k < length xs \<Longrightarrow> filter (\<lambda>x :: int. xs ! k < x) xs = drop (Suc k) xs"
proof (induction xs arbitrary: k)
  case (Cons x xs)
  show ?case
  proof (cases k)
    case 0
    then show ?thesis using Cons.prems by auto
  next
    case (Suc j)
    then have "x < xs ! j" using Cons.prems by simp
    then show ?thesis using Cons Suc by (simp add: not_less order.strict_implies_order)
  qed
qed simp

lemma scan_sequences: "scan_ledger_entries rs = Inr es \<Longrightarrow> map ae_sequence es = map lr_seq rs"
  by (induction rs arbitrary: es) (auto simp: bindE_ok decode_entry_def)

lemma sequences_distinct: "keys_ok d \<Longrightarrow> distinct (map lr_seq (filter P (db_ledger d)))"
proof -
  assume "keys_ok d"
  then have "sorted_wrt (\<lambda>a b. lr_seq a \<noteq> lr_seq b) (db_ledger d)"
    unfolding keys_ok_def by (auto elim!: sorted_wrt_mono_rel [rotated] simp: ledger_conflict_def)
  moreover have "sorted_wrt (\<lambda>a b. lr_seq a \<noteq> lr_seq b) rs \<Longrightarrow> distinct (map lr_seq (filter P rs))" for rs
    by (induction rs) auto
  ultimately show ?thesis by blast
qed

lemma sorted_rows: "map lr_seq (sort_key lr_seq rs) = sort (map lr_seq rs)"
proof -
  have "mset (map lr_seq (sort_key lr_seq rs)) = mset (map lr_seq rs)" by simp
  then show ?thesis using properties_for_sort [of "map lr_seq (sort_key lr_seq rs)" "map lr_seq rs"] by simp
qed

lemma sequence_after_cursor:
  assumes "keys_ok d" "after \<le> n" "n = sequence_after d w after ! k" "k < length (sequence_after d w after)"
  shows "sequence_after d w n = drop (Suc k) (sequence_after d w after)"
proof -
  have "sorted_wrt (<) (sequence_after d w after)"
    using sequences_distinct [OF assms(1)] by (simp add: sequence_after_def strict_sorted_iff)
  from beyond_nth [OF this assms(4)] have "filter (\<lambda>x. n < x) (sequence_after d w after) = drop (Suc k) (sequence_after d w after)"
    using assms(3) by simp
  moreover have "filter (\<lambda>x. n < x) (sequence_after d w after) = sequence_after d w n"
  proof -
    have "filter (\<lambda>x. n < x) (map lr_seq (filter (\<lambda>r. lr_wallet r = w \<and> after < lr_seq r) (db_ledger d))) =
        map lr_seq (filter (\<lambda>r. lr_wallet r = w \<and> n < lr_seq r) (db_ledger d))"
      using assms(2) by (auto simp: filter_map comp_def intro!: arg_cong [where f = "map lr_seq"] filter_cong)
    then show ?thesis by (simp add: sequence_after_def filter_sort)
  qed
  ultimately show ?thesis by simp
qed

lemma ledger_list_page:
  assumes "keys_ok (st_db s)" "0 < limit" "ledger_list w after limit s = (Inr page, s')"
  shows "sequence_after (st_db s) w after = map ae_sequence (lp_entries page) @
     (case lp_next page of None \<Rightarrow> [] | Some n \<Rightarrow> sequence_after (st_db s) w n) \<and>
     length (lp_entries page) \<le> limit \<and> (lp_next page \<noteq> None \<longrightarrow> length (lp_entries page) = limit)"
proof -
  let ?rows = "sort_key lr_seq (filter (\<lambda>r. lr_wallet r = w \<and> after < lr_seq r) (db_ledger (st_db s)))"
  let ?seqs = "sequence_after (st_db s) w after"
  obtain rows s1 es where q: "query (\<lambda>s. take (limit + 1) (sort_key lr_seq
       (filter (\<lambda>r. lr_wallet r = w \<and> after < lr_seq r) (db_ledger (st_db s))))) s = (Inr rows, s1)"
    and es: "scan_ledger_entries rows = Inr es"
    and page: "page = (if limit < length es
       then \<lparr>lp_entries = take limit es, lp_next = Some (ae_sequence (es ! (limit - 1)))\<rparr>
       else \<lparr>lp_entries = es, lp_next = None\<rparr>)"
    using assms(3) by (auto simp: ledger_list_def bindT_ok liftE_ok returnT_ok)
  have "rows = take (limit + 1) ?rows" using q by (auto simp: query_ok dest!: next_tick_ok)
  then have seqs: "map ae_sequence es = take (limit + 1) ?seqs"
    using scan_sequences [OF es] by (simp add: take_map [symmetric] sequence_after_def sorted_rows)
  then have len: "length es = min (length ?seqs) (limit + 1)" by (metis length_map length_take)
  show ?thesis
  proof (cases "limit < length es")
    case False
    then have "length ?seqs \<le> limit" using len by simp
    then show ?thesis using False seqs page by simp
  next
    case True
    then have long: "limit < length ?seqs" using len by simp
    have at: "ae_sequence (es ! (limit - 1)) = ?seqs ! (limit - 1)"
    proof -
      have k: "limit - 1 < length es" "limit - 1 < limit + 1" using True by simp_all
      have "ae_sequence (es ! (limit - 1)) = map ae_sequence es ! (limit - 1)" using k(1) by simp
      also have "\<dots> = ?seqs ! (limit - 1)" unfolding seqs by (rule nth_take [OF k(2)])
      finally show ?thesis .
    qed
    have "after \<le> ?seqs ! (limit - 1)"
    proof -
      have "?seqs ! (limit - 1) \<in> set ?seqs" using long by (intro nth_mem) simp
      moreover have "\<forall>n \<in> set ?seqs. after \<le> n" by (auto simp: sequence_after_def)
      ultimately show ?thesis by blast
    qed
    from sequence_after_cursor [OF assms(1) this refl] long assms(2)
    have "sequence_after (st_db s) w (?seqs ! (limit - 1)) = drop limit ?seqs" by simp
    moreover have "map ae_sequence (take limit es) = take limit ?seqs"
      using seqs True by (simp add: take_map [symmetric])
    ultimately show ?thesis using page True at by simp
  qed
qed
end
