(* ===== verification/Service.thy ===== *)
theory Service
  imports WorkerSteps WalletSteps PublisherSteps ConsumerSteps LedgerPages
begin

text \<open>
  The running service: any interleaving of requests, passes of the two workers and received batches,
  each with whatever faults its ticks hold, from an empty database. What every reachable state
  satisfies.
\<close>

section \<open>Steps of the service\<close>

text \<open>
  \<open>environment\<close> lets the clocks, the generated ids, the faults and the observed counters be anything
  from one operation to the next; the database and what the queues took are the service's own.
\<close>

inductive service_step :: "world \<Rightarrow> world \<Rightarrow> bool" where
  processes: "process uc i s = (r, s') \<Longrightarrow> service_step s s'"
| opens: "open_use_case o' s = (r1, s') \<Longrightarrow> service_step s s'"
| works: "process_batch w s = (r2, s') \<Longrightarrow> service_step s s'"
| publishes: "publish_batch p s = (r2, s') \<Longrightarrow> service_step s s'"
| consumes: "receive_batch uc c ms s = (r2, s') \<Longrightarrow> service_step s s'"
| handles_message: "handle_message uc c m s = (r2, s') \<Longrightarrow> service_step s s'"
| changes_visibility: "change_visibility m d s = (r2, s') \<Longrightarrow> service_step s s'"
| reads_wallet: "get_wallet x s = (r1, s') \<Longrightarrow> service_step s s'"
| reads_by_id: "get_by_id x ca s = (r3, s') \<Longrightarrow> service_step s s'"
| reads_by_external: "get_by_provider_external_id x y ca s = (r3, s') \<Longrightarrow> service_step s s'"
| reads_ledger: "audit_list x after limit s = (r4, s') \<Longrightarrow> service_step s s'"
| reconciles: "audit_reconcile x s = (r5, s') \<Longrightarrow> service_step s s'"
| environment: "st_db s' = st_db s \<Longrightarrow> st_queue s' = st_queue s \<Longrightarrow> service_step s s'"

definition started :: "world \<Rightarrow> bool" where
  "started s \<longleftrightarrow> st_db s = empty_db \<and> st_queue s = []"

definition service_ok :: "world \<Rightarrow> bool" where
  "service_ok s \<longleftrightarrow> db_ok (st_db s) \<and> sent_ok s"

lemma started_ok: "started s \<Longrightarrow> service_ok s"
  by (simp add: started_def service_ok_def empty_db_ok) (simp add: sent_ok_def started_def empty_db_def)

section \<open>What a step does to the database and the queues\<close>

lemma db_steps_outbox: "db_step\<^sup>*\<^sup>* d d' \<Longrightarrow>
   \<exists>os. db_outbox d' = db_outbox d @ os \<and> (\<forall>o' \<in> set os. event_row o' \<and> or_published o' = None)"
proof (induction rule: rtranclp_induct)
  case (step b c)
  then obtain os os' where "db_outbox b = db_outbox d @ os" "\<forall>o' \<in> set os. event_row o' \<and> or_published o' = None"
      "db_outbox c = db_outbox b @ os'" "\<forall>o' \<in> set os'. event_row o' \<and> or_published o' = None"
    using db_step_outbox by blast
  then show ?case by (intro exI [of _ "os @ os'"]) auto
qed simp

lemma grows_sent: "grows s s' \<Longrightarrow> sent_ok s \<Longrightarrow> sent_ok s'"
  using db_steps_outbox [of "st_db s" "st_db s'"] by (fastforce simp: grows_def sent_ok_def sent_def)

lemma grows_ok: "grows s s' \<Longrightarrow> service_ok s \<Longrightarrow> service_ok s'"
  using grows_sent db_steps_ok by (auto simp: service_ok_def grows_def)

lemma steps_grow: "db_step\<^sup>*\<^sup>* (st_db s) (st_db s') \<Longrightarrow> st_queue s' = st_queue s \<Longrightarrow> grows s s'"
  by (simp add: grows_def)

lemma process_steps: "process uc i s = (r, s') \<Longrightarrow> db_step\<^sup>*\<^sup>* (st_db s) (st_db s')"
  using process_db [of uc i s r s'] answered_steps by auto

lemma open_steps: "open_use_case o' s = (r, s') \<Longrightarrow> db_step\<^sup>*\<^sup>* (st_db s) (st_db s')"
  using open_use_case_db [of o' s r s'] by (auto simp: open_outcome_def)

lemma reconcile_db_same [simp]: "db_same (ledger_reconcile w)"
  unfolding ledger_reconcile_def by (auto intro!: within_tx_db_same db_same_bindT)

lemma read_use_cases_db_same:
  "db_same (get_wallet x)" "db_same (get_by_id x ca)" "db_same (get_by_provider_external_id x y ca)"
  "db_same (audit_list x after limit)" "db_same (audit_reconcile x)"
  unfolding get_wallet_def get_by_id_def get_by_provider_external_id_def audit_list_def audit_reconcile_def not_found_as_def
    txs_find_detail_by_id_def txs_find_detail_by_external_def
  by (auto intro!: db_same_bindT)

lemma service_step_cases:
  assumes "service_step s s'" "service_ok s"
  shows "grows s s' \<or> (service_ok s' \<and> ledger_step (st_db s) (st_db s') \<and> (\<exists>qs. st_queue s' = st_queue s @ qs))"
  using assms(1)
proof cases
  case (processes uc i r)
  then show ?thesis using steps_grow process_steps keepsD [OF queue_frame.use_cases_keep(1)] by blast
next
  case (opens i r)
  then show ?thesis using steps_grow open_steps keepsD [OF queue_frame.open_use_case_keep(1)] by blast
next
  case (works w r)
  then show ?thesis
    using steps_grow process_batch_steps keepsD [OF queue_frame.process_batch_keep(1)] assms(2)
    unfolding service_ok_def db_ok_def by blast
next
  case (publishes p r)
  then show ?thesis
    using publish_batch_sent [OF publishes] assms(2) marks_only_step ledger_step_ok
    by (fastforce simp: service_ok_def db_ok_def marks_only_def)
next
  case (consumes uc c ms r)
  then show ?thesis using receive_batch_grows by blast
next
  case (handles_message uc c m r)
  then show ?thesis using handle_message_grows by blast
next
  case (changes_visibility m d r)
  then show ?thesis using change_visibility_grows by blast
qed (auto intro!: grows_refl dest: db_sameD [OF read_use_cases_db_same(1)] db_sameD [OF read_use_cases_db_same(2)]
    db_sameD [OF read_use_cases_db_same(3)] db_sameD [OF read_use_cases_db_same(4)] db_sameD [OF read_use_cases_db_same(5)]
    keepsD [OF queue_frame.use_cases_keep(7)] keepsD [OF queue_frame.use_cases_keep(8)]
    keepsD [OF queue_frame.use_cases_keep(9)] keepsD [OF queue_frame.use_cases_keep(10)]
    keepsD [OF queue_frame.use_cases_keep(11)])

lemma service_step_ok: "service_step s s' \<Longrightarrow> service_ok s \<Longrightarrow> service_ok s'"
  using service_step_cases grows_ok by blast

lemma service_step_preserved:
  assumes "service_step s s'" "service_ok s"
  shows "preserved (st_db s) (st_db s') \<and> (\<exists>qs. st_queue s' = st_queue s @ qs)"
  using service_step_cases [OF assms] db_steps_preserved ledger_step_preserved unfolding grows_def by blast

lemma service_steps_ok: "service_step\<^sup>*\<^sup>* s s' \<Longrightarrow> service_ok s \<Longrightarrow> service_ok s'"
  by (induction rule: rtranclp_induct) (auto intro: service_step_ok)

lemma service_steps_preserved: "service_step\<^sup>*\<^sup>* s s' \<Longrightarrow> service_ok s \<Longrightarrow>
    preserved (st_db s) (st_db s') \<and> (\<exists>qs. st_queue s' = st_queue s @ qs)"
proof (induction rule: rtranclp_induct)
  case (step b c)
  then show ?case
    using service_step_preserved [of b c] service_steps_ok [of s b] preserved_trans [of "st_db s" "st_db b" "st_db c"] by auto
qed simp

text \<open>The states a run of the service can be in.\<close>

definition reachable :: "world \<Rightarrow> bool" where
  "reachable s \<longleftrightarrow> (\<exists>s0. started s0 \<and> service_step\<^sup>*\<^sup>* s0 s)"

lemma reachable_ok: "reachable s \<Longrightarrow> service_ok s"
  using service_steps_ok started_ok by (auto simp: reachable_def)

lemma reachable_db: "reachable s \<Longrightarrow> db_ok (st_db s)"
  using reachable_ok by (simp add: service_ok_def)

lemma reachable_step: "reachable s \<Longrightarrow> service_step s s' \<Longrightarrow> reachable s'"
  unfolding reachable_def by (meson rtranclp.rtrancl_into_rtrancl)

section \<open>Consequences of the invariant\<close>

lemma entry_unique:
  assumes "keys_ok d" "e \<in> set (db_ledger d)" "e' \<in> set (db_ledger d)" "entry_of t e" "entry_of t e'"
  shows "e = e'"
proof -
  have sorted: "sorted_wrt (\<lambda>a b. \<not> ledger_conflict b a) (db_ledger d)" using assms(1) by (simp add: keys_ok_def)
  have conflict: "ledger_conflict e e'" "ledger_conflict e' e"
    using assms(4,5) by (auto simp: entry_of_def ledger_conflict_def)
  obtain i j where ij: "i < length (db_ledger d)" "j < length (db_ledger d)" "e = db_ledger d ! i" "e' = db_ledger d ! j"
    using assms(2,3) by (metis in_set_conv_nth)
  have "i = j"
    using sorted_wrt_nth_less [OF sorted, of i j] sorted_wrt_nth_less [OF sorted, of j i] ij conflict
    by (cases i j rule: linorder_cases) auto
  then show ?thesis using ij by simp
qed

text \<open>A request whose key or external id the database knows never gets a second effect.\<close>

lemma no_second_effect:
  assumes "txs_ok d'" "takes_effect i hash dir res d d'" "t \<in> set (db_txs d)"
    and "has_key (rq_provider_id (pr_request i)) (pr_key i) t \<or>
      has_external (rq_provider_id (pr_request i)) (rq_external_id (pr_request i)) t"
  shows False
proof -
  obtain row where "db_txs d' = db_txs d @ [row]" "answer_row i hash res row"
    using assms(2) by (auto simp: takes_effect_def)
  then have "\<not> tx_conflict t row" and r: "answer_row i hash res row"
    using assms(1,3) by (auto simp: txs_ok_def no_conflicts_def sorted_wrt_append)
  with assms(4) show False
    by (auto simp: answer_row_def tx_conflict_def has_key_def has_external_def same_key_def)
qed

section \<open>Reconciliation\<close>

lemma quiet_query: "st_ticks s = [] \<Longrightarrow> query f s = (Inr (f s), s)"
  by (simp add: query_def map_errT_def pg_read_def pg_def quiet_step)

lemma find_wallet: "books_ok d \<Longrightarrow> w \<in> set (db_wallets d) \<Longrightarrow> List.find (\<lambda>r. wr_id r = wr_id w) (db_wallets d) = Some w"
proof -
  assume ok: "books_ok d" and w: "w \<in> set (db_wallets d)"
  let ?P = "\<lambda>r. wr_id r = wr_id w"
  obtain r where "List.find ?P (db_wallets d) = Some r"
    using w find_None_iff [of ?P "db_wallets d"] by (cases "List.find ?P (db_wallets d)") auto
  moreover from this have "r = w" using find_Some_set wallet_row_unique [OF ok _ w] by fast
  ultimately show ?thesis by simp
qed

definition balanced :: "wallet_row \<Rightarrow> ledger_row list \<Rightarrow> reconciliation \<Rightarrow> bool" where
  "balanced w rows rec \<longleftrightarrow> rc_stored rec = \<lparr>minor_units = wr_balance w, currency_of = wr_currency w\<rparr> \<and>
     rc_calculated rec = rc_stored rec \<and> amount (rc_difference rec) = 0 \<and> rc_checked rec = int (length rows)"

lemma reconcile_balanced:
  assumes "db_ok (st_db s)" "w \<in> set (db_wallets (st_db s))" "audit_reconcile (wr_id w) s = (Inr rec, s')"
  shows "balanced w (wallet_rows (st_db s) (wr_id w)) rec"
proof -
  let ?rows = "wallet_rows (st_db s) (wr_id w)"
  have reconcile: "ledger_reconcile (wr_id w) s = (Inr rec, s')"
    using assms(3) by (simp add: audit_reconcile_def not_found_as_def map_errT_ok)
  obtain s1 s2 where "st_db s1 = st_db s" and b: "bindT (query (\<lambda>s. List.find (\<lambda>r. wr_id r = wr_id w) (db_wallets (st_db s)))) (\<lambda>row.
     bindT (liftE (found row)) (\<lambda>r.
     bindT (query (\<lambda>s. wallet_rows (st_db s) (wr_id w))) (\<lambda>rows.
     bindT (liftE (scan_int64 (\<Sum>x\<leftarrow>rows. row_effect x))) (\<lambda>calculated.
     bindT (liftE (map_err MoneyErr (money_new (wr_balance r) (wr_currency r)))) (\<lambda>stored.
     bindT (liftE (map_err MoneyErr (money_new calculated (wr_currency r)))) (\<lambda>c.
     bindT (liftE (map_err MoneyErr (money_subtract stored c))) (\<lambda>difference.
     returnT \<lparr>rc_wallet_id = wr_id w, rc_stored = stored, rc_calculated = c, rc_difference = difference,
       rc_checked = int (length rows)\<rparr>))))))) s1 = (Inr rec, s2)"
    using within_tx_ok [OF reconcile [unfolded ledger_reconcile_def]] by blast
  then obtain row s3 r s4 rows s5 calculated stored c difference where
      q: "query (\<lambda>s. List.find (\<lambda>r. wr_id r = wr_id w) (db_wallets (st_db s))) s1 = (Inr row, s3)" "row = Some r"
        "query (\<lambda>s. wallet_rows (st_db s) (wr_id w)) s3 = (Inr rows, s5)"
      and m: "scan_int64 (\<Sum>x\<leftarrow>rows. row_effect x) = Inr calculated" "money_new (wr_balance r) (wr_currency r) = Inr stored"
        "money_new calculated (wr_currency r) = Inr c" "money_subtract stored c = Inr difference"
        "rec = \<lparr>rc_wallet_id = wr_id w, rc_stored = stored, rc_calculated = c, rc_difference = difference, rc_checked = int (length rows)\<rparr>"
    by (auto simp: bindT_ok liftE_ok map_err_ok found_ok returnT_ok)
  have "st_db s3 = st_db s" "row = List.find (\<lambda>r. wr_id r = wr_id w) (db_wallets (st_db s))" "rows = ?rows"
    using q(1,3) \<open>st_db s1 = st_db s\<close> by (auto simp: query_ok dest!: next_tick_ok)
  moreover have "books_ok (st_db s)" using assms(1) by (simp add: db_ok_def)
  ultimately have r: "r = w" "rows = ?rows" using find_wallet assms(2) q(2) by auto
  have "calculated = wr_balance w"
    using m(1) balance_is_sum [OF assms(1,2), THEN conjunct1, symmetric] r by (simp add: scan_int64_def split: if_splits)
  then have st: "stored = \<lparr>minor_units = wr_balance w, currency_of = wr_currency w\<rparr>" "c = stored" "money_ok stored"
    using m(2,3) r by (auto simp: money_new_ok money_ok_def)
  then have "amount difference = 0" using m(4) money_subtract_ok [OF st(3)] by simp
  then show ?thesis using m(5) st r by (simp add: balanced_def)
qed

lemma reconcile_quiet:
  assumes "db_ok (st_db s)" "w \<in> set (db_wallets (st_db s))" "is_supported (wr_currency w)" "st_ticks s = []"
  shows "\<exists>rec s'. audit_reconcile (wr_id w) s = (Inr rec, s')"
proof -
  note sum = balance_is_sum [OF assms(1,2), THEN conjunct1, symmetric]
  let ?m = "\<lparr>minor_units = wr_balance w, currency_of = wr_currency w\<rparr>"
  have range: "- (2 ^ 63) \<le> sint (wr_balance w)" "sint (wr_balance w) < 2 ^ 63"
    using sint64_upper [of "wr_balance w"] sint64_lower [of "wr_balance w"] by simp_all
  have new: "money_new (wr_balance w) (wr_currency w) = Inr ?m"
    using assms(3) balance_is_sum [OF assms(1,2)] by (auto simp: money_new_def)
  moreover have "money_ok ?m" using new by (auto simp: money_new_ok money_ok_def)
  then have "money_subtract ?m ?m = Inr \<lparr>minor_units = 0, currency_of = wr_currency w\<rparr>"
    by (simp add: money_subtract_ok)
  ultimately show ?thesis
    using find_wallet [OF _ assms(2)] assms(1,4) sum range
    by (simp add: audit_reconcile_def not_found_as_def map_errT_def ledger_reconcile_def within_tx_def quiet_step
        bindT_def quiet_query liftE_def found_def scan_int64_def map_err_def returnT_def db_ok_def)
qed

section \<open>Lookups\<close>

lemma detail_by_external:
  assumes "txs_find_detail_by_external p x s = (Inr d, s')"
  shows "\<exists>row \<in> set (db_txs (st_db s)). has_external p x row \<and> decode_detail row = Inr d"
proof -
  obtain row s1 where "find_tx (has_external p x) s = (Inr (Some row), s1)" "decode_detail row = Inr d"
    using assms by (auto simp: txs_find_detail_by_external_def txs_find_detail_def bindT_ok liftE_ok found_ok)
  then show ?thesis using find_tx_ok by blast
qed
end
