(* ===== verification/HttpSteps.thy ===== *)
theory HttpSteps
  imports HttpApi Service
begin

text \<open>
  What the HTTP API adds to the use cases: serving a request is a run of the service, only an
  authorised request changes the database, and a reply tells what became of it.
\<close>

section \<open>Runs of the service\<close>

definition runs :: "('e, 'a) tx \<Rightarrow> bool" where
  "runs m \<longleftrightarrow> (\<forall>s. service_step\<^sup>*\<^sup>* s (snd (m s)))"

lemma runs_bindT: "runs m \<Longrightarrow> (\<And>x. runs (k x)) \<Longrightarrow> runs (bindT m k)"
  by (simp add: runs_def bindT_def split: prod.splits sum.splits) (metis rtranclp_trans snd_conv)

lemma runs_tryT: "runs m \<Longrightarrow> (\<And>x. runs (k x)) \<Longrightarrow> runs (tryT m k)"
  by (simp add: runs_def tryT_def split: prod.splits) (metis rtranclp_trans snd_conv)

lemma runs_step: "(\<And>s r s'. m s = (r, s') \<Longrightarrow> service_step s s') \<Longrightarrow> runs m"
  unfolding runs_def by (metis prod.collapse r_into_rtranclp)

lemma runs_quiet: "db_same m \<Longrightarrow> keeps st_queue m \<Longrightarrow> runs m"
  by (rule runs_step) (auto intro: service_step.environment db_sameD keepsD)

lemma runs_input: "runs (returnT x)" "runs (failT e)" "runs new_id" "runs get_now" "runs (observe q)" "runs (liftE r)"
  by (auto intro!: runs_quiet keeps_plain queue_frame.input_keeps)

lemma runs_use_cases:
  "runs (process uc i)" "runs (open_use_case o')" "runs (get_wallet x)" "runs (get_by_id x ca)"
  "runs (get_by_provider_external_id x y ca)" "runs (audit_list x after limit)" "runs (audit_reconcile x)"
  by (rule runs_step, (rule service_step.processes service_step.opens service_step.reads_wallet service_step.reads_by_id
      service_step.reads_by_external service_step.reads_ledger service_step.reconciles), assumption)+

lemmas runs_rules = runs_bindT runs_tryT runs_input runs_use_cases

lemma runs_handlers:
  "runs (correlation_id q)" "runs (open_wallet_handler sv q)" "runs (get_wallet_handler sv i)"
  "runs (ledger_handler sv i q)" "runs (reconciliation_handler sv i)" "runs (wagering_transactions_handler sv ctx q)"
  "runs (transaction_by_id_handler ctx i)" "runs (provider_transaction_handler ctx p x)" "runs live_handler"
  unfolding correlation_id_def open_wallet_handler_def get_wallet_handler_def ledger_handler_def reconciliation_handler_def
    wagering_transactions_handler_def transaction_by_id_handler_def provider_transaction_handler_def live_handler_def
    answer_read_def detail_response_def Let_def
  by (intro runs_rules | auto intro!: runs_rules split: option.splits sum.splits prod.splits app_error.splits)+

lemma runs_health: "runs (ready_handler r)" "runs (metrics_handler sv)"
  by (auto simp: runs_def ready_handler_def metrics_handler_def returnT_def Let_def split: list.splits)

lemma runs_endpoint: "runs (endpoint_handler sv ctx q e vars)"
  unfolding endpoint_handler_def require_role_def require_any_role_def Let_def
  by (auto intro!: runs_handlers runs_health runs_input split: endpoint.splits option.splits)

lemma runs_verify: "runs (verify v token)"
  unfolding verify_def by (auto intro!: runs_rules split: option.splits)

lemma runs_serve: "runs (serve sv q)"
  unfolding serve_def authenticate_def mux_def latency_wrap_def
  by (auto intro!: runs_rules runs_endpoint runs_verify split: option.splits sum.splits)

lemma serve_steps: "serve sv q s = (r, s') \<Longrightarrow> service_step\<^sup>*\<^sup>* s s'"
  using runs_serve by (metis runs_def snd_conv)

lemma serve_reachable: "reachable s \<Longrightarrow> serve sv q s = (r, s') \<Longrightarrow> reachable s'"
  unfolding reachable_def by (meson serve_steps rtranclp_trans)

section \<open>Reads and refusals change nothing\<close>

lemma db_same_handlers [simp]:
  "db_same (correlation_id q)" "db_same (get_wallet_handler sv i)"
  "db_same (ledger_handler sv i q)" "db_same (reconciliation_handler sv i)"
  "db_same (transaction_by_id_handler ctx i)" "db_same (provider_transaction_handler ctx p x)" "db_same live_handler"
  unfolding correlation_id_def get_wallet_handler_def ledger_handler_def reconciliation_handler_def
    transaction_by_id_handler_def provider_transaction_handler_def live_handler_def
    answer_read_def detail_response_def Let_def
  by (intro db_same_bindT db_same_tryT db_same_simps read_use_cases_db_same
     | auto intro!: db_same_bindT db_same_tryT db_same_simps read_use_cases_db_same
       split: option.splits sum.splits prod.splits app_error.splits)+

lemma db_same_health [simp]: "db_same (ready_handler r)" "db_same (metrics_handler sv)"
  by (auto simp: db_same_def ready_handler_def metrics_handler_def returnT_def Let_def split: list.splits)

section \<open>Who changes the database\<close>

text \<open>What an authenticated handler does when it changes the database.\<close>

definition admin_opens :: "identity \<Rightarrow> http_request \<Rightarrow> bool" where
  "admin_opens i q \<longleftrightarrow> hq_method q = ''POST'' \<and> hq_path q = [''wallets''] \<and> has_role i RoleWalletAdmin"

definition provider_posts :: "identity \<Rightarrow> http_request \<Rightarrow> db \<Rightarrow> db \<Rightarrow> bool" where
  "provider_posts i q d d' \<longleftrightarrow>
     hq_method q = ''POST'' \<and> hq_path q = [''wagering'', ''transactions''] \<and> has_role i RoleProvider \<and> id_provider_id i \<noteq> '''' \<and>
     (\<exists>row. db_txs d' = db_txs d @ [row] \<and> tr_provider row = Some (id_provider_id i) \<and>
        tr_key row = Some (first_value (hq_headers q) ''Idempotency-Key''))"

lemma match_literals: "match_segments (map Literal ls) p = Some vars \<Longrightarrow> p = ls"
  by (induction ls arbitrary: p) (auto elim!: match_segments.elims split: if_splits)

lemma find_route_entry:
  assumes "find_route q = Some (label, e, vars)"
  shows "\<exists>m ps. (label, m, ps, e) \<in> set routes \<and> method_matches m (hq_method q) \<and> match_segments ps (hq_path q) = Some vars"
proof -
  let ?f = "\<lambda>(label, m, ps, e). if method_matches m (hq_method q)
    then map_option (\<lambda>vars. (label, e, vars)) (match_segments ps (hq_path q)) else None"
  have "(label, e, vars) \<in> set (List.map_filter ?f routes)"
    using assms unfolding find_route_def by (simp split: list.splits)
  then show ?thesis by (fastforce simp: map_filter_def split: if_splits)
qed

lemma find_route_posts:
  assumes "find_route q = Some (label, e, vars)"
  shows "e = OpenWallet \<Longrightarrow> hq_method q = ''POST'' \<and> hq_path q = [''wallets'']"
    and "e = PostTransaction \<Longrightarrow> hq_method q = ''POST'' \<and> hq_path q = [''wagering'', ''transactions'']"
proof -
  obtain m ps where r: "(label, m, ps, e) \<in> set routes" "method_matches m (hq_method q)" "match_segments ps (hq_path q) = Some vars"
    using find_route_entry [OF assms] by blast
  show "hq_method q = ''POST'' \<and> hq_path q = [''wallets'']" if "e = OpenWallet"
    using r that match_literals [of "[''wallets'']" "hq_path q" vars] by (simp add: routes_def method_matches_def)
  show "hq_method q = ''POST'' \<and> hq_path q = [''wagering'', ''transactions'']" if "e = PostTransaction"
    using r that match_literals [of "[''wagering'', ''transactions'']" "hq_path q" vars] by (simp add: routes_def method_matches_def)
qed

text \<open>Processing adds a row under the key it was given or leaves the database.\<close>

lemma process_adds_row:
  assumes "process uc i s = (r, s')" "st_db s' \<noteq> st_db s"
  shows "\<exists>row. db_txs (st_db s') = db_txs (st_db s) @ [row] \<and> has_key (rq_provider_id (pr_request i)) (pr_key i) row"
  using process_db [OF assms(1)] assms(2) by (auto simp: answered_def takes_effect_def answer_row_def)

lemma correlation_id_db: "correlation_id q s = (r, s1) \<Longrightarrow> st_db s1 = st_db s"
  by (rule db_sameD [OF db_same_handlers(1)])

text \<open>A posted operation that reaches the use case.\<close>

lemma posted_cases:
  assumes "wagering_transactions_handler sv (Some i) q s = (r, s')"
  obtains "st_db s' = st_db s" "\<And>x. r = Inr x \<Longrightarrow> \<exists>e details. x = wrong_provider \<or> x = write_wagering_error e details"
  | req corr s1 p s2 where "decode_wagering_request (hq_body q) = Inr req" "rq_provider_id req = id_provider_id i"
      "st_db s1 = st_db s" "first_value (hq_headers q) ''Idempotency-Key'' \<noteq> ''''"
      "process (sv_use_case sv) (wagering_input req (first_value (hq_headers q) ''Idempotency-Key'') corr) s1 = (p, s')"
      "r = Inr (case p of Inl e \<Rightarrow> write_wagering_error (operation_error_of e) []
        | Inr res \<Rightarrow> json_response (wagering_status res) (wagering_response (zone_offset sv) res))"
proof (cases "decode_wagering_request (hq_body q)")
  case (Inl e)
  then show thesis using assms that(1)
    by (auto simp: wagering_transactions_handler_def returnT_def split: prod.splits)
next
  case (Inr req)
  let ?key = "first_value (hq_headers q) ''Idempotency-Key''"
  obtain c s1 where c: "correlation_id q s = (c, s1)" by fastforce
  note same = correlation_id_db [OF c]
  show thesis
  proof (cases "rq_provider_id req \<noteq> id_provider_id i \<or> ?key = '''' \<or> (\<exists>e. c = Inl e)")
    case True
    then show thesis using assms that(1) Inr c same
      by (auto simp: wagering_transactions_handler_def returnT_def bindT_def Let_def split: if_splits sum.splits)
  next
    case False
    then obtain corr where corr: "c = Inr corr" by (cases c) auto
    obtain p s2 where p: "process (sv_use_case sv) (wagering_input req ?key corr) s1 = (p, s2)" by fastforce
    then have "s' = s2" "r = Inr (case p of Inl e \<Rightarrow> write_wagering_error (operation_error_of e) []
        | Inr res \<Rightarrow> json_response (wagering_status res) (wagering_response (zone_offset sv) res))"
      using assms Inr c corr False
      by (auto simp: wagering_transactions_handler_def bindT_def Let_def answer_read_def tryT_def returnT_def split: sum.splits)
    then show thesis using that(2) [of req s1 corr p] Inr same p False by auto
  qed
qed

lemma posts_add_row:
  assumes "wagering_transactions_handler sv (Some i) q s = (r, s')" "st_db s' \<noteq> st_db s"
  shows "\<exists>row. db_txs (st_db s') = db_txs (st_db s) @ [row] \<and> tr_provider row = Some (id_provider_id i) \<and>
     tr_key row = Some (first_value (hq_headers q) ''Idempotency-Key'')"
  using assms(1)
proof (rule posted_cases)
  fix req corr s1 p
  assume a: "rq_provider_id req = id_provider_id i" "st_db s1 = st_db s"
    "process (sv_use_case sv) (wagering_input req (first_value (hq_headers q) ''Idempotency-Key'') corr) s1 = (p, s')"
  show ?thesis using process_adds_row [OF a(3)] a(1,2) assms(2) by (auto simp: wagering_input_def has_key_def)
qed (use assms(2) in simp)

lemma endpoint_changes:
  assumes "endpoint_handler sv ctx q e vars s = (r, s')" "st_db s' \<noteq> st_db s" "find_route q = Some (label, e, vars)"
  shows "\<exists>i. ctx = Some i \<and> (admin_opens i q \<or> provider_posts i q (st_db s) (st_db s'))"
proof -
  note posts = find_route_posts [OF assms(3)]
  have quiet: "st_db s' = st_db s" if "db_same (endpoint_handler sv ctx q e vars)"
    by (rule db_sameD [OF that assms(1)])
  have "e = OpenWallet \<or> e = PostTransaction"
  proof (rule ccontr)
    assume "\<not> (e = OpenWallet \<or> e = PostTransaction)"
    then have "db_same (endpoint_handler sv ctx q e vars)"
      by (cases e) (auto simp: endpoint_handler_def require_role_def require_any_role_def Let_def split: option.splits)
    with quiet assms(2) show False by blast
  qed
  then show ?thesis
  proof
    assume e: "e = OpenWallet"
    then obtain i where "ctx = Some i" "has_role i RoleWalletAdmin"
      using assms(1,2) by (auto simp: endpoint_handler_def require_role_def Let_def returnT_def split: option.splits if_splits)
    then show ?thesis using posts(1) [OF e] by (simp add: admin_opens_def)
  next
    assume e: "e = PostTransaction"
    then obtain i where i: "ctx = Some i" "has_role i RoleProvider" "id_provider_id i \<noteq> ''''"
        "wagering_transactions_handler sv (Some i) q s = (r, s')"
      using assms(1,2) by (auto simp: endpoint_handler_def require_role_def Let_def returnT_def split: option.splits if_splits)
    then show ?thesis using posts(2) [OF e] posts_add_row [OF i(4) assms(2)] by (auto simp: provider_posts_def)
  qed
qed

lemma latency_db:
  assumes "latency_wrap label h s = (r, s')"
  obtains r1 s1 where "h s = (r1, s1)" "st_db s' = st_db s1" "r = r1"
  using assms by (auto simp: latency_wrap_def bindT_def observe_def returnT_def split: prod.splits sum.splits)

lemma mux_endpoint:
  assumes "mux sv ctx q s = (r, s')"
  obtains label e vars s1 where "find_route q = Some (label, e, vars)" "endpoint_handler sv ctx q e vars s = (r, s1)"
      "st_db s' = st_db s1"
  | "find_route q = None \<or> \<not> hq_clean q" "s' = s"
proof (cases "(\<not> hq_clean q \<and> hq_method q \<noteq> ''CONNECT'') \<or> find_route q = None")
  case True
  then show thesis using assms that(2) by (auto simp: mux_def returnT_def split: option.splits if_splits)
next
  case False
  then obtain label e vars where f: "find_route q = Some (label, e, vars)" by (auto split: option.splits)
  then have m: "(if is_timed e then latency_wrap label else (\<lambda>h. h)) (endpoint_handler sv ctx q e vars) s = (r, s')"
    using assms False by (simp add: mux_def split: if_splits)
  show thesis
  proof (cases "is_timed e")
    case True
    then have "latency_wrap label (endpoint_handler sv ctx q e vars) s = (r, s')" using m by simp
    then show thesis by (rule latency_db) (use that(1) f in auto)
  next
    case False
    then show thesis using that(1) f m by auto
  qed
qed

lemma serve_changes:
  assumes "serve sv q s = (r, s')" "st_db s' \<noteq> st_db s"
  shows "\<exists>token i s1. bearer_token q = Some token \<and> verify (sv_verifier sv) token s = (Inr i, s1) \<and>
     (admin_opens i q \<or> provider_posts i q (st_db s) (st_db s'))"
proof -
  have m: "\<exists>i. ctx = Some i \<and> (admin_opens i q \<or> provider_posts i q (st_db s) (st_db s'))"
    if "mux sv ctx q s1 = (r, s')" "st_db s1 = st_db s" for ctx s1
    using that(1)
  proof (rule mux_endpoint)
    fix label e vars s2
    assume "find_route q = Some (label, e, vars)" "endpoint_handler sv ctx q e vars s1 = (r, s2)" "st_db s' = st_db s2"
    then show ?thesis using endpoint_changes [of sv ctx q e vars s1 r s2 label] assms(2) that(2) by auto
  qed (use assms(2) that(2) in simp)
  show ?thesis
  proof (cases "is_public_route q")
    case True
    then show ?thesis using m [of None s] assms(1) by (simp add: serve_def authenticate_def)
  next
    case False
    then obtain token where t: "bearer_token q = Some token"
      using assms by (auto simp: serve_def authenticate_def returnT_def split: option.splits)
    obtain v s1 where v: "verify (sv_verifier sv) token s = (v, s1)" by fastforce
    have d: "st_db s1 = st_db s" by (rule db_sameD [OF verify_db v])
    show ?thesis
    proof (cases v)
      case (Inl e)
      then show ?thesis using assms False t v d by (simp add: serve_def authenticate_def tryT_def returnT_def)
    next
      case (Inr i)
      then have "mux sv (Some i) q s1 = (r, s')"
        using assms(1) False t v by (simp add: serve_def authenticate_def tryT_def)
      then show ?thesis using m [of "Some i" s1] d t v Inr by auto
    qed
  qed
qed
section \<open>Replies\<close>

text \<open>Every reply of a handler satisfies \<open>P\<close>.\<close>

definition replies :: "(http_response \<Rightarrow> bool) \<Rightarrow> handler \<Rightarrow> bool" where
  "replies P h \<longleftrightarrow> (\<forall>s x s'. h s = (Inr x, s') \<longrightarrow> P x)"

lemma repliesD: "replies P h \<Longrightarrow> h s = (Inr x, s') \<Longrightarrow> P x"
  unfolding replies_def by blast

lemma replies_returnT: "P x \<Longrightarrow> replies P (returnT x)"
  by (simp add: replies_def returnT_def)

lemma replies_bindT: "(\<And>x. replies P (k x)) \<Longrightarrow> replies P (bindT m k)"
  by (auto simp: replies_def bindT_ok)

lemma replies_tryT: "(\<And>x. replies P (k x)) \<Longrightarrow> replies P (tryT m k)"
  by (auto simp: replies_def tryT_ok)

lemmas replies_rules = replies_returnT replies_bindT replies_tryT

text \<open>A reply asks for a retry exactly when it says the service is unavailable.\<close>

definition retry_marked :: "http_response \<Rightarrow> bool" where
  "retry_marked r \<longleftrightarrow> (hp_status r = 503 \<longleftrightarrow> (''Retry-After'', ''1'') \<in> set (hp_headers r))"

lemma retry_marked_envelope [simp]: "retry_marked (write_error_envelope status d)"
  by (simp add: retry_marked_def write_error_envelope_def content_json_def)

lemma retry_marked_errors [simp]:
  "retry_marked (write_operation_error e ds)" "retry_marked (write_wagering_error e ds)" "retry_marked missing_token"
  "retry_marked (unauthorized m)" "retry_marked (forbidden m)" "retry_marked wrong_provider" "retry_marked (opaque_error f)"
  by (simp_all add: write_operation_error_def write_wagering_error_def missing_token_def unauthorized_def forbidden_def
      wrong_provider_def opaque_error_def write_auth_error_def)

lemma retry_marked_json [simp]: "status \<noteq> 503 \<Longrightarrow> retry_marked (json_response status r)"
  by (simp add: retry_marked_def json_response_def content_json_def)

lemma wagering_status_cases: "wagering_status r \<in> {200, 202, 422}"
  by (simp add: wagering_status_def)

lemma wagering_status_available [simp]: "wagering_status r \<noteq> 503"
  using wagering_status_cases [of r] by auto

lemma handlers_retry_marked:
  "replies retry_marked (open_wallet_handler sv q)" "replies retry_marked (get_wallet_handler sv i)"
  "replies retry_marked (ledger_handler sv i q)" "replies retry_marked (reconciliation_handler sv i)"
  "replies retry_marked (wagering_transactions_handler sv ctx q)" "replies retry_marked (transaction_by_id_handler ctx i)"
  "replies retry_marked (provider_transaction_handler ctx p x)"
  unfolding open_wallet_handler_def get_wallet_handler_def ledger_handler_def reconciliation_handler_def
    wagering_transactions_handler_def transaction_by_id_handler_def provider_transaction_handler_def
    answer_read_def detail_response_def Let_def
  by (intro replies_rules | auto intro!: replies_rules split: option.splits sum.splits prod.splits app_error.splits)+

lemma endpoint_retry_marked: "is_timed e \<Longrightarrow> replies retry_marked (endpoint_handler sv ctx q e vars)"
  by (cases e) (auto simp: endpoint_handler_def require_role_def require_any_role_def is_timed_def Let_def
      intro!: handlers_retry_marked replies_returnT split: option.splits)

text \<open>The endpoints that take no token have public paths.\<close>

lemma untimed_public: "find_route q = Some (label, e, vars) \<Longrightarrow> \<not> is_timed e \<Longrightarrow> is_public_route q"
proof -
  assume "find_route q = Some (label, e, vars)" "\<not> is_timed e"
  then obtain m ps where r: "(label, m, ps, e) \<in> set routes" "match_segments ps (hq_path q) = Some vars"
    using find_route_entry by blast
  have "hq_path q = [''health'', ''live''] \<or> hq_path q = [''health'', ''ready''] \<or> hq_path q = [''metrics'']"
    using r \<open>\<not> is_timed e\<close> match_literals [of "[''health'', ''live'']" "hq_path q" vars]
      match_literals [of "[''health'', ''ready'']" "hq_path q" vars] match_literals [of "[''metrics'']" "hq_path q" vars]
    by (auto simp: routes_def is_timed_def)
  then show ?thesis by (auto simp: is_public_route_def url_path_def)
qed

lemma mux_retry_marked:
  assumes "\<not> is_public_route q" shows "replies retry_marked (mux sv ctx q)"
proof -
  have "replies retry_marked (latency_wrap label h)" if "replies retry_marked h" for label h
    using that by (auto simp: replies_def latency_wrap_def bindT_ok returnT_ok)
  then show ?thesis
    using untimed_public [of q] assms unfolding mux_def plain_response_def
    by (auto intro!: replies_returnT endpoint_retry_marked simp: retry_marked_def split: option.splits)
qed

lemma serve_retry_marked:
  assumes "\<not> is_public_route q" shows "replies retry_marked (serve sv q)"
  using assms unfolding serve_def authenticate_def
  by (auto intro!: replies_rules mux_retry_marked split: option.splits sum.splits)

section \<open>What the reply to a posted operation tells\<close>

definition reply_tells :: "string \<Rightarrow> string \<Rightarrow> nat \<Rightarrow> db \<Rightarrow> db \<Rightarrow> bool" where
  "reply_tells provider key status d d' \<longleftrightarrow>
     (status \<in> {200, 202} \<longrightarrow> (\<exists>row \<in> set (db_txs d'). has_key provider key row \<and>
        (status = 202 \<longleftrightarrow> tr_status row = PendingReference) \<and> tr_status row \<noteq> Rejected)) \<and>
     (status = 422 \<longrightarrow> d' = d \<or> (\<exists>row \<in> set (db_txs d'). has_key provider key row \<and> tr_status row = Rejected)) \<and>
     (status \<notin> {200, 202, 422, 503} \<longrightarrow> d' = d)"

lemma recorded_answer:
  assumes "process uc i s = (Inr res, s')"
  shows "\<exists>row \<in> set (db_txs (st_db s')). has_key (rq_provider_id (pr_request i)) (pr_key i) row \<and> tr_status row = ps_status res"
  using process_db [OF assms] by (fastforce simp: answered_def replays_row_def takes_effect_def answer_row_def)

lemma post_handler_tells:
  assumes "wagering_transactions_handler sv (Some i) q s = (Inr r, s')"
  shows "reply_tells (id_provider_id i) (first_value (hq_headers q) ''Idempotency-Key'') (hp_status r) (st_db s) (st_db s')"
  using assms
proof (rule posted_cases)
  assume a: "st_db s' = st_db s" "\<And>x. Inr r = Inr x \<Longrightarrow> \<exists>e details. x = wrong_provider \<or> x = write_wagering_error e details"
  then obtain e details where "r = wrong_provider \<or> r = write_wagering_error e details" by blast
  then have "hp_status r \<notin> {200, 202}"
    by (auto simp: wrong_provider_def forbidden_def write_auth_error_def write_error_envelope_def write_wagering_error_def
        wagering_error_status split: op_error.splits)
  then show ?thesis using a(1) by (auto simp: reply_tells_def)
next
  fix req corr s1 p
  let ?i = "wagering_input req (first_value (hq_headers q) ''Idempotency-Key'') corr"
  assume a: "rq_provider_id req = id_provider_id i" "st_db s1 = st_db s" "process (sv_use_case sv) ?i s1 = (p, s')"
    and r: "Inr r = Inr (case p of Inl e \<Rightarrow> write_wagering_error (operation_error_of e) []
        | Inr res \<Rightarrow> json_response (wagering_status res) (wagering_response (zone_offset sv) res))"
  show ?thesis
  proof (cases p)
    case (Inl e)
    then have status: "hp_status r = status_for_wagering_error (operation_error_of e)"
      using r by (simp add: write_wagering_error_def write_error_envelope_def)
    have "st_db s' = st_db s \<or> hp_status r = 503"
      using process_db [OF a(3)] Inl a(2) status by (auto simp: operation_error_of_def wagering_error_status)
    moreover have "hp_status r \<notin> {200, 202}" using status by (auto simp: wagering_error_status split: op_error.splits)
    ultimately show ?thesis by (auto simp: reply_tells_def)
  next
    case (Inr res)
    then have "hp_status r = wagering_status res" using r by (simp add: json_response_def)
    moreover obtain row where "row \<in> set (db_txs (st_db s'))" "has_key (id_provider_id i) (pr_key ?i) row" "tr_status row = ps_status res"
      using recorded_answer [of "sv_use_case sv" ?i s1 res s'] a(1,3) Inr by (auto simp: wagering_input_def)
    ultimately show ?thesis
      by (auto simp: reply_tells_def wagering_status_def wagering_input_def intro!: bexI [of _ row] split: if_splits)
  qed
qed
end
