(* ===== verification/SampleRun.thy ===== *)
theory SampleRun
  imports Service
begin

text \<open>
  A short run of the service, evaluated: a wallet is opened with 1.00, and a bet of 0.30 is processed.
  The properties of the root theory are shown at its states.
\<close>

definition sample_opening :: open_wallet_input where
  "sample_opening = \<lparr>ow_player_id = sample_uuid, ow_initial_balance = \<lparr>minor_units = 100, currency_of = BRL\<rparr>,
     ow_correlation_id = ''c''\<rparr>"

definition sample_start :: world where
  "sample_start = (sample_world [] [])\<lparr>st_ids := [sample_uuid, ''t'', ''l'', ''e1'', ''e2''], st_now := [sample_time]\<rparr>"

definition sample_opened :: world where
  "sample_opened = snd (open_use_case sample_opening sample_start)"

text \<open>The ids and times of the next operation.\<close>

definition sample_ready :: "gotime list \<Rightarrow> world" where
  "sample_ready ts = sample_opened\<lparr>st_ids := [''t1'', ''l1'', ''e3'', ''e4''], st_now := ts\<rparr>"

definition sample_processed :: world where
  "sample_processed = snd (process new_use_case sample_input (sample_ready [sample_time, sample_time, sample_time]))"

lemma sample_opened_reachable: "reachable sample_opened"
proof -
  have "started sample_start" by (simp add: started_def sample_start_def sample_world_def empty_db_def)
  moreover have "service_step sample_start sample_opened"
    unfolding sample_opened_def by (rule service_step.opens [OF prod.collapse [symmetric]])
  ultimately show ?thesis unfolding reachable_def by blast
qed

lemma sample_opened_rows:
  "map (\<lambda>w. (wr_id w, wr_balance w)) (db_wallets (st_db sample_opened)) = [(sample_uuid, 100)]"
  "map (\<lambda>t. (tr_id t, tr_kind t, tr_status t)) (db_txs (st_db sample_opened)) = [(''t'', Opening, Processed)]"
  "map or_event_id (db_outbox (st_db sample_opened)) = [''e1'', ''e2'']"
  by code_simp+

lemma sample_ready_reachable: "reachable (sample_ready ts)"
  by (rule reachable_step [OF sample_opened_reachable service_step.environment]) (simp_all add: sample_ready_def)

lemma sample_processed_reachable: "reachable sample_processed"
  unfolding sample_processed_def
  by (rule reachable_step [OF sample_ready_reachable service_step.processes [OF prod.collapse [symmetric]]])

text \<open>The payload hash stays a symbol here: all that matters is that it is not empty.\<close>

definition sample_prepared_with :: "string \<Rightarrow> prepared_operation" where
  "sample_prepared_with h = \<lparr>po_input = sample_input, po_hash = h, po_decision = movement_decision Bet None, po_ready = True\<rparr>"

lemma sample_prepares: "\<exists>c cs. prepare sample_input = Inr (sample_prepared_with (c # cs))"
proof -
  obtain p where p: "prepare sample_input = Inr p" using sample_prepared by blast
  have "evaluate (pr_request sample_input) None False = Inr (movement_decision Bet None)" by code_simp
  then have "p = sample_prepared_with (po_hash p)" and "payload_hash (pr_request sample_input) = Inr (po_hash p)"
    using p unfolding prepare_ok by (simp_all add: sample_prepared_with_def)
  moreover obtain c cs where "po_hash p = c # cs"
    using payload_hash_length [OF calculation(2)] by (cases "po_hash p") auto
  ultimately show ?thesis using p by metis
qed

lemma sample_attempt:
  "(case process_with_retry new_use_case (sample_prepared_with (c # cs)) (sample_ready [sample_time, sample_time]) of
     (r, s) \<Rightarrow> (map_sum id ps_status r, map (\<lambda>t. (tr_id t, tr_provider t, tr_key t, tr_external t, tr_status t)) (db_txs (st_db s)),
       map wr_balance (db_wallets (st_db s)))) =
   (Inr Processed, [(''t'', None, None, None, Processed), (''t1'', Some ''pr'', Some ''k1'', Some ''x1'', Processed)], [70])"
  by code_simp

lemma process_run:
  assumes "get_now s = (Inr t :: app_error + gotime, s1)" "prepare i = Inr p" "process_with_retry uc p s1 = (r, s2)"
  shows "st_db (snd (process uc i s)) = st_db s2"
proof -
  have "db_same (bindT get_now (\<lambda>_. bindT (record_outcome (pr_channel i) res) (\<lambda>_. returnT res)))" for res
    unfolding record_outcome_def by (intro db_same_bindT) auto
  then show ?thesis using assms by (cases r) (auto simp: process_def bindT_def liftE_def db_same_def)
qed

lemma sample_processed_rows:
  "map (\<lambda>t. (tr_id t, tr_provider t, tr_key t, tr_external t, tr_status t)) (db_txs (st_db sample_processed)) =
     [(''t'', None, None, None, Processed), (''t1'', Some ''pr'', Some ''k1'', Some ''x1'', Processed)]"
  "map wr_balance (db_wallets (st_db sample_processed)) = [70]"
proof -
  obtain c cs where p: "prepare sample_input = Inr (sample_prepared_with (c # cs))" using sample_prepares by blast
  have n: "get_now (sample_ready [sample_time, sample_time, sample_time]) =
      (Inr sample_time :: app_error + gotime, sample_ready [sample_time, sample_time])"
    by (simp add: get_now_def sample_ready_def)
  obtain r s2 where r: "process_with_retry new_use_case (sample_prepared_with (c # cs)) (sample_ready [sample_time, sample_time]) = (r, s2)"
    by fastforce
  have "st_db sample_processed = st_db s2"
    unfolding sample_processed_def by (rule process_run [OF n p r])
  with sample_attempt [of c cs] r
  show "map (\<lambda>t. (tr_id t, tr_provider t, tr_key t, tr_external t, tr_status t)) (db_txs (st_db sample_processed)) =
      [(''t'', None, None, None, Processed), (''t1'', Some ''pr'', Some ''k1'', Some ''x1'', Processed)]"
    "map wr_balance (db_wallets (st_db sample_processed)) = [70]"
    by simp_all
qed

lemma sample_bet_row: "\<exists>t \<in> set (db_txs (st_db sample_processed)). has_key ''pr'' ''k1'' t \<and> tr_id t = ''t1''"
  using sample_processed_rows(1) by (auto simp: has_key_def)
end
