(* ===== verification/HttpRuns.thy ===== *)
theory HttpRuns
  imports HttpSteps SampleRun
begin

text \<open>
  Properties of the HTTP API, and a server with a sample token, at whose requests they are shown.
\<close>

section \<open>A sample server\<close>

text \<open>A verifier that knows one token, with the claims of an administrator or of the provider \<open>pr\<close>.\<close>

definition quoted :: "string \<Rightarrow> string" where
  "quoted s = CHR 0x22 # s @ [CHR 0x22]"

definition sample_claims :: "string \<Rightarrow> string" where
  "sample_claims role = ''{'' @ quoted ''realm_access'' @ '':{'' @ quoted ''roles'' @ '':['' @ quoted role @ '']},'' @
     quoted ''provider_id'' @ '':'' @ quoted ''pr'' @ '','' @ quoted ''exp'' @ '':9}''"

definition sample_verifier :: "string \<Rightarrow> oidc_verifier" where
  "sample_verifier role = set_verifier (\<lambda>t. if t = ''tok'' then Some (''sub'', sample_claims role) else None) 5000000000 new_oidc_verifier"

definition sample_server :: "string \<Rightarrow> http_server" where
  "sample_server role = \<lparr>sv_verifier = sample_verifier role,
     sv_readiness = \<lparr>rd_shutting_down = False, rd_checks = []\<rparr>, sv_use_case = new_use_case,
     sv_uuid_parses = (\<lambda>s. length s = 36), sv_metrics_page = (\<lambda>_. json_response 200 None), sv_zone = (\<lambda>_ _. 0)\<rparr>"

definition sample_http :: "string \<Rightarrow> string list \<Rightarrow> string \<Rightarrow> http_request" where
  "sample_http m path body = \<lparr>hq_method = m, hq_path = path, hq_clean = True,
     hq_headers = [(''Authorization'', ''Bearer tok''), (''X-Correlation-Id'', ''c''), (''Idempotency-Key'', ''k1'')],
     hq_query = [], hq_body = body\<rparr>"

definition sample_open_body :: string where
  "sample_open_body = json_text True (JObj [(''playerId'', JStr sample_uuid),
     (''initialBalance'', JObj [(''amount'', JStr ''1.00''), (''currency'', JStr BRL)])])"

definition sample_claims_value :: "string \<Rightarrow> jvalue" where
  "sample_claims_value role = VObject [(''realm_access'', VObject [(''roles'', VArray [VString role])]),
     (''provider_id'', VString ''pr''), (''exp'', VNumber ''9'')]"

lemma sample_claims_parse:
  "parse_value 200 4 (sample_claims RoleProvider) = Some (sample_claims_value RoleProvider, []) \<and> length (sample_claims RoleProvider) < 99"
  "parse_value 200 4 (sample_claims RoleWalletAdmin) = Some (sample_claims_value RoleWalletAdmin, []) \<and> length (sample_claims RoleWalletAdmin) < 99"
  by code_simp+

lemma sample_claims_decode:
  assumes "role = RoleProvider \<or> role = RoleWalletAdmin"
  shows "decode_claims (sample_claims role) = Some \<lparr>kc_roles = [role], kc_provider_id = ''pr'', kc_expiry = Some 9, kc_not_before = None, kc_issued_at = None\<rparr>"
proof -
  have "parse_json (sample_claims role) = Some (sample_claims_value role, [])"
    using assms sample_claims_parse parse_json_small [of 200 4 "sample_claims role"] by auto
  moreover have "decode_struct set_claim claim_names (known_members claim_names (sample_claims_value role)) zero_claims =
      Inr (False, \<lparr>kc_roles = [role], kc_provider_id = ''pr'', kc_expiry = Some 9, kc_not_before = None, kc_issued_at = None\<rparr>)"
    by code_simp
  ultimately show ?thesis by (simp add: decode_claims_def skip_ws_def)
qed

definition sample_instant :: gotime where
  "sample_instant = \<lparr>instant = 62135596800000000000, location = ''UTC''\<rparr>"

definition sample_identity :: "string \<Rightarrow> identity" where
  "sample_identity role = \<lparr>id_subject = ''sub'', id_roles = [role], id_provider_id = ''pr''\<rparr>"

lemma sample_verify:
  assumes "role = RoleProvider \<or> role = RoleWalletAdmin" "st_now s = sample_instant # ts"
  shows "verify (sample_verifier role) ''tok'' s = (Inr (sample_identity role), s\<lparr>st_now := ts\<rparr>)"
proof -
  have "validate_times \<lparr>kc_roles = [role], kc_provider_id = ''pr'', kc_expiry = Some 9, kc_not_before = None, kc_issued_at = None\<rparr>
      sample_instant 5000000000 = Inr ()"
    by (simp add: validate_times_def time_after_def time_plus_def unix_time_def sample_instant_def)
  then show ?thesis
    using assms(2) sample_claims_decode [OF assms(1)]
    by (simp add: verify_def sample_verifier_def set_verifier_def get_now_def bindT_def liftE_def returnT_def sample_identity_def)
qed

lemma sample_bearer: "bearer_token (sample_http m path body) = Some ''tok''"
proof -
  have "split_fields [] ''Bearer tok'' = [''Bearer'', ''tok'']" by code_simp
  moreover have "map scheme_lower ''Bearer'' = ''bearer''" by code_simp
  ultimately show ?thesis by (simp add: bearer_token_def sample_http_def first_value_def)
qed

text \<open>A request with the sample token reaches the mux with its identity.\<close>

lemma sample_serve:
  assumes "role = RoleProvider \<or> role = RoleWalletAdmin" "st_now s = sample_instant # ts"
    and "\<not> is_public_route (sample_http m path body)"
  shows "serve (sample_server role) (sample_http m path body) s =
     mux (sample_server role) (Some (sample_identity role)) (sample_http m path body) (s\<lparr>st_now := ts\<rparr>)"
  using assms sample_verify [OF assms(1,2)]
  by (simp add: serve_def authenticate_def sample_bearer tryT_def sample_server_def)

section \<open>Opening a wallet over HTTP\<close>

definition sample_open_request :: http_request where
  "sample_open_request = sample_http ''POST'' [''wallets''] sample_open_body"

definition sample_http_start :: world where
  "sample_http_start = sample_start\<lparr>st_now := [sample_instant, sample_time]\<rparr>"

lemma sample_open_decodes:
  "decode_open_request sample_open_body = Inr \<lparr>oq_player_id = sample_uuid, oq_initial_balance = \<lparr>minor_units = 100, currency_of = BRL\<rparr>\<rparr>"
proof -
  let ?v = "VObject [(''playerId'', VString sample_uuid), (''initialBalance'', VObject [(''amount'', VString ''1.00''), (''currency'', VString BRL)])]"
  have "parse_value 250 4 sample_open_body = Some (?v, []) \<and> length sample_open_body < 120" by code_simp
  then have "parse_json sample_open_body = Some (?v, [])" "length sample_open_body \<le> max_request_body_bytes"
    using parse_json_small [of 250 4 sample_open_body "(?v, [])"] by (auto simp: max_request_body_bytes_def)
  moreover have "decode_struct set_open_field [''playerId'', ''initialBalance''] ?v \<lparr>oq_player_id = '''', oq_initial_balance = zero_money\<rparr> =
      Inr (False, \<lparr>oq_player_id = sample_uuid, oq_initial_balance = \<lparr>minor_units = 100, currency_of = BRL\<rparr>\<rparr>)" by code_simp
  ultimately show ?thesis by (simp add: decode_open_request_def decode_json_body_def decode_single_def skip_ws_def)
qed

lemma sample_open_route: "find_route sample_open_request = Some (''POST /wallets'', OpenWallet, [])" "\<not> is_public_route sample_open_request"
  by code_simp+

lemma sample_open_served:
  "st_db (snd (serve (sample_server RoleWalletAdmin) sample_open_request sample_http_start)) = st_db sample_opened"
proof -
  have start: "sample_http_start\<lparr>st_now := [sample_time]\<rparr> = sample_start"
    by (simp add: sample_http_start_def sample_start_def)
  have "serve (sample_server RoleWalletAdmin) sample_open_request sample_http_start =
      mux (sample_server RoleWalletAdmin) (Some (sample_identity RoleWalletAdmin)) sample_open_request sample_start"
    using sample_serve [of RoleWalletAdmin sample_http_start "[sample_time]" "''POST''" "[''wallets'']" sample_open_body] sample_open_route(2)
    by (simp add: start sample_open_request_def) (simp add: sample_http_start_def)
  also have "\<dots> = latency_wrap ''POST /wallets'' (open_wallet_handler (sample_server RoleWalletAdmin) sample_open_request) sample_start"
    using sample_open_route(1)
    by (simp add: mux_def endpoint_handler_def require_role_def has_role_def sample_identity_def is_timed_def)
      (simp add: sample_open_request_def sample_http_def)
  finally have serve: "serve (sample_server RoleWalletAdmin) sample_open_request sample_http_start = \<dots>" .
  obtain r s where o': "open_use_case sample_opening sample_start = (r, s)" by fastforce
  have "hq_body sample_open_request = sample_open_body" "first_value (hq_headers sample_open_request) ''X-Correlation-Id'' = ''c''"
    by (simp_all add: sample_open_request_def sample_http_def first_value_def)
  moreover have "length sample_uuid = 36" by code_simp
  ultimately have "\<exists>x. open_wallet_handler (sample_server RoleWalletAdmin) sample_open_request sample_start = (Inr x, s)"
    using o' by (auto simp: open_wallet_handler_def sample_open_decodes sample_server_def correlation_id_def bindT_def returnT_def
        tryT_def sample_opening_def split: sum.splits app_error.splits)
  then have "st_db (snd (latency_wrap ''POST /wallets'' (open_wallet_handler (sample_server RoleWalletAdmin) sample_open_request) sample_start)) = st_db s"
    by (auto simp: latency_wrap_def bindT_def observe_def returnT_def)
  then show ?thesis using serve o' by (simp add: sample_opened_def)
qed

section \<open>Properties\<close>

text \<open>The caller of a request, when its token is accepted.\<close>

definition caller_of :: "http_server \<Rightarrow> http_request \<Rightarrow> world \<Rightarrow> identity \<Rightarrow> bool" where
  "caller_of sv q s i \<longleftrightarrow> (\<exists>token s1. bearer_token q = Some token \<and> verify (sv_verifier sv) token s = (Inr i, s1))"

lemma serve_refused:
  assumes "\<not> is_public_route q" "\<nexists>i. caller_of sv q s i" "serve sv q s = (r, s')"
  shows "st_db s' = st_db s \<and> (\<exists>x. r = Inr x \<and> hp_status x = 401)"
proof (cases "bearer_token q")
  case None
  then show ?thesis using assms(1,3)
    by (auto simp: serve_def authenticate_def returnT_def missing_token_def unauthorized_def write_auth_error_def write_error_envelope_def)
next
  case (Some token)
  obtain v s1 where v: "verify (sv_verifier sv) token s = (v, s1)" by fastforce
  then obtain e where "v = Inl e" using assms(2) Some by (cases v) (auto simp: caller_of_def)
  then show ?thesis using assms(1,3) Some v db_sameD [OF verify_db v]
    by (auto simp: serve_def authenticate_def tryT_def returnT_def unauthorized_def write_auth_error_def write_error_envelope_def)
qed

lemma serve_accepted:
  assumes "\<not> is_public_route q" "caller_of sv q s i" "serve sv q s = (r, s')"
  obtains s1 where "st_db s1 = st_db s" "mux sv (Some i) q s1 = (r, s')"
proof -
  obtain token s1 where v: "bearer_token q = Some token" "verify (sv_verifier sv) token s = (Inr i, s1)"
    using assms(2) by (auto simp: caller_of_def)
  then have "mux sv (Some i) q s1 = (r, s')" using assms(1,3) by (simp add: serve_def authenticate_def tryT_def)
  then show thesis using that db_sameD [OF verify_db v(2)] by blast
qed

text \<open>
  C23: serving a request changes the database only if its token is accepted and either an administrator opens
  a wallet or a provider posts an operation, which then is one new row of that provider under the key of the
  request; a request outside the public paths whose token is not accepted is answered with 401.
\<close>
theorem only_authorised_requests_change:
  assumes "serve sv q s = (r, s')"
  shows "(st_db s' = st_db s \<or> (\<exists>i. caller_of sv q s i \<and> (admin_opens i q \<or> provider_posts i q (st_db s) (st_db s')))) \<and>
     (is_public_route q \<or> (\<exists>i. caller_of sv q s i) \<or> (\<exists>x. r = Inr x \<and> hp_status x = 401))"
  using serve_changes [OF assms] serve_refused [OF _ _ assms] unfolding caller_of_def by blast

theorem only_authorised_requests_change_witness:
  "\<exists>i. caller_of (sample_server RoleWalletAdmin) sample_open_request sample_http_start i \<and> admin_opens i sample_open_request"
proof -
  have "st_db (snd (serve (sample_server RoleWalletAdmin) sample_open_request sample_http_start)) \<noteq> st_db sample_http_start"
    using sample_open_served sample_opened_rows(2) by (auto simp: sample_http_start_def sample_start_def sample_world_def empty_db_def)
  moreover have "\<not> provider_posts i sample_open_request d d'" for i d d'
    by (simp add: provider_posts_def sample_open_request_def sample_http_def)
  ultimately show ?thesis
    using only_authorised_requests_change [OF prod.collapse [symmetric], of "sample_server RoleWalletAdmin" sample_open_request sample_http_start]
    by blast
qed

lemma find_post_route:
  "hq_method q = ''POST'' \<Longrightarrow> hq_path q = [''wagering'', ''transactions''] \<Longrightarrow>
     find_route q = Some (''POST /wagering/transactions'', PostTransaction, [])"
  by (simp add: find_route_def routes_def method_matches_def map_filter_simps)

lemma post_not_public: "hq_path q = [''wagering'', ''transactions''] \<Longrightarrow> \<not> is_public_route q"
  by (simp add: is_public_route_def url_path_def)

lemma mux_posts:
  assumes "mux sv (Some i) q s = (Inr r, s')" "hq_method q = ''POST''" "hq_path q = [''wagering'', ''transactions'']" "hq_clean q"
  shows "(hp_status r = 403 \<and> st_db s' = st_db s) \<or>
     (\<exists>s2. wagering_transactions_handler sv (Some i) q s = (Inr r, s2) \<and> st_db s' = st_db s2)"
proof -
  have "latency_wrap ''POST /wagering/transactions'' (require_role RoleProvider (Some i) (wagering_transactions_handler sv (Some i) q)) s = (Inr r, s')"
    using assms find_post_route [OF assms(2,3)] by (simp add: mux_def is_timed_def endpoint_handler_def Let_def)
  then obtain s2 where "require_role RoleProvider (Some i) (wagering_transactions_handler sv (Some i) q) s = (Inr r, s2)" "st_db s' = st_db s2"
    by (rule latency_db) blast
  then show ?thesis
    by (auto simp: require_role_def returnT_def forbidden_def write_auth_error_def write_error_envelope_def split: if_splits)
qed

text \<open>
  C24: the status of the reply to a posted operation tells what the database holds: after 200 or 202 it has the
  operation's row, which waits for its reference exactly after 202; after 422 it has the rejected row or is as it was;
  after any other status but 503 it is as it was.
\<close>
theorem posted_reply_tells:
  assumes "serve sv q s = (Inr r, s')"
    and "hq_method q = ''POST''" "hq_path q = [''wagering'', ''transactions'']" "hq_clean q"
  shows "(hp_status r \<in> {401, 403} \<and> st_db s' = st_db s) \<or>
     (\<exists>i. caller_of sv q s i \<and>
        reply_tells (id_provider_id i) (first_value (hq_headers q) ''Idempotency-Key'') (hp_status r) (st_db s) (st_db s'))"
proof (cases "\<exists>i. caller_of sv q s i")
  case False
  then show ?thesis using serve_refused [OF post_not_public [OF assms(3)] _ assms(1)] by auto
next
  case True
  then obtain i where i: "caller_of sv q s i" by blast
  obtain s1 where s1: "st_db s1 = st_db s" "mux sv (Some i) q s1 = (Inr r, s')"
    by (rule serve_accepted [OF post_not_public [OF assms(3)] i assms(1)])
  show ?thesis using mux_posts [OF s1(2) assms(2-4)] post_handler_tells s1(1) i by fastforce
qed

definition sample_post_request :: http_request where
  "sample_post_request = sample_http ''POST'' [''wagering'', ''transactions''] ''{}''"

lemma sample_empty_body: "decode_wagering_request ''{}'' = Inr zero_request"
proof -
  have "parse_value 6 2 ''{}'' = Some (VObject [], [])" by code_simp
  then have "parse_json ''{}'' = Some (VObject [], [])" by (rule parse_json_small) simp_all
  then show ?thesis
    by (simp add: decode_wagering_request_def decode_json_body_def max_request_body_bytes_def decode_single_def decode_struct_def skip_ws_def)
qed

lemma sample_post_served:
  "\<exists>s'. serve (sample_server RoleProvider) sample_post_request sample_http_start = (Inr wrong_provider, s')"
proof -
  let ?s = "sample_http_start\<lparr>st_now := [sample_time]\<rparr>"
  have q: "hq_method sample_post_request = ''POST''" "hq_path sample_post_request = [''wagering'', ''transactions'']"
    "hq_clean sample_post_request" "hq_body sample_post_request = ''{}''" by (simp_all add: sample_post_request_def sample_http_def)
  have "serve (sample_server RoleProvider) sample_post_request sample_http_start =
      mux (sample_server RoleProvider) (Some (sample_identity RoleProvider)) sample_post_request ?s"
    using sample_serve [of RoleProvider sample_http_start "[sample_time]" "''POST''" "[''wagering'', ''transactions'']" "''{}''"]
      post_not_public [OF q(2)] by (simp add: sample_post_request_def) (simp add: sample_http_start_def)
  moreover have "wagering_transactions_handler (sample_server RoleProvider) (Some (sample_identity RoleProvider)) sample_post_request ?s =
      (Inr wrong_provider, ?s)"
    using sample_empty_body q(4) by (simp add: wagering_transactions_handler_def zero_request_def sample_identity_def returnT_def)
  ultimately show ?thesis
    using find_post_route [OF q(1,2)] q(3)
    by (simp add: mux_def is_timed_def endpoint_handler_def require_role_def has_role_def sample_identity_def latency_wrap_def bindT_def
        observe_def returnT_def)
qed

theorem posted_reply_tells_witness:
  "st_db (snd (serve (sample_server RoleProvider) sample_post_request sample_http_start)) = st_db sample_http_start"
proof -
  have q: "hq_method sample_post_request = ''POST''" "hq_path sample_post_request = [''wagering'', ''transactions'']" "hq_clean sample_post_request"
    by (simp_all add: sample_post_request_def sample_http_def)
  obtain s' where s': "serve (sample_server RoleProvider) sample_post_request sample_http_start = (Inr wrong_provider, s')"
    using sample_post_served by blast
  moreover have "hp_status wrong_provider = 403" by (simp add: wrong_provider_def forbidden_def write_auth_error_def write_error_envelope_def)
  ultimately show ?thesis using posted_reply_tells [OF s' q] by (auto simp: reply_tells_def)
qed

text \<open>
  C29: outside the public paths a reply carries \<open>Retry-After: 1\<close> exactly when its status is 503.
\<close>
theorem unavailable_asks_for_retry:
  assumes "\<not> is_public_route q" "serve sv q s = (Inr r, s')"
  shows "hp_status r = 503 \<longleftrightarrow> (''Retry-After'', ''1'') \<in> set (hp_headers r)"
  using repliesD [OF serve_retry_marked [OF assms(1)] assms(2)] by (simp add: retry_marked_def)

theorem unavailable_asks_for_retry_witness: "hp_status wrong_provider \<noteq> 503"
proof -
  obtain s' where s': "serve (sample_server RoleProvider) sample_post_request sample_http_start = (Inr wrong_provider, s')"
    using sample_post_served by blast
  have "\<not> is_public_route sample_post_request" by (rule post_not_public) (simp add: sample_post_request_def sample_http_def)
  from unavailable_asks_for_retry [OF this s'] show ?thesis
    by (simp add: wrong_provider_def forbidden_def write_auth_error_def write_error_envelope_def content_json_def)
qed

text \<open>
  C26: a token is accepted only after the library's check of its signature, issuer and audience, and only while the
  time read then is no later than its expiry and no earlier than its other times, up to the clock skew.
\<close>
theorem accepted_tokens_are_current:
  assumes "verify v token s = (Inr i, s')" "\<bar>instant now\<bar> < 2 ^ 62 * 1000000000"
    and "fst (get_now s) = (Inr now :: unit + gotime)"
  shows "\<exists>f text claims. ov_id_verifier v = Some f \<and> f token = Some (id_subject i, text) \<and> decode_claims text = Some claims \<and>
     id_roles i = kc_roles claims \<and> id_provider_id i = kc_provider_id claims \<and> within_times claims now (ov_clock_skew v)"
  using verify_ok [OF assms(1)] validate_times_ok [OF _ assms(2)] assms(3) by fastforce

theorem accepted_tokens_are_current_witness:
  "\<exists>claims. decode_claims (sample_claims RoleProvider) = Some claims \<and> within_times claims sample_instant 5000000000"
proof -
  have v: "verify (sample_verifier RoleProvider) ''tok'' sample_http_start =
      (Inr (sample_identity RoleProvider), sample_http_start\<lparr>st_now := [sample_time]\<rparr>)"
    by (rule sample_verify) (simp_all add: sample_http_start_def)
  have "fst (get_now sample_http_start) = (Inr sample_instant :: unit + gotime)"
    by (simp add: get_now_def sample_http_start_def)
  with accepted_tokens_are_current [OF v, of sample_instant] show ?thesis
    by (auto simp: sample_instant_def sample_verifier_def set_verifier_def)
qed

text \<open>
  C30: the replay of an operation that failed for good is answered with 200 and no body at all: its balance is the
  zero amount, which does not encode.
\<close>
theorem failed_replay_has_no_body:
  assumes "tx_checks row" "tr_status row = Failed" "replays_row i hash res row"
  shows "hp_status (json_response (wagering_status res) (wagering_response zone res)) = 200 \<and>
     hp_body (json_response (wagering_status res) (wagering_response zone res)) = ''''"
proof -
  have res: "ps_status res = Failed" "ps_balance res = zero_money"
    using assms by (auto simp: tx_checks_def tx_balance_check_def replays_row_def split: option.splits)
  have "money_reply zero_money = None" by code_simp
  then have "wagering_response zone res = None" using res by (simp add: wagering_response_def robj_def)
  then show ?thesis using res by (simp add: json_response_def wagering_status_def)
qed

definition sample_failed_row :: tx_row where
  "sample_failed_row = \<lparr>tr_id = ''t1'', tr_external = Some ''x1'', tr_provider = Some ''pr'', tr_key = Some ''k1'', tr_hash = Some ''h'',
     tr_wallet = sample_uuid, tr_player = sample_uuid, tr_round = Some ''r'', tr_game = Some ''g'', tr_kind = Refund, tr_origin = External,
     tr_amount = 30, tr_currency = BRL, tr_ref_external = Some ''x0'', tr_ref_id = None, tr_status = Failed,
     tr_failure = Some ''PERMANENT_PROCESSING_FAILURE'', tr_balance = None, tr_attempts = 3, tr_next_attempt = None,
     tr_expires = None, tr_created = sample_time, tr_updated = sample_time\<rparr>"

definition sample_failed_result :: process_result where
  "sample_failed_result = \<lparr>ps_transaction_id = ''t1'', ps_status = Failed, ps_failure_code = ''PERMANENT_PROCESSING_FAILURE'',
     ps_balance = zero_money, ps_expires = None, ps_replay = True, ps_kind = Refund\<rparr>"

theorem failed_replay_has_no_body_witness:
  "hp_body (json_response (wagering_status sample_failed_result) (wagering_response (\<lambda>_. 0) sample_failed_result)) = ''''"
proof -
  have "tx_checks sample_failed_row" by code_simp
  moreover have "tr_status sample_failed_row = Failed" by (simp add: sample_failed_row_def)
  moreover have "replays_row (sample_input\<lparr>pr_request := sample_request Refund (Some ''x0'')\<rparr>) ''h'' sample_failed_result sample_failed_row" by code_simp
  ultimately show ?thesis using failed_replay_has_no_body [of sample_failed_row _ "''h''" sample_failed_result "\<lambda>_. 0"] by simp
qed
end
