(* ===== verification/Config.thy ===== *)
theory Config
  imports HttpApi
begin

text \<open>
  Reading and checking the environment: \<open>internal/config/config.go\<close> with \<open>time.ParseDuration\<close>, and the
  credential files of \<open>internal/envfile/envfile.go\<close> as \<open>internal/pg/dsn.go\<close> reads them.
\<close>

section \<open>Durations\<close>

text \<open>
  The nearest double to a positive quotient, as its 53-bit significand and exponent; ties go to the even one. The
  fractions of durations need no more of \<open>float64\<close> than division, product and truncation.
\<close>

fun bit_length_fuel :: "nat \<Rightarrow> int \<Rightarrow> int" where
  "bit_length_fuel 0 n = 0"
| "bit_length_fuel (Suc k) n = (if n \<le> 0 then 0 else 1 + bit_length_fuel k (n div 2))"

definition bit_length :: "int \<Rightarrow> int" where
  "bit_length n = bit_length_fuel 256 n"

definition round_half_even :: "int \<Rightarrow> int \<Rightarrow> int" where
  "round_half_even n d = (let q = n div d; r = n mod d in
     if 2 * r < d \<or> (2 * r = d \<and> q mod 2 = 0) then q else q + 1)"

definition float_of :: "int \<Rightarrow> int \<Rightarrow> int \<times> int" where
  "float_of n d =
     (let b = bit_length n - bit_length d;
          below = (if 0 \<le> b then n < d * 2 ^ nat b else n * 2 ^ nat (- b) < d);
          e = (if below then b - 53 else b - 52)
      in (if 0 \<le> e then round_half_even n (d * 2 ^ nat e) else round_half_even (n * 2 ^ nat (- e)) d, e))"

definition float_num :: "int \<times> int \<Rightarrow> int" where
  "float_num x = fst x * 2 ^ nat (snd x)"

definition float_den :: "int \<times> int \<Rightarrow> int" where
  "float_den x = 2 ^ nat (- snd x)"

text \<open>\<open>uint64(float64(f) * (float64(unit) / scale))\<close> for a positive \<open>f\<close>.\<close>

definition fraction_nanos :: "int \<Rightarrow> int \<Rightarrow> int \<Rightarrow> int" where
  "fraction_nanos f unit_ns scale =
     (let a = float_of f 1; b = float_of unit_ns scale;
          p = float_of (float_num a * float_num b) (float_den a * float_den b)
      in float_num p div float_den p)"

definition leading_digit :: "int \<Rightarrow> char \<Rightarrow> int" where
  "leading_digit x c = x * 10 + int (digit_val c)"

fun leading_int :: "int \<Rightarrow> string \<Rightarrow> (int \<times> string) option" where
  "leading_int x [] = Some (x, [])"
| "leading_int x (c # s) =
     (if \<not> is_digit c then Some (x, c # s)
      else if 2 ^ 63 div 10 < x \<or> 2 ^ 63 < leading_digit x c then None
      else leading_int (leading_digit x c) s)"

text \<open>The digits of a fraction that fit, and the power of ten they are divided by; the others are skipped.\<close>

fun leading_fraction :: "bool \<Rightarrow> int \<Rightarrow> int \<Rightarrow> string \<Rightarrow> int \<times> int \<times> string" where
  "leading_fraction overflow x scale [] = (x, scale, [])"
| "leading_fraction overflow x scale (c # s) =
     (if \<not> is_digit c then (x, scale, c # s)
      else if overflow \<or> (2 ^ 63 - 1) div 10 < x \<or> 2 ^ 63 < leading_digit x c then leading_fraction True x scale s
      else leading_fraction False (leading_digit x c) (scale * 10) s)"

definition duration_units :: "(string \<times> int) list" where
  "duration_units = [(''ns'', 1), (''us'', 1000), ([CHR 0xC2, CHR 0xB5] @ ''s'', 1000), ([CHR 0xCE, CHR 0xBC] @ ''s'', 1000),
     (''ms'', 1000000), (''s'', 1000000000), (''m'', 60000000000), (''h'', 3600000000000)]"

definition in_unit :: "char \<Rightarrow> bool" where
  "in_unit c \<longleftrightarrow> c \<noteq> CHR ''.'' \<and> \<not> is_digit c"

text \<open>The fraction after a dot: whether it had digits, they, their scale and the rest.\<close>

definition fraction_part :: "string \<Rightarrow> bool \<times> int \<times> int \<times> string" where
  "fraction_part s =
     (if s \<noteq> [] \<and> hd s = CHR ''.'' then
        (case leading_fraction False 0 1 (tl s) of (f, scale, r) \<Rightarrow> (length (tl s) \<noteq> length r, f, scale, r))
      else (False, 0, 1, s))"

text \<open>One number with its unit, in nanoseconds, and the rest.\<close>

definition parse_component :: "string \<Rightarrow> (int \<times> string) option" where
  "parse_component s =
     (if s = [] \<or> in_unit (hd s) then None
      else case leading_int 0 s of None \<Rightarrow> None
      | Some (v, s1) \<Rightarrow> (case fraction_part s1 of (post, f, scale, s2) \<Rightarrow>
          if length s = length s1 \<and> \<not> post then None
          else if takeWhile in_unit s2 = [] then None
          else case map_of duration_units (takeWhile in_unit s2) of None \<Rightarrow> None
          | Some k \<Rightarrow>
              if 2 ^ 63 div k < v then None
              else let w = v * k + (if 0 < f then fraction_nanos f k scale else 0) in
                if 0 < f \<and> 2 ^ 63 < w then None else Some (w, dropWhile in_unit s2)))"

lemma leading_int_length: "leading_int x s = Some (v, r) \<Longrightarrow> length r \<le> length s"
  by (induction s arbitrary: x) (auto split: if_splits simp: le_SucI)

lemma leading_fraction_length: "leading_fraction b x k s = (v, k', r) \<Longrightarrow> length r \<le> length s"
  by (induction s arbitrary: b x k) (auto split: if_splits simp: le_SucI)

lemma fraction_part_length: "fraction_part s = (post, f, k, r) \<Longrightarrow> length r \<le> length s"
  using leading_fraction_length [of False 0 1 "tl s" f k r] by (auto simp: fraction_part_def split: if_splits prod.splits)

lemma dropWhile_shrinks: "takeWhile P s \<noteq> [] \<Longrightarrow> length (dropWhile P s) < length s"
  by (cases s) (auto simp: length_dropWhile_le le_imp_less_Suc split: if_splits)

lemma parse_component_length: "parse_component s = Some (v, r) \<Longrightarrow> length r < length s"
proof -
  assume p: "parse_component s = Some (v, r)"
  then obtain v1 s1 where s1: "leading_int 0 s = Some (v1, s1)"
    by (auto simp: parse_component_def split: if_splits option.splits)
  obtain post f k s2 where f: "fraction_part s1 = (post, f, k, s2)" by (cases "fraction_part s1") auto
  have "takeWhile in_unit s2 \<noteq> []" "r = dropWhile in_unit s2"
    using p s1 f by (auto simp: parse_component_def Let_def split: if_splits option.splits)
  then have "length r < length s2" using dropWhile_shrinks by blast
  then show ?thesis using leading_int_length [OF s1] fraction_part_length [OF f] by simp
qed

text \<open>The sum is one of \<open>uint64\<close>.\<close>

function parse_components :: "int \<Rightarrow> string \<Rightarrow> int option" where
  "parse_components d s =
     (if s = [] then Some d
      else case parse_component s of None \<Rightarrow> None
      | Some (v, r) \<Rightarrow> (let t = (d + v) mod 2 ^ 64 in if 2 ^ 63 < t then None else parse_components t r))"
  by auto
termination
  by (relation "measure (\<lambda>(_, s). length s)") (auto dest: parse_component_length)

declare parse_components.simps [simp del]

definition parse_duration :: "string \<Rightarrow> int64 option" where
  "parse_duration s =
     (let signed = (s \<noteq> [] \<and> (hd s = CHR ''-'' \<or> hd s = CHR ''+'')); neg = (signed \<and> hd s = CHR ''-'');
          r = (if signed then tl s else s)
      in if r = ''0'' then Some 0
         else if r = [] then None
         else case parse_components 0 r of None \<Rightarrow> None
         | Some d \<Rightarrow> if neg then Some (- word_of_int d) else if 2 ^ 63 - 1 < d then None else Some (word_of_int d))"

section \<open>The environment\<close>

type_synonym environment = "string \<Rightarrow> string option"

text \<open>An error names its variable and what is wrong with it.\<close>

datatype problem =
    Required | InvalidLevel | HasCredentials | InvalidDuration | NotPositive | InvalidInteger | InvalidBoolean
  | EmptyProvider | DuplicateProvider string | NoProvider | RootKey | MustNotBeEmpty | TooSmall

type_synonym config_error = "string \<times> problem"

text \<open>A getter's value and the errors it appends to \<open>errs\<close>.\<close>

type_synonym 'a checked = "config_error list \<times> 'a"

definition get_env :: "environment \<Rightarrow> string \<Rightarrow> string \<Rightarrow> string" where
  "get_env env key fallback = (case env key of Some v \<Rightarrow> v | None \<Rightarrow> fallback)"

text \<open>An unset or empty variable is its fallback.\<close>

definition get_parsed :: "(string \<Rightarrow> problem + 'a) \<Rightarrow> environment \<Rightarrow> string \<Rightarrow> 'a \<Rightarrow> 'a checked" where
  "get_parsed parse env key fallback = (case env key of
     None \<Rightarrow> ([], fallback)
   | Some v \<Rightarrow> if v = '''' then ([], fallback)
       else case parse v of Inl p \<Rightarrow> ([(key, p)], fallback) | Inr x \<Rightarrow> ([], x))"

definition positive_duration :: "string \<Rightarrow> problem + int64" where
  "positive_duration v = (case parse_duration v of
     None \<Rightarrow> Inl InvalidDuration | Some d \<Rightarrow> if sint d \<le> 0 then Inl NotPositive else Inr d)"

definition positive_int :: "int \<Rightarrow> string \<Rightarrow> problem + int" where
  "positive_int bound v = (case parse_int64 v of
     None \<Rightarrow> Inl InvalidInteger | Some n \<Rightarrow> if n \<le> 0 \<or> bound \<le> n then Inl InvalidInteger else Inr n)"

definition parse_bool :: "string \<Rightarrow> problem + bool" where
  "parse_bool v =
     (if List.member [''1'', ''t'', ''T'', ''TRUE'', ''true'', ''True''] v then Inr True
      else if List.member [''0'', ''f'', ''F'', ''FALSE'', ''false'', ''False''] v then Inr False
      else Inl InvalidBoolean)"

definition get_duration :: "environment \<Rightarrow> string \<Rightarrow> int64 \<Rightarrow> int64 checked" where
  "get_duration = get_parsed positive_duration"

definition get_int :: "environment \<Rightarrow> string \<Rightarrow> int \<Rightarrow> int checked" where
  "get_int = get_parsed (positive_int (2 ^ 63))"

definition get_int32 :: "environment \<Rightarrow> string \<Rightarrow> int \<Rightarrow> int checked" where
  "get_int32 = get_parsed (positive_int (2 ^ 31))"

definition get_bool :: "environment \<Rightarrow> string \<Rightarrow> bool \<Rightarrow> bool checked" where
  "get_bool = get_parsed parse_bool"

section \<open>Lists of values\<close>

fun split_on :: "char \<Rightarrow> string \<Rightarrow> string list" where
  "split_on sep [] = [[]]"
| "split_on sep (c # s) = (if c = sep then [] # split_on sep s
     else case split_on sep s of [] \<Rightarrow> [[c]] | x # xs \<Rightarrow> (c # x) # xs)"

function trim_left :: "string \<Rightarrow> string" where
  "trim_left s = (case space_size s of None \<Rightarrow> s | Some n \<Rightarrow> trim_left (drop n s))"
  by auto
termination
  by (relation "measure length") (auto dest: space_size_pos)

declare trim_left.simps [simp del]

text \<open>The bytes of a white-space rune at the end.\<close>

definition ends_in_space :: "string \<Rightarrow> nat option" where
  "ends_in_space s = List.find (\<lambda>n. n \<le> length s \<and> space_size (drop (length s - n) s) = Some n) [1, 2, 3]"

lemma ends_in_space_pos: "ends_in_space s = Some n \<Longrightarrow> 0 < n \<and> s \<noteq> []"
  by (cases s) (auto simp: ends_in_space_def split: if_splits)

function trim_right :: "string \<Rightarrow> string" where
  "trim_right s = (case ends_in_space s of None \<Rightarrow> s | Some n \<Rightarrow> trim_right (take (length s - n) s))"
  by auto
termination
  by (relation "measure length") (auto dest: ends_in_space_pos)

declare trim_right.simps [simp del]

definition trim_space :: "string \<Rightarrow> string" where
  "trim_space s = trim_right (trim_left s)"

text \<open>The values in order, without the empty and the repeated ones, which are errors.\<close>

fun csv_values :: "string \<Rightarrow> string list \<Rightarrow> string list \<Rightarrow> (string list) checked" where
  "csv_values key [] acc = ([], acc)"
| "csv_values key (raw # rest) acc =
     (let v = trim_space raw in
      if v = '''' then (case csv_values key rest acc of (es, r) \<Rightarrow> ((key, EmptyProvider) # es, r))
      else if List.member acc v then (case csv_values key rest acc of (es, r) \<Rightarrow> ((key, DuplicateProvider v) # es, r))
      else csv_values key rest (acc @ [v]))"

definition get_csv :: "environment \<Rightarrow> string \<Rightarrow> string \<Rightarrow> (string list) checked" where
  "get_csv env key fallback =
     (case csv_values key (split_on (CHR '','') (get_env env key fallback)) [] of
        (es, r) \<Rightarrow> (es @ (if r = [] then [(key, NoProvider)] else []), r))"
section \<open>The configuration\<close>

record http_config =
  hc_addr :: string
  hc_read_timeout :: int64
  hc_write_timeout :: int64
  hc_shutdown_timeout :: int64
  hc_readiness_timeout :: int64

record postgres_config =
  pc_host :: string
  pc_port :: string
  pc_name :: string
  pc_sslmode :: string
  pc_dsn :: string
  pc_ping_timeout :: int64
  pc_max_conns :: int
  pc_credentials_file :: string
  pc_lock_timeout :: int64
  pc_statement_timeout :: int64

record sqs_consumer_config =
  cc_enabled :: bool
  cc_poll_wait :: int64
  cc_concurrency :: int
  cc_visibility_timeout :: int64
  cc_processing_timeout :: int64
  cc_retry_base :: int64
  cc_retry_max :: int64
  cc_shutdown_timeout :: int64
  cc_provider_allowlist :: "string list"

record sqs_config =
  qc_endpoint_url :: string
  qc_region :: string
  qc_input_queue :: string
  qc_dlq_queue :: string
  qc_output_queue :: string
  qc_consumer_key :: string
  qc_consumer_secret :: string
  qc_publisher_key :: string
  qc_publisher_secret :: string
  qc_startup_timeout :: int64
  qc_consumer :: sqs_consumer_config

record outbox_config =
  oc_poll_interval :: int64
  oc_lease :: int64
  oc_batch_size :: int
  oc_retry_base :: int64
  oc_retry_max :: int64

record reference_worker_config =
  wc_enabled :: bool
  wc_poll_interval :: int64
  wc_lease :: int64
  wc_batch_size :: int
  wc_retry_base :: int64
  wc_retry_max :: int64
  wc_max_attempts :: int
  wc_ttl :: int64
  wc_shutdown_timeout :: int64

record auth_config =
  ac_issuer_url :: string
  ac_discovery_url :: string
  ac_audience :: string
  ac_clock_skew :: int64
  ac_discovery_timeout :: int64

record config =
  cf_http :: http_config
  cf_log_level :: string
  cf_postgres :: postgres_config
  cf_sqs :: sqs_config
  cf_outbox :: outbox_config
  cf_reference_worker :: reference_worker_config
  cf_auth :: auth_config
  cf_stop_timeout :: int64

abbreviation second :: int64 where "second \<equiv> 1000000000"
abbreviation millisecond :: int64 where "millisecond \<equiv> 1000000"

definition sqs_consumer_post_cancel_drain :: int64 where
  "sqs_consumer_post_cancel_drain = 5 * second"

definition default_fx_stop_timeout :: int64 where
  "default_fx_stop_timeout = 60 * second"

text \<open>Appends an error when a condition does not hold.\<close>

definition check :: "bool \<Rightarrow> string \<Rightarrow> problem \<Rightarrow> config_error list" where
  "check ok key p = (if ok then [] else [(key, p)])"

section \<open>Loading\<close>

definition load_http :: "environment \<Rightarrow> http_config checked" where
  "load_http env =
     (let (e1, r) = get_duration env ''HTTP_READ_TIMEOUT'' (5 * second);
          (e2, w) = get_duration env ''HTTP_WRITE_TIMEOUT'' (10 * second);
          (e3, s) = get_duration env ''HTTP_SHUTDOWN_TIMEOUT'' (15 * second);
          (e4, d) = get_duration env ''HTTP_READINESS_TIMEOUT'' (3 * second)
      in (e1 @ e2 @ e3 @ e4, \<lparr>hc_addr = get_env env ''HTTP_ADDR'' '':8080'', hc_read_timeout = r, hc_write_timeout = w,
           hc_shutdown_timeout = s, hc_readiness_timeout = d\<rparr>))"

text \<open>\<open>strings.ToLower\<close>, as far as it gives ASCII: the capital I with a dot becomes a plain i.\<close>

fun lower_text :: "string \<Rightarrow> string" where
  "lower_text [] = []"
| "lower_text (c # s) = (if c = CHR 0xC4 \<and> take 1 s = [CHR 0xB0] then CHR ''i'' # lower_text (drop 1 s)
     else scheme_lower c # lower_text s)"

definition is_valid_log_level :: "string \<Rightarrow> bool" where
  "is_valid_log_level level = List.member [''debug'', ''info'', ''warn'', ''error''] (lower_text level)"

definition load_log :: "environment \<Rightarrow> string checked" where
  "load_log env = (let level = get_env env ''LOG_LEVEL'' ''info'' in (check (is_valid_log_level level) ''LOG_LEVEL'' InvalidLevel, level))"

definition has_userinfo :: "string \<Rightarrow> bool" where
  "has_userinfo host = List.member host (CHR ''@'')"

definition load_postgres :: "environment \<Rightarrow> postgres_config checked" where
  "load_postgres env =
     (let host = get_env env ''DATABASE_HOST'' ''''; port = get_env env ''DATABASE_PORT'' ''5432'';
          name = get_env env ''DATABASE_NAME'' ''''; sslmode = get_env env ''DATABASE_SSLMODE'' ''disable'';
          eh = (if host = '''' then [(''DATABASE_HOST'', Required)]
                else check (\<not> has_userinfo host) ''DATABASE_HOST'' HasCredentials);
          en = check (name \<noteq> '''') ''DATABASE_NAME'' Required;
          dsn = (if host \<noteq> '''' \<and> \<not> has_userinfo host \<and> name \<noteq> ''''
                 then ''postgres://'' @ host @ '':'' @ port @ ''/'' @ name @ ''?sslmode='' @ sslmode else '''');
          (e1, ping) = get_duration env ''DATABASE_PING_TIMEOUT'' (5 * second);
          (e2, conns) = get_int32 env ''DATABASE_MAX_CONNS'' 10;
          (e3, lock) = get_duration env ''DATABASE_LOCK_TIMEOUT'' (3 * second);
          (e4, stmt) = get_duration env ''DATABASE_STATEMENT_TIMEOUT'' (5 * second)
      in (eh @ en @ e1 @ e2 @ e3 @ e4, \<lparr>pc_host = host, pc_port = port, pc_name = name, pc_sslmode = sslmode, pc_dsn = dsn,
           pc_ping_timeout = ping, pc_max_conns = conns,
           pc_credentials_file = get_env env ''DATABASE_APP_CREDENTIALS_FILE'' ''deploy/postgres/.runtime/credentials.env'',
           pc_lock_timeout = lock, pc_statement_timeout = stmt\<rparr>))"

text \<open>The literal key and the keys of twelve digits are the root keys of the local queue service.\<close>

definition is_root_key :: "string \<Rightarrow> bool" where
  "is_root_key k \<longleftrightarrow> k = ''test'' \<or> (length k = 12 \<and> list_all is_digit k)"

definition require_role_credentials :: "string \<Rightarrow> string \<Rightarrow> string \<Rightarrow> config_error list" where
  "require_role_credentials prefix access secret =
     (if access = '''' then [(prefix @ ''_ACCESS_KEY_ID'', Required)]
      else check (\<not> is_root_key access) (prefix @ ''_ACCESS_KEY_ID'') RootKey) @
     check (secret \<noteq> '''') (prefix @ ''_SECRET_ACCESS_KEY'') Required"

definition load_consumer :: "environment \<Rightarrow> sqs_consumer_config checked" where
  "load_consumer env =
     (let (e1, enabled) = get_bool env ''SQS_CONSUMER_ENABLED'' True;
          (e2, wait) = get_duration env ''SQS_CONSUMER_POLL_WAIT'' (20 * second);
          (e3, concurrency) = get_int env ''SQS_CONSUMER_CONCURRENCY'' 10;
          (e4, visibility) = get_duration env ''SQS_CONSUMER_VISIBILITY_TIMEOUT'' (30 * second);
          (e5, processing) = get_duration env ''SQS_CONSUMER_PROCESSING_TIMEOUT'' (20 * second);
          (e6, base) = get_duration env ''SQS_CONSUMER_RETRY_BASE'' second;
          (e7, cap) = get_duration env ''SQS_CONSUMER_RETRY_MAX'' (60 * second);
          (e8, shutdown) = get_duration env ''SQS_CONSUMER_SHUTDOWN_TIMEOUT'' (30 * second);
          (e9, allowlist) = get_csv env ''SQS_CONSUMER_PROVIDER_ALLOWLIST'' ''provider-a,provider-b''
      in (e1 @ e2 @ e3 @ e4 @ e5 @ e6 @ e7 @ e8 @ e9 @
          check (processing <s visibility) ''SQS_CONSUMER_VISIBILITY_TIMEOUT'' TooSmall @
          check (base \<le>s cap) ''SQS_CONSUMER_RETRY_MAX'' TooSmall @
          check (wait + sqs_consumer_post_cancel_drain <s shutdown) ''SQS_CONSUMER_SHUTDOWN_TIMEOUT'' TooSmall,
          \<lparr>cc_enabled = enabled, cc_poll_wait = wait, cc_concurrency = concurrency, cc_visibility_timeout = visibility,
           cc_processing_timeout = processing, cc_retry_base = base, cc_retry_max = cap, cc_shutdown_timeout = shutdown,
           cc_provider_allowlist = allowlist\<rparr>))"

definition load_sqs :: "environment \<Rightarrow> sqs_config checked" where
  "load_sqs env =
     (let endpoint = get_env env ''SQS_ENDPOINT_URL'' '''';
          ck = get_env env ''SQS_CONSUMER_ACCESS_KEY_ID'' ''''; cs = get_env env ''SQS_CONSUMER_SECRET_ACCESS_KEY'' '''';
          pk = get_env env ''SQS_PUBLISHER_ACCESS_KEY_ID'' ''''; ps = get_env env ''SQS_PUBLISHER_SECRET_ACCESS_KEY'' '''';
          (e1, startup) = get_duration env ''SQS_STARTUP_TIMEOUT'' (10 * second);
          (e2, consumer) = load_consumer env
      in (check (endpoint \<noteq> '''') ''SQS_ENDPOINT_URL'' Required @ require_role_credentials ''SQS_CONSUMER'' ck cs @
          require_role_credentials ''SQS_PUBLISHER'' pk ps @ e1 @ e2,
          \<lparr>qc_endpoint_url = endpoint, qc_region = get_env env ''SQS_REGION'' ''us-east-1'',
           qc_input_queue = get_env env ''SQS_INPUT_QUEUE_NAME'' ''wager-transactions.fifo'',
           qc_dlq_queue = get_env env ''SQS_DLQ_QUEUE_NAME'' ''wager-transactions-dlq.fifo'',
           qc_output_queue = get_env env ''SQS_OUTPUT_QUEUE_NAME'' ''wallet-events.fifo'',
           qc_consumer_key = ck, qc_consumer_secret = cs, qc_publisher_key = pk, qc_publisher_secret = ps,
           qc_startup_timeout = startup, qc_consumer = consumer\<rparr>))"

definition load_outbox :: "environment \<Rightarrow> outbox_config checked" where
  "load_outbox env =
     (let (e1, poll) = get_duration env ''OUTBOX_POLL_INTERVAL'' (250 * millisecond);
          (e2, lease) = get_duration env ''OUTBOX_LEASE'' (30 * second);
          (e3, batch) = get_int env ''OUTBOX_BATCH_SIZE'' 10;
          (e4, base) = get_duration env ''OUTBOX_RETRY_BASE'' second;
          (e5, cap) = get_duration env ''OUTBOX_RETRY_MAX'' (60 * second)
      in (e1 @ e2 @ e3 @ e4 @ e5 @ check (base \<le>s cap) ''OUTBOX_RETRY_MAX'' TooSmall,
          \<lparr>oc_poll_interval = poll, oc_lease = lease, oc_batch_size = batch, oc_retry_base = base, oc_retry_max = cap\<rparr>))"

definition load_reference_worker :: "environment \<Rightarrow> reference_worker_config checked" where
  "load_reference_worker env =
     (let (e1, enabled) = get_bool env ''REFERENCE_WORKER_ENABLED'' True;
          (e2, poll) = get_duration env ''REFERENCE_WORKER_POLL_INTERVAL'' (250 * millisecond);
          (e3, lease) = get_duration env ''REFERENCE_WORKER_LEASE'' (30 * second);
          (e4, batch) = get_int env ''REFERENCE_WORKER_BATCH_SIZE'' 10;
          (e5, base) = get_duration env ''REFERENCE_WORKER_RETRY_BASE'' second;
          (e6, cap) = get_duration env ''REFERENCE_WORKER_RETRY_MAX'' (60 * second);
          (e7, attempts) = get_int env ''REFERENCE_WORKER_MAX_ATTEMPTS'' 10;
          (e8, ttl) = get_duration env ''REFERENCE_WORKER_TTL'' (86400 * second);
          (e9, shutdown) = get_duration env ''REFERENCE_WORKER_SHUTDOWN_TIMEOUT'' (5 * second)
      in (e1 @ e2 @ e3 @ e4 @ e5 @ e6 @ e7 @ e8 @ e9 @ check (base \<le>s cap) ''REFERENCE_WORKER_RETRY_MAX'' TooSmall,
          \<lparr>wc_enabled = enabled, wc_poll_interval = poll, wc_lease = lease, wc_batch_size = batch, wc_retry_base = base,
           wc_retry_max = cap, wc_max_attempts = attempts, wc_ttl = ttl, wc_shutdown_timeout = shutdown\<rparr>))"

definition load_auth :: "environment \<Rightarrow> auth_config checked" where
  "load_auth env =
     (let issuer = get_env env ''AUTH_ISSUER_URL'' ''''; discovery = get_env env ''AUTH_DISCOVERY_URL'' '''';
          audience = get_env env ''AUTH_AUDIENCE'' ''wallet-api'';
          (e1, skew) = get_duration env ''AUTH_CLOCK_SKEW'' (5 * second);
          (e2, timeout) = get_duration env ''AUTH_DISCOVERY_TIMEOUT'' (45 * second)
      in (check (issuer \<noteq> '''') ''AUTH_ISSUER_URL'' Required @ check (audience \<noteq> '''') ''AUTH_AUDIENCE'' MustNotBeEmpty @ e1 @ e2,
          \<lparr>ac_issuer_url = issuer, ac_discovery_url = (if discovery = '''' then issuer else discovery), ac_audience = audience,
           ac_clock_skew = skew, ac_discovery_timeout = timeout\<rparr>))"

text \<open>The sum of the deadlines of the components, in \<open>int64\<close>.\<close>

definition internal_stop_deadline :: "http_config \<Rightarrow> sqs_config \<Rightarrow> reference_worker_config \<Rightarrow> int64" where
  "internal_stop_deadline h q w =
     hc_shutdown_timeout h + cc_shutdown_timeout (qc_consumer q) + sqs_consumer_post_cancel_drain + wc_shutdown_timeout w"

definition load :: "environment \<Rightarrow> config_error list + config" where
  "load env =
     (let (e1, http) = load_http env; (e2, level) = load_log env; (e3, postgres) = load_postgres env;
          (e4, sqs) = load_sqs env; (e5, outbox) = load_outbox env; (e6, worker) = load_reference_worker env;
          (e7, auth) = load_auth env; (e8, stop) = get_duration env ''FX_STOP_TIMEOUT'' default_fx_stop_timeout;
          errs = e1 @ e2 @ e3 @ e4 @ e5 @ e6 @ e7 @ e8 @
            check (internal_stop_deadline http sqs worker <s stop) ''FX_STOP_TIMEOUT'' TooSmall
      in if errs \<noteq> [] then Inl errs
         else Inr \<lparr>cf_http = http, cf_log_level = level, cf_postgres = postgres, cf_sqs = sqs, cf_outbox = outbox,
           cf_reference_worker = worker, cf_auth = auth, cf_stop_timeout = stop\<rparr>)"

text \<open>\<open>StopTimeoutFromEnv\<close> drops the errors.\<close>

definition stop_timeout_from_env :: "environment \<Rightarrow> int64" where
  "stop_timeout_from_env env = snd (get_duration env ''FX_STOP_TIMEOUT'' default_fx_stop_timeout)"

section \<open>What a loaded configuration satisfies\<close>

text \<open>A getter never gives a value out of range: with an error it gives its fallback.\<close>

lemma get_duration_positive [simp]: "0 < sint fallback \<Longrightarrow> 0 < sint (snd (get_duration env key fallback))"
  by (auto simp: get_duration_def get_parsed_def positive_duration_def split: option.splits if_splits sum.splits)

lemma get_int_positive [simp]: "0 < fallback \<Longrightarrow> 0 < snd (get_int env key fallback)"
  by (auto simp: get_int_def get_parsed_def positive_int_def split: option.splits if_splits sum.splits)

lemma get_int32_positive [simp]: "0 < fallback \<Longrightarrow> 0 < snd (get_int32 env key fallback)"
  "fallback < 2147483648 \<Longrightarrow> snd (get_int32 env key fallback) < 2147483648"
  by (auto simp: get_int32_def get_parsed_def positive_int_def split: option.splits if_splits sum.splits)

lemma check_ok [simp]: "check ok key p = [] \<longleftrightarrow> ok"
  by (simp add: check_def)

lemma csv_values_ok: "csv_values key raws acc = (es, r) \<Longrightarrow> distinct acc \<Longrightarrow> '''' \<notin> set acc \<Longrightarrow> distinct r \<and> '''' \<notin> set r"
  by (induction raws arbitrary: acc es) (auto simp: Let_def split: if_splits prod.splits)

lemma get_csv_ok: "fst (get_csv env key fallback) = [] \<Longrightarrow>
    snd (get_csv env key fallback) \<noteq> [] \<and> distinct (snd (get_csv env key fallback)) \<and> '''' \<notin> set (snd (get_csv env key fallback))"
  using csv_values_ok [of key "split_on (CHR '','') (get_env env key fallback)" "[]"]
  by (auto simp: get_csv_def split: prod.splits if_splits)

named_theorems loaded \<open>a group of settings that loads without an error\<close>

lemma load_http_ok [loaded]: "load_http env = ([], h) \<Longrightarrow>
    0 < sint (hc_read_timeout h) \<and> 0 < sint (hc_write_timeout h) \<and> 0 < sint (hc_shutdown_timeout h) \<and> 0 < sint (hc_readiness_timeout h)"
  by (auto simp: load_http_def Let_def case_prod_beta)

lemma load_postgres_ok [loaded]: "load_postgres env = ([], p) \<Longrightarrow>
    pc_host p \<noteq> '''' \<and> \<not> has_userinfo (pc_host p) \<and> pc_name p \<noteq> '''' \<and> 0 < pc_max_conns p \<and> pc_max_conns p < 2 ^ 31 \<and>
    0 < sint (pc_ping_timeout p) \<and> 0 < sint (pc_lock_timeout p) \<and> 0 < sint (pc_statement_timeout p) \<and>
    pc_dsn p = ''postgres://'' @ pc_host p @ '':'' @ pc_port p @ ''/'' @ pc_name p @ ''?sslmode='' @ pc_sslmode p"
  by (auto simp: load_postgres_def Let_def case_prod_beta split: if_splits)

definition role_key_ok :: "string \<Rightarrow> string \<Rightarrow> bool" where
  "role_key_ok access secret \<longleftrightarrow> access \<noteq> '''' \<and> secret \<noteq> '''' \<and> access \<noteq> ''test'' \<and>
     \<not> (length access = 12 \<and> (\<forall>c \<in> set access. is_digit c))"

lemma require_role_credentials_ok: "require_role_credentials prefix a k = [] \<longleftrightarrow> role_key_ok a k"
  by (auto simp: require_role_credentials_def role_key_ok_def is_root_key_def list_all_iff split: if_splits)

definition consumer_config_ok :: "sqs_consumer_config \<Rightarrow> bool" where
  "consumer_config_ok c \<longleftrightarrow> 0 < sint (cc_poll_wait c) \<and> 0 < cc_concurrency c \<and> 0 < sint (cc_processing_timeout c) \<and>
     sint (cc_processing_timeout c) < sint (cc_visibility_timeout c) \<and> 0 < sint (cc_retry_base c) \<and>
     sint (cc_retry_base c) \<le> sint (cc_retry_max c) \<and> 0 < sint (cc_shutdown_timeout c) \<and>
     cc_provider_allowlist c \<noteq> [] \<and> distinct (cc_provider_allowlist c) \<and> '''' \<notin> set (cc_provider_allowlist c)"

lemma load_consumer_ok [loaded]:
  "load_consumer env = ([], c) \<Longrightarrow> consumer_config_ok c \<and> cc_poll_wait c + sqs_consumer_post_cancel_drain <s cc_shutdown_timeout c"
  by (auto simp: load_consumer_def consumer_config_ok_def Let_def case_prod_beta word_sless_alt word_sle_eq dest!: get_csv_ok)

lemma load_sqs_ok [loaded]: "load_sqs env = ([], q) \<Longrightarrow> qc_endpoint_url q \<noteq> '''' \<and>
    role_key_ok (qc_consumer_key q) (qc_consumer_secret q) \<and> role_key_ok (qc_publisher_key q) (qc_publisher_secret q) \<and>
    0 < sint (qc_startup_timeout q) \<and> consumer_config_ok (qc_consumer q) \<and>
    cc_poll_wait (qc_consumer q) + sqs_consumer_post_cancel_drain <s cc_shutdown_timeout (qc_consumer q)"
  using load_consumer_ok [of env "snd (load_consumer env)"]
  by (auto simp: load_sqs_def Let_def case_prod_beta require_role_credentials_ok prod_eq_iff)

lemma load_outbox_ok [loaded]: "load_outbox env = ([], b) \<Longrightarrow> 0 < sint (oc_poll_interval b) \<and> 0 < sint (oc_lease b) \<and>
    0 < oc_batch_size b \<and> 0 < sint (oc_retry_base b) \<and> sint (oc_retry_base b) \<le> sint (oc_retry_max b)"
  by (auto simp: load_outbox_def Let_def case_prod_beta word_sle_eq)

lemma load_reference_worker_ok [loaded]: "load_reference_worker env = ([], w) \<Longrightarrow> 0 < sint (wc_poll_interval w) \<and>
    0 < sint (wc_lease w) \<and> 0 < wc_batch_size w \<and> 0 < sint (wc_retry_base w) \<and> sint (wc_retry_base w) \<le> sint (wc_retry_max w) \<and>
    0 < wc_max_attempts w \<and> 0 < sint (wc_ttl w) \<and> 0 < sint (wc_shutdown_timeout w)"
  by (auto simp: load_reference_worker_def Let_def case_prod_beta word_sle_eq)

lemma load_auth_ok [loaded]: "load_auth env = ([], a) \<Longrightarrow> ac_issuer_url a \<noteq> '''' \<and> ac_discovery_url a \<noteq> '''' \<and>
    ac_audience a \<noteq> '''' \<and> 0 < sint (ac_clock_skew a) \<and> 0 < sint (ac_discovery_timeout a)"
  by (auto simp: load_auth_def Let_def case_prod_beta split: if_splits)

lemma load_log_ok [loaded]: "load_log env = ([], l) \<Longrightarrow> is_valid_log_level l"
  by (auto simp: load_log_def Let_def)

text \<open>
  What the rest of the service relies on, group by group: every check that \<open>Load\<close> makes of a value or between the
  values of a group. The consumer's shutdown leaves room for a whole poll and the drain after it, the sum of both taken
  in \<open>int64\<close> as the code does.
\<close>

definition http_config_ok :: "http_config \<Rightarrow> bool" where
  "http_config_ok h \<longleftrightarrow> 0 < sint (hc_read_timeout h) \<and> 0 < sint (hc_write_timeout h) \<and> 0 < sint (hc_shutdown_timeout h) \<and>
     0 < sint (hc_readiness_timeout h)"

definition postgres_config_ok :: "postgres_config \<Rightarrow> bool" where
  "postgres_config_ok p \<longleftrightarrow> pc_host p \<noteq> '''' \<and> \<not> has_userinfo (pc_host p) \<and> pc_name p \<noteq> '''' \<and>
     0 < pc_max_conns p \<and> pc_max_conns p < 2 ^ 31 \<and>
     0 < sint (pc_ping_timeout p) \<and> 0 < sint (pc_lock_timeout p) \<and> 0 < sint (pc_statement_timeout p) \<and>
     pc_dsn p = ''postgres://'' @ pc_host p @ '':'' @ pc_port p @ ''/'' @ pc_name p @ ''?sslmode='' @ pc_sslmode p"

definition sqs_config_ok :: "sqs_config \<Rightarrow> bool" where
  "sqs_config_ok q \<longleftrightarrow> qc_endpoint_url q \<noteq> '''' \<and> 0 < sint (qc_startup_timeout q) \<and>
     role_key_ok (qc_consumer_key q) (qc_consumer_secret q) \<and> role_key_ok (qc_publisher_key q) (qc_publisher_secret q) \<and>
     consumer_config_ok (qc_consumer q) \<and>
     cc_poll_wait (qc_consumer q) + sqs_consumer_post_cancel_drain <s cc_shutdown_timeout (qc_consumer q)"

definition outbox_config_ok :: "outbox_config \<Rightarrow> bool" where
  "outbox_config_ok b \<longleftrightarrow> 0 < sint (oc_poll_interval b) \<and> 0 < sint (oc_lease b) \<and> 0 < oc_batch_size b \<and>
     0 < sint (oc_retry_base b) \<and> sint (oc_retry_base b) \<le> sint (oc_retry_max b)"

definition worker_config_ok :: "reference_worker_config \<Rightarrow> bool" where
  "worker_config_ok w \<longleftrightarrow> 0 < sint (wc_poll_interval w) \<and> 0 < sint (wc_lease w) \<and> 0 < wc_batch_size w \<and>
     0 < sint (wc_retry_base w) \<and> sint (wc_retry_base w) \<le> sint (wc_retry_max w) \<and> 0 < wc_max_attempts w \<and>
     0 < sint (wc_ttl w) \<and> 0 < sint (wc_shutdown_timeout w)"

definition auth_config_ok :: "auth_config \<Rightarrow> bool" where
  "auth_config_ok a \<longleftrightarrow> ac_issuer_url a \<noteq> '''' \<and> ac_discovery_url a \<noteq> '''' \<and> ac_audience a \<noteq> '''' \<and>
     0 < sint (ac_clock_skew a) \<and> 0 < sint (ac_discovery_timeout a)"

definition config_ok :: "config \<Rightarrow> bool" where
  "config_ok c \<longleftrightarrow> http_config_ok (cf_http c) \<and> is_valid_log_level (cf_log_level c) \<and> postgres_config_ok (cf_postgres c) \<and>
     sqs_config_ok (cf_sqs c) \<and> outbox_config_ok (cf_outbox c) \<and> worker_config_ok (cf_reference_worker c) \<and>
     auth_config_ok (cf_auth c) \<and> 0 < sint (cf_stop_timeout c)"

lemmas config_parts_ok = http_config_ok_def postgres_config_ok_def sqs_config_ok_def outbox_config_ok_def worker_config_ok_def
  auth_config_ok_def

text \<open>The settings that are read from text, each with its variable, its fallback and its value.\<close>

definition http_durations :: "http_config \<Rightarrow> (string \<times> int64 \<times> int64) list" where
  "http_durations h =
    [(''HTTP_READ_TIMEOUT'', 5 * second, hc_read_timeout h),
     (''HTTP_WRITE_TIMEOUT'', 10 * second, hc_write_timeout h),
     (''HTTP_SHUTDOWN_TIMEOUT'', 15 * second, hc_shutdown_timeout h),
     (''HTTP_READINESS_TIMEOUT'', 3 * second, hc_readiness_timeout h)]"

definition postgres_durations :: "postgres_config \<Rightarrow> (string \<times> int64 \<times> int64) list" where
  "postgres_durations p =
    [(''DATABASE_PING_TIMEOUT'', 5 * second, pc_ping_timeout p),
     (''DATABASE_LOCK_TIMEOUT'', 3 * second, pc_lock_timeout p),
     (''DATABASE_STATEMENT_TIMEOUT'', 5 * second, pc_statement_timeout p)]"

definition consumer_durations :: "sqs_consumer_config \<Rightarrow> (string \<times> int64 \<times> int64) list" where
  "consumer_durations k =
    [(''SQS_CONSUMER_POLL_WAIT'', 20 * second, cc_poll_wait k),
     (''SQS_CONSUMER_VISIBILITY_TIMEOUT'', 30 * second, cc_visibility_timeout k),
     (''SQS_CONSUMER_PROCESSING_TIMEOUT'', 20 * second, cc_processing_timeout k),
     (''SQS_CONSUMER_RETRY_BASE'', second, cc_retry_base k),
     (''SQS_CONSUMER_RETRY_MAX'', 60 * second, cc_retry_max k),
     (''SQS_CONSUMER_SHUTDOWN_TIMEOUT'', 30 * second, cc_shutdown_timeout k)]"

definition outbox_durations :: "outbox_config \<Rightarrow> (string \<times> int64 \<times> int64) list" where
  "outbox_durations b =
    [(''OUTBOX_POLL_INTERVAL'', 250 * millisecond, oc_poll_interval b),
     (''OUTBOX_LEASE'', 30 * second, oc_lease b),
     (''OUTBOX_RETRY_BASE'', second, oc_retry_base b),
     (''OUTBOX_RETRY_MAX'', 60 * second, oc_retry_max b)]"

definition worker_durations :: "reference_worker_config \<Rightarrow> (string \<times> int64 \<times> int64) list" where
  "worker_durations w =
    [(''REFERENCE_WORKER_POLL_INTERVAL'', 250 * millisecond, wc_poll_interval w),
     (''REFERENCE_WORKER_LEASE'', 30 * second, wc_lease w),
     (''REFERENCE_WORKER_RETRY_BASE'', second, wc_retry_base w),
     (''REFERENCE_WORKER_RETRY_MAX'', 60 * second, wc_retry_max w),
     (''REFERENCE_WORKER_TTL'', 86400 * second, wc_ttl w),
     (''REFERENCE_WORKER_SHUTDOWN_TIMEOUT'', 5 * second, wc_shutdown_timeout w)]"

definition auth_durations :: "auth_config \<Rightarrow> (string \<times> int64 \<times> int64) list" where
  "auth_durations a =
    [(''AUTH_CLOCK_SKEW'', 5 * second, ac_clock_skew a),
     (''AUTH_DISCOVERY_TIMEOUT'', 45 * second, ac_discovery_timeout a)]"

definition worker_ints :: "reference_worker_config \<Rightarrow> (string \<times> int \<times> int) list" where
  "worker_ints w =
    [(''REFERENCE_WORKER_BATCH_SIZE'', 10, wc_batch_size w),
     (''REFERENCE_WORKER_MAX_ATTEMPTS'', 10, wc_max_attempts w)]"

definition duration_settings :: "config \<Rightarrow> (string \<times> int64 \<times> int64) list" where
  "duration_settings c =
    http_durations (cf_http c) @ postgres_durations (cf_postgres c) @ consumer_durations (qc_consumer (cf_sqs c)) @
    outbox_durations (cf_outbox c) @ worker_durations (cf_reference_worker c) @ auth_durations (cf_auth c) @
    [(''SQS_STARTUP_TIMEOUT'', 10 * second, qc_startup_timeout (cf_sqs c)),
     (''FX_STOP_TIMEOUT'', default_fx_stop_timeout, cf_stop_timeout c)]"

definition int_settings :: "config \<Rightarrow> (string \<times> int \<times> int) list" where
  "int_settings c = worker_ints (cf_reference_worker c) @
    [(''DATABASE_MAX_CONNS'', 10, pc_max_conns (cf_postgres c)),
     (''SQS_CONSUMER_CONCURRENCY'', 10, cc_concurrency (qc_consumer (cf_sqs c))),
     (''OUTBOX_BATCH_SIZE'', 10, oc_batch_size (cf_outbox c))]"

definition bool_settings :: "config \<Rightarrow> (string \<times> bool \<times> bool) list" where
  "bool_settings c =
    [(''SQS_CONSUMER_ENABLED'', True, cc_enabled (qc_consumer (cf_sqs c))),
     (''REFERENCE_WORKER_ENABLED'', True, wc_enabled (cf_reference_worker c))]"

text \<open>A setting is its fallback when its variable is unset or empty, and else what its text reads as.\<close>

definition set_from :: "(string \<Rightarrow> 'a option) \<Rightarrow> environment \<Rightarrow> string \<times> 'a \<times> 'a \<Rightarrow> bool" where
  "set_from read env = (\<lambda>(key, fallback, x). case env key of
     None \<Rightarrow> x = fallback | Some v \<Rightarrow> if v = '''' then x = fallback else read v = Some x)"

definition read_bool :: "string \<Rightarrow> bool option" where
  "read_bool v = (case parse_bool v of Inr b \<Rightarrow> Some b | Inl _ \<Rightarrow> None)"

definition reads_environment :: "environment \<Rightarrow> config \<Rightarrow> bool" where
  "reads_environment env c \<longleftrightarrow> list_all (set_from parse_duration env) (duration_settings c) \<and>
     list_all (set_from parse_int64 env) (int_settings c) \<and> list_all (set_from read_bool env) (bool_settings c)"

lemma checked_set_from:
  "fst (get_duration env key fallback) = [] \<Longrightarrow> set_from parse_duration env (key, fallback, snd (get_duration env key fallback))"
  "fst (get_int env key n) = [] \<Longrightarrow> set_from parse_int64 env (key, n, snd (get_int env key n))"
  "fst (get_int32 env key n) = [] \<Longrightarrow> set_from parse_int64 env (key, n, snd (get_int32 env key n))"
  "fst (get_bool env key b) = [] \<Longrightarrow> set_from read_bool env (key, b, snd (get_bool env key b))"
  by (auto simp: set_from_def get_duration_def get_int_def get_int32_def get_bool_def get_parsed_def positive_duration_def
      positive_int_def read_bool_def split: option.splits if_splits sum.splits)

text \<open>The deadlines of the components as a sum of integers.\<close>

definition stop_deadline_sum :: "config \<Rightarrow> int" where
  "stop_deadline_sum c = sint (hc_shutdown_timeout (cf_http c)) + sint (cc_shutdown_timeout (qc_consumer (cf_sqs c))) +
     5000000000 + sint (wc_shutdown_timeout (cf_reference_worker c))"

lemma load_parts:
  assumes "load env = Inr c"
  shows "load_http env = ([], cf_http c)" "load_postgres env = ([], cf_postgres c)" "load_sqs env = ([], cf_sqs c)"
    "load_outbox env = ([], cf_outbox c)" "load_reference_worker env = ([], cf_reference_worker c)" "load_auth env = ([], cf_auth c)"
    "internal_stop_deadline (cf_http c) (cf_sqs c) (cf_reference_worker c) <s cf_stop_timeout c"
    "load_log env = ([], cf_log_level c)" "cf_stop_timeout c = snd (get_duration env ''FX_STOP_TIMEOUT'' default_fx_stop_timeout)"
  using assms by (auto simp: load_def Let_def case_prod_beta prod_eq_iff split: if_splits)

lemma internal_stop_deadline_sum:
  assumes "stop_deadline_sum c < 2 ^ 63" "0 < sint (hc_shutdown_timeout (cf_http c))"
    "0 < sint (cc_shutdown_timeout (qc_consumer (cf_sqs c)))" "0 < sint (wc_shutdown_timeout (cf_reference_worker c))"
  shows "sint (internal_stop_deadline (cf_http c) (cf_sqs c) (cf_reference_worker c)) = stop_deadline_sum c"
proof -
  let ?h = "hc_shutdown_timeout (cf_http c)" and ?q = "cc_shutdown_timeout (qc_consumer (cf_sqs c))"
    and ?w = "wc_shutdown_timeout (cf_reference_worker c)"
  have d: "sint sqs_consumer_post_cancel_drain = 5000000000" by (simp add: sqs_consumer_post_cancel_drain_def)
  have "sint (?h + ?q) = sint ?h + sint ?q" by (rule sint64_add) (use assms in \<open>simp_all add: stop_deadline_sum_def\<close>)
  moreover from this have "sint (?h + ?q + sqs_consumer_post_cancel_drain) = sint ?h + sint ?q + 5000000000"
    using sint64_add [of "?h + ?q" sqs_consumer_post_cancel_drain] assms d by (simp add: stop_deadline_sum_def)
  ultimately show ?thesis
    using sint64_add [of "?h + ?q + sqs_consumer_post_cancel_drain" ?w] assms by (simp add: internal_stop_deadline_def stop_deadline_sum_def)
qed

lemma http_reads: "load_http env = ([], h) \<Longrightarrow> list_all (set_from parse_duration env) (http_durations h)"
  by (auto simp: load_http_def Let_def case_prod_beta http_durations_def checked_set_from)

lemma postgres_reads: "load_postgres env = ([], p) \<Longrightarrow> list_all (set_from parse_duration env) (postgres_durations p) \<and>
    set_from parse_int64 env (''DATABASE_MAX_CONNS'', 10, pc_max_conns p)"
  by (auto simp: load_postgres_def Let_def case_prod_beta postgres_durations_def checked_set_from)

lemma consumer_reads: "load_consumer env = ([], k) \<Longrightarrow> list_all (set_from parse_duration env) (consumer_durations k) \<and>
    set_from parse_int64 env (''SQS_CONSUMER_CONCURRENCY'', 10, cc_concurrency k) \<and>
    set_from read_bool env (''SQS_CONSUMER_ENABLED'', True, cc_enabled k)"
  by (auto simp: load_consumer_def Let_def case_prod_beta consumer_durations_def checked_set_from)

lemma sqs_reads: "load_sqs env = ([], q) \<Longrightarrow> load_consumer env = ([], qc_consumer q) \<and>
    set_from parse_duration env (''SQS_STARTUP_TIMEOUT'', 10 * second, qc_startup_timeout q)"
  by (auto simp: load_sqs_def Let_def case_prod_beta prod_eq_iff checked_set_from)

lemma outbox_reads: "load_outbox env = ([], b) \<Longrightarrow> list_all (set_from parse_duration env) (outbox_durations b) \<and>
    set_from parse_int64 env (''OUTBOX_BATCH_SIZE'', 10, oc_batch_size b)"
  by (auto simp: load_outbox_def Let_def case_prod_beta outbox_durations_def checked_set_from)

lemma worker_reads: "load_reference_worker env = ([], w) \<Longrightarrow> list_all (set_from parse_duration env) (worker_durations w) \<and>
    list_all (set_from parse_int64 env) (worker_ints w) \<and>
    set_from read_bool env (''REFERENCE_WORKER_ENABLED'', True, wc_enabled w)"
  by (auto simp: load_reference_worker_def Let_def case_prod_beta worker_durations_def worker_ints_def checked_set_from)

lemma auth_reads: "load_auth env = ([], a) \<Longrightarrow> list_all (set_from parse_duration env) (auth_durations a)"
  by (auto simp: load_auth_def Let_def case_prod_beta auth_durations_def checked_set_from)

lemma load_reads:
  assumes "load env = Inr c"
  shows "reads_environment env c"
proof -
  note parts = load_parts [OF assms]
  have "fst (get_duration env ''FX_STOP_TIMEOUT'' default_fx_stop_timeout) = []"
    using assms by (auto simp: load_def Let_def case_prod_beta split: if_splits)
  then have "set_from parse_duration env (''FX_STOP_TIMEOUT'', default_fx_stop_timeout, cf_stop_timeout c)"
    by (simp add: parts(9) checked_set_from)
  then show ?thesis
    using http_reads [OF parts(1)] postgres_reads [OF parts(2)] sqs_reads [OF parts(3)] outbox_reads [OF parts(4)]
      worker_reads [OF parts(5)] auth_reads [OF parts(6)] consumer_reads [of env "qc_consumer (cf_sqs c)"]
    by (simp add: reads_environment_def duration_settings_def int_settings_def bool_settings_def worker_ints_def)
qed

section \<open>Properties\<close>

text \<open>
  C27: a configuration that loads passes every check \<open>Load\<close> makes: timeouts, batches, attempts and pool sizes are
  positive, retry bounds in order, the log level is a known one, a database without credentials in its host, the queue
  and the issuer are named, there are no root or missing queue credentials, the providers are distinct, the visibility is
  longer than the processing it covers, the consumer's shutdown exceeds its poll and the drain, the stop timeout exceeds
  the sum of the components' deadlines as the code adds it, and, unless that sum leaves 64 bits, the sum itself. Every
  duration, number and switch is its fallback when its variable is unset or empty, and else what its text reads as.
\<close>
theorem load_validates:
  assumes "load env = Inr c"
  shows "config_ok c \<and> reads_environment env c \<and>
    internal_stop_deadline (cf_http c) (cf_sqs c) (cf_reference_worker c) <s cf_stop_timeout c \<and>
    (stop_deadline_sum c < 2 ^ 63 \<longrightarrow> stop_deadline_sum c < sint (cf_stop_timeout c))"
proof (intro conjI)
  note parts = load_parts [OF assms]
  have "0 < sint (cf_stop_timeout c)" by (simp add: parts(9) default_fx_stop_timeout_def)
  then show "config_ok c"
    using load_http_ok [OF parts(1)] load_postgres_ok [OF parts(2)] load_sqs_ok [OF parts(3)] load_outbox_ok [OF parts(4)]
      load_reference_worker_ok [OF parts(5)] load_auth_ok [OF parts(6)] load_log_ok [OF parts(8)]
    by (simp add: config_ok_def config_parts_ok)
  show "reads_environment env c" using assms by (rule load_reads)
  show "internal_stop_deadline (cf_http c) (cf_sqs c) (cf_reference_worker c) <s cf_stop_timeout c" by (rule parts(7))
  have "0 < sint (cc_shutdown_timeout (qc_consumer (cf_sqs c)))"
    using load_sqs_ok [OF parts(3)] by (simp add: consumer_config_ok_def)
  then show "stop_deadline_sum c < 2 ^ 63 \<longrightarrow> stop_deadline_sum c < sint (cf_stop_timeout c)"
    using internal_stop_deadline_sum [of c] load_http_ok [OF parts(1)] load_reference_worker_ok [OF parts(5)] parts(7)
    by (auto simp: word_sless_alt)
qed

text \<open>The variables without a fallback.\<close>

definition sample_environment :: environment where
  "sample_environment = map_of [(''DATABASE_HOST'', ''db''), (''DATABASE_NAME'', ''wallet''), (''SQS_ENDPOINT_URL'', ''http://sqs''),
     (''SQS_CONSUMER_ACCESS_KEY_ID'', ''c''), (''SQS_CONSUMER_SECRET_ACCESS_KEY'', ''cs''), (''SQS_PUBLISHER_ACCESS_KEY_ID'', ''p''),
     (''SQS_PUBLISHER_SECRET_ACCESS_KEY'', ''ps''), (''AUTH_ISSUER_URL'', ''http://idp''), (''FX_STOP_TIMEOUT'', ''1m30s'')]"

theorem load_validates_witness:
  "\<exists>c. load sample_environment = Inr c \<and> config_ok c \<and> stop_deadline_sum c < sint (cf_stop_timeout c)"
proof -
  have "map_sum length (\<lambda>c. (stop_deadline_sum c, sint (cf_stop_timeout c))) (load sample_environment) = Inr (55000000000, 90000000000)"
    by code_simp
  then obtain c where "load sample_environment = Inr c" "stop_deadline_sum c = 55000000000"
    by (cases "load sample_environment") auto
  then show ?thesis using load_validates [of sample_environment c] by auto
qed

text \<open>A shutdown of 292 years passes with the default stop timeout of a minute: the sum wraps.\<close>

definition long_shutdown :: environment where
  "long_shutdown = sample_environment(''SQS_CONSUMER_SHUTDOWN_TIMEOUT'' \<mapsto> ''2562047h47m'', ''FX_STOP_TIMEOUT'' \<mapsto> ''60s'')"

lemma long_shutdown_accepted:
  "map_sum length (\<lambda>c. (stop_deadline_sum c, sint (cf_stop_timeout c))) (load long_shutdown) = Inr (9223372045000000000, 60000000000)"
  by code_simp

section \<open>Credential files\<close>

text \<open>
  \<open>bufio.Scanner\<close> with \<open>ScanLines\<close>: the lines without their line feed and a carriage return before it, the last one
  only if it is not empty; a line of 64 KiB or more before its line feed ends the scan with an error.
\<close>

definition scan_lines :: "string \<Rightarrow> string list" where
  "scan_lines text = (let ls = split_on (CHR 0x0A) text in if last ls = [] then butlast ls else ls)"

definition drop_cr :: "string \<Rightarrow> string" where
  "drop_cr l = (if l \<noteq> [] \<and> last l = CHR 0x0D then butlast l else l)"

definition max_scan_token :: nat where
  "max_scan_token = 65536"

datatype env_file_error = NoEquals nat | InvalidKey nat | LineTooLong

definition key_start :: "char \<Rightarrow> bool" where
  "key_start c \<longleftrightarrow> (65 \<le> byte_of c \<and> byte_of c \<le> 90) \<or> c = CHR ''_''"

definition key_pattern :: "string \<Rightarrow> bool" where
  "key_pattern k \<longleftrightarrow> k \<noteq> [] \<and> key_start (hd k) \<and> list_all (\<lambda>c. key_start c \<or> is_digit c) (tl k)"

fun read_lines :: "nat \<Rightarrow> string list \<Rightarrow> (string \<Rightarrow> string option) \<Rightarrow> env_file_error + (string \<Rightarrow> string option)" where
  "read_lines n [] values = Inr values"
| "read_lines n (raw # rest) values =
     (if max_scan_token \<le> length raw then Inl LineTooLong
      else let line = drop_cr raw; trimmed = trim_space line in
        if trimmed = '''' \<or> hd trimmed = CHR ''#'' then read_lines (n + 1) rest values
        else if \<not> List.member line (CHR ''='') then Inl (NoEquals n)
        else let key = takeWhile (\<lambda>c. c \<noteq> CHR ''='') line; value = tl (dropWhile (\<lambda>c. c \<noteq> CHR ''='') line) in
          if \<not> key_pattern key then Inl (InvalidKey n) else read_lines (n + 1) rest (values(key \<mapsto> value)))"

definition env_file_read :: "string \<Rightarrow> env_file_error + (string \<Rightarrow> string option)" where
  "env_file_read text = read_lines 1 (scan_lines text) Map.empty"

text \<open>The password \<open>AppDSN\<close> puts into the connection string; \<open>None\<close> is its error.\<close>

definition app_password :: "string \<Rightarrow> string option" where
  "app_password text = (case env_file_read text of
     Inl _ \<Rightarrow> None
   | Inr values \<Rightarrow> (case values ''WALLET_APP_PASSWORD'' of None \<Rightarrow> None | Some p \<Rightarrow> if p = '''' then None else Some p))"
end
