(* ===== verification/Startup.thy ===== *)
theory Startup
  imports HttpRuns Config
begin

text \<open>
  How the process starts and stops: the commands of \<open>cmd/wallet-service/main.go\<close>, the migrations' entry points, the
  session parameters of the pool, the queue names that \<open>queue/queue.go\<close> resolves, the discovery of the identity
  provider by \<open>auth/verifier.go\<close>, and the hooks of the HTTP server. What Fx, the drivers, the AWS client, go-oidc and
  golang-migrate answer are arguments.
\<close>

section \<open>Commands\<close>

datatype main_error =
    UnknownCommand
  | StartFailed
  | StopFailed
  | MigrateArguments
  | DatabaseUrlRequired
  | UnknownSubcommand string
  | MigrationFailed "migration_error list"
and migration_error = BuildMigrator | MigrateUp | MigrateDown | CloseSource | CloseDatabase

text \<open>
  golang-migrate as the program sees it: whether a migrator can be built, what \<open>Up\<close> or \<open>Down\<close> answers, and what closing it
  does. \<open>None\<close> is success.
\<close>

datatype migrate_answer = Changed | NoChange | MigrateFails

record migrator =
  mg_builds :: bool
  mg_up :: migrate_answer
  mg_down :: migrate_answer
  mg_close_source :: bool
  mg_close_database :: bool

text \<open>The errors of closing join the one of the migration; nothing to change is no error.\<close>

definition close_migrator :: "migrator \<Rightarrow> migration_error list" where
  "close_migrator g = (if mg_close_source g then [] else [CloseSource]) @ (if mg_close_database g then [] else [CloseDatabase])"

definition migrate_up :: "migrator \<Rightarrow> migration_error list" where
  "migrate_up g =
     (if \<not> mg_builds g then [BuildMigrator]
      else (if mg_up g = MigrateFails then [MigrateUp] else []) @ close_migrator g)"

definition migrate_down :: "migrator \<Rightarrow> migration_error list" where
  "migrate_down g =
     (if \<not> mg_builds g then [BuildMigrator]
      else (if mg_down g = MigrateFails then [MigrateDown] else []) @ close_migrator g)"

definition run_migrate :: "(string \<Rightarrow> migrator) \<Rightarrow> environment \<Rightarrow> string list \<Rightarrow> main_error + unit" where
  "run_migrate connect env args =
     (let report = (\<lambda>errs. if errs = [] then Inr () else Inl (MigrationFailed errs)) in
      if length args \<noteq> 1 then Inl MigrateArguments
      else let dsn = (case env ''DATABASE_URL'' of None \<Rightarrow> '''' | Some v \<Rightarrow> v) in
        if dsn = '''' then Inl DatabaseUrlRequired
        else if hd args = ''up'' then report (migrate_up (connect dsn))
        else if hd args = ''down'' then report (migrate_down (connect dsn))
        else Inl (UnknownSubcommand (hd args)))"

text \<open>\<open>serve\<close>: the application starts, waits for a signal, and stops; a failed start ends it at once.\<close>

definition run_serve :: "bool \<Rightarrow> bool \<Rightarrow> main_error + unit" where
  "run_serve starts stops = (if \<not> starts then Inl StartFailed else if \<not> stops then Inl StopFailed else Inr ())"

definition run_main ::
    "bool \<Rightarrow> bool \<Rightarrow> (string \<Rightarrow> migrator) \<Rightarrow> environment \<Rightarrow> string list \<Rightarrow> main_error + unit" where
  "run_main starts stops connect env args =
     (case args of
        [] \<Rightarrow> Inl UnknownCommand
      | a # rest \<Rightarrow>
          if a = ''serve'' then run_serve starts stops
          else if a = ''migrate'' then run_migrate connect env rest
          else if a \<in> {''-h'', ''--help'', ''help''} then Inr ()
          else Inl UnknownCommand)"

lemma migrate_up_ok: "migrate_up g = [] \<longleftrightarrow> mg_builds g \<and> mg_up g \<noteq> MigrateFails \<and> mg_close_source g \<and> mg_close_database g"
  by (auto simp: migrate_up_def close_migrator_def split: if_splits)

lemma migrate_down_ok:
  "migrate_down g = [] \<longleftrightarrow> mg_builds g \<and> mg_down g \<noteq> MigrateFails \<and> mg_close_source g \<and> mg_close_database g"
  by (auto simp: migrate_down_def close_migrator_def split: if_splits)

section \<open>Session parameters of the pool\<close>

text \<open>\<open>Duration.Milliseconds\<close> and \<open>strconv.FormatInt\<close>.\<close>

definition milliseconds :: "int64 \<Rightarrow> int" where
  "milliseconds d = go_quot (sint d) 1000000"

definition runtime_params :: "postgres_config \<Rightarrow> (string \<times> string) list" where
  "runtime_params c = [(''lock_timeout'', json_int (milliseconds (pc_lock_timeout c))),
     (''statement_timeout'', json_int (milliseconds (pc_statement_timeout c)))]"

lemma milliseconds_div: "0 \<le> sint d \<Longrightarrow> milliseconds d = sint d div 1000000"
  by (cases "sint d = 0") (simp_all add: milliseconds_def go_quot_def)

text \<open>
  A timeout below a millisecond passes the configuration and is sent as 0, which Postgres reads as no timeout at all.
\<close>

definition short_lock_timeout :: environment where
  "short_lock_timeout = sample_environment(''DATABASE_LOCK_TIMEOUT'' \<mapsto> ''500us'')"

section \<open>Queues\<close>

datatype role = ConsumerRole | PublisherRole

datatype queue_error = BuildConsumerClient | BuildPublisherClient | ResolveInput | ResolveOutput | ResolveDLQ

record queues =
  qu_input_name :: string
  qu_output_name :: string
  qu_dlq_name :: string
  qu_input_url :: string
  qu_output_url :: string
  qu_dlq_url :: string

text \<open>\<open>builds\<close> is whether the AWS client of a role can be built from its key and secret.\<close>

definition queues_new :: "(role \<Rightarrow> string \<Rightarrow> string \<Rightarrow> bool) \<Rightarrow> sqs_config \<Rightarrow> queue_error + queues" where
  "queues_new builds c =
     (if \<not> builds ConsumerRole (qc_consumer_key c) (qc_consumer_secret c) then Inl BuildConsumerClient
      else if \<not> builds PublisherRole (qc_publisher_key c) (qc_publisher_secret c) then Inl BuildPublisherClient
      else Inr \<lparr>qu_input_name = qc_input_queue c, qu_output_name = qc_output_queue c, qu_dlq_name = qc_dlq_queue c,
             qu_input_url = '''', qu_output_url = '''', qu_dlq_url = ''''\<rparr>)"

text \<open>
  The \<open>OnStart\<close> hook; \<open>get_url\<close> is \<open>GetQueueUrl\<close> with the client of a role, an error or a pointer. The queues keep what
  was resolved before an error. The consumer's client resolves the dead-letter queue as well.
\<close>

definition resolve_queues :: "(role \<Rightarrow> string \<Rightarrow> unit + string ptr) \<Rightarrow> queues \<Rightarrow> queue_error option \<times> queues" where
  "resolve_queues get_url q =
     (case get_url ConsumerRole (qu_input_name q) of Inl _ \<Rightarrow> (Some ResolveInput, q) | Inr u \<Rightarrow>
      let q1 = q\<lparr>qu_input_url := (case u of None \<Rightarrow> '''' | Some t \<Rightarrow> t)\<rparr> in
      case get_url PublisherRole (qu_output_name q) of Inl _ \<Rightarrow> (Some ResolveOutput, q1) | Inr u \<Rightarrow>
      let q2 = q1\<lparr>qu_output_url := (case u of None \<Rightarrow> '''' | Some t \<Rightarrow> t)\<rparr> in
      case get_url ConsumerRole (qu_dlq_name q) of Inl _ \<Rightarrow> (Some ResolveDLQ, q2) | Inr u \<Rightarrow>
      (None, q2\<lparr>qu_dlq_url := (case u of None \<Rightarrow> '''' | Some t \<Rightarrow> t)\<rparr>))"

text \<open>The check of readiness; \<open>attributes\<close> is what \<open>GetQueueAttributes\<close> fails with for a URL.\<close>

definition sqs_ready :: "(string \<Rightarrow> string option) \<Rightarrow> queues \<Rightarrow> string option" where
  "sqs_ready attributes q =
     (if qu_input_url q = '''' then Some ''sqs: input queue url not resolved yet'' else attributes (qu_input_url q))"

lemma resolve_queues_ok:
  "fst (resolve_queues get_url q) = None \<longleftrightarrow>
     (\<exists>i. get_url ConsumerRole (qu_input_name q) = Inr i) \<and> (\<exists>o'. get_url PublisherRole (qu_output_name q) = Inr o') \<and>
     (\<exists>d. get_url ConsumerRole (qu_dlq_name q) = Inr d)"
  by (auto simp: resolve_queues_def Let_def split: sum.splits)

lemma resolve_queues_names:
  "resolve_queues get_url q = (e, q') \<Longrightarrow> qu_input_name q' = qu_input_name q \<and> qu_output_name q' = qu_output_name q \<and>
     qu_dlq_name q' = qu_dlq_name q"
  by (auto simp: resolve_queues_def Let_def split: sum.splits)

text \<open>New queues are not ready before they are resolved.\<close>

lemma new_queues_not_ready: "queues_new builds c = Inr q \<Longrightarrow> sqs_ready attributes q \<noteq> None"
  by (auto simp: queues_new_def sqs_ready_def split: if_splits)

section \<open>Discovery of the identity provider\<close>

text \<open>
  An attempt takes a time and finds a provider or not; the last component is which case of the select is taken when the
  deadline and the timer are ready at the same instant. Times are nanoseconds. \<open>None\<close>: the attempts given are over
  and it still tries; \<open>Some None\<close>: the deadline passed.
\<close>

definition discovery_backoff :: int where
  "discovery_backoff = 250000000"

fun discover_with_retry :: "int \<Rightarrow> int \<Rightarrow> (nat \<times> 'p option \<times> bool) list \<Rightarrow> 'p option option" where
  "discover_with_retry deadline t [] = None"
| "discover_with_retry deadline t ((d, Some p, b) # as) = Some (Some p)"
| "discover_with_retry deadline t ((d, None, b) # as) =
     (let again = t + int d + discovery_backoff in
      if deadline < again \<or> (deadline = again \<and> b) then Some None else discover_with_retry deadline again as)"

text \<open>The number of attempts is bounded by the time there is, so the start ends.\<close>

lemma discovery_attempts_bound:
  "discover_with_retry deadline t as = None \<Longrightarrow> as \<noteq> [] \<Longrightarrow> t + int (length as) * discovery_backoff \<le> deadline"
proof (induction deadline t as rule: discover_with_retry.induct)
  case (3 deadline t d b as)
  define again where "again = t + int d + discovery_backoff"
  then have n: "again \<le> deadline" "discover_with_retry deadline again as = None"
    using 3(2) by (auto simp: Let_def split: if_splits)
  have "again + int (length as) * discovery_backoff \<le> deadline"
  proof (cases "as = []")
    case False
    then show ?thesis using 3(1) [OF refl] 3(2) n again_def by (auto simp: Let_def split: if_splits)
  qed (use n in simp)
  then show ?case using again_def by (simp add: algebra_simps)
qed simp_all

lemma discovery_ends:
  assumes "deadline < int (length as) * discovery_backoff"
  shows "discover_with_retry deadline 0 as \<noteq> None \<or> as = []"
  using discovery_attempts_bound [of deadline 0 as] assms by auto

text \<open>
  The hook: \<open>verifier_of\<close> is what go-oidc makes of a provider and the audience. A verifier that was not discovered
  refuses every token.
\<close>

definition start_verifier ::
    "('p \<Rightarrow> string \<Rightarrow> string \<Rightarrow> (string \<times> string) option) \<Rightarrow> auth_config \<Rightarrow> 'p option \<Rightarrow> oidc_verifier \<Rightarrow> bool \<times> oidc_verifier" where
  "start_verifier verifier_of c answer v =
     (case answer of None \<Rightarrow> (False, v)
      | Some p \<Rightarrow> (True, set_verifier (verifier_of p (ac_audience c)) (ac_clock_skew c) v))"

lemma undiscovered_refuses: "fst (verify new_oidc_verifier token s) = Inl VerifierNotReady"
  by (simp add: verify_def new_oidc_verifier_def failT_def)

lemma failed_start_refuses:
  "start_verifier vo c None new_oidc_verifier = (ok, v) \<Longrightarrow> \<not> ok \<and> fst (verify v token s) = Inl VerifierNotReady"
  by (simp add: start_verifier_def undiscovered_refuses)

section \<open>The HTTP server\<close>

text \<open>
  \<open>OnStop\<close> fails readiness first and then waits for the requests in flight; \<open>shutdown\<close> is whether \<open>Server.Shutdown\<close>
  ends in time.
\<close>

definition stop_server :: "bool \<Rightarrow> http_server \<Rightarrow> bool \<times> http_server" where
  "stop_server shutdown sv = (shutdown, sv\<lparr>sv_readiness := mark_not_ready (sv_readiness sv)\<rparr>)"

lemma stopped_not_ready:
  "stop_server shutdown sv = (ok, sv') \<Longrightarrow>
     ready_handler (sv_readiness sv') s = (Inr (json_response 503 (Some (status_reply ''shutting-down''))), s)"
  by (auto simp: stop_server_def mark_not_ready_def ready_handler_def returnT_def)

section \<open>A timeout that is none\<close>

lemma short_lock_timeout_is_none:
  "\<exists>c. load short_lock_timeout = Inr c \<and> 0 < sint (pc_lock_timeout (cf_postgres c)) \<and>
     (''lock_timeout'', ''0'') \<in> set (runtime_params (cf_postgres c))"
proof -
  have "map_sum length (\<lambda>c. (sint (pc_lock_timeout (cf_postgres c)), milliseconds (pc_lock_timeout (cf_postgres c))))
      (load short_lock_timeout) = Inr (500000, 0)"
    by code_simp
  then show ?thesis by (cases "load short_lock_timeout") (auto simp: runtime_params_def json_int_def dec.simps)
qed
end
