(* ===== verification/ConsumerLoop.thy ===== *)
theory ConsumerLoop
  imports Service Config "HOL-Library.AList"
begin

text \<open>
  The goroutines of the queue consumer (\<open>internal/consumer/consumer.go\<close>) as steps that interleave freely: the
  receive loop \<open>run\<close>, the workers it starts, and \<open>stop\<close>. A step is a channel operation, a select, a critical
  section of the mutex or one call of the queue; the handling of a message is one step, as its transaction is. Time is
  not modelled: a deadline may pass, and a receive may return, at any moment.
\<close>

section \<open>Configuration of the loop\<close>

definition consumer_of :: "sqs_consumer_config \<Rightarrow> consumer" where
  "consumer_of c = \<lparr>cs_retry_base = cc_retry_base c, cs_retry_max = cc_retry_max c, cs_allowlist = cc_provider_allowlist c\<rparr>"

text \<open>The long poll is cut to what a stop leaves after the window for handing messages back.\<close>

definition poll_wait :: "sqs_consumer_config \<Rightarrow> int64" where
  "poll_wait c =
     (let budget = cc_shutdown_timeout c - sqs_consumer_post_cancel_drain
      in if 0 <s budget \<and> budget <s cc_poll_wait c then budget else cc_poll_wait c)"

definition poll_timeout :: "sqs_consumer_config \<Rightarrow> int64" where
  "poll_timeout c = poll_wait c + second"

record receive_request =
  rc_max_messages :: int
  rc_wait_seconds :: int
  rc_visibility :: int

definition receive_input :: "sqs_consumer_config \<Rightarrow> receive_request" where
  "receive_input c = \<lparr>rc_max_messages = 10,
     rc_wait_seconds = sint (word_of_int (seconds (poll_wait c)) :: 32 word),
     rc_visibility = sint (word_of_int (seconds (cc_visibility_timeout c)) :: 32 word)\<rparr>"

text \<open>How long \<open>stop\<close> waits before it cancels the workers; \<open>left\<close> is what the caller's deadline leaves, if it has one.\<close>

definition stop_wait :: "sqs_consumer_config \<Rightarrow> int64 option \<Rightarrow> int64" where
  "stop_wait c left =
     (case left of None \<Rightarrow> cc_shutdown_timeout c
      | Some u \<Rightarrow> if u <s cc_shutdown_timeout c then u else cc_shutdown_timeout c)"

text \<open>The window of \<open>postCancelDrain\<close>, a field only the tests set to something else.\<close>

definition drain_timeout :: "int64 \<Rightarrow> int64" where
  "drain_timeout w = (if 0 <s w then w else sqs_consumer_post_cancel_drain)"

section \<open>State\<close>

text \<open>
  Where \<open>run\<close> is: in a receive; before the first check of a message of the batch; at the select for a worker;
  holding a place but not yet checked again; past that check; handing messages back; in the deferred \<open>workers.Wait\<close>;
  and after \<open>done\<close> was closed.
\<close>

datatype loop_phase =
    Polling
  | Batch "sqs_message list"
  | WaitingSlot sqs_message "sqs_message list"
  | Acquired sqs_message "sqs_message list"
  | Admitted sqs_message "sqs_message list"
  | GivingBack "sqs_message list"
  | WaitingWorkers
  | LoopDone

text \<open>Where a worker is: started, in \<open>handle\<close>, after it, after \<open>untrack\<close>, and after it left its place.\<close>

datatype worker_phase = Spawned | Handling | Handled | Untracked | SlotFreed

datatype stop_error = StopDeadlineExceeded | StopDrainExceeded

text \<open>
  Where \<open>stop\<close> is: not called; at its select; past its deadline with the workers cancelled; in \<open>releaseActive\<close>, with
  the messages still to release; waiting for the workers; and returned, with its error if it has one.
\<close>

datatype stop_phase =
    Serving
  | StopWaiting
  | StopExpired
  | ReleasingActive "sqs_message list"
  | StopDraining
  | StopReturned "stop_error option"

record loop_state =
  ls_phase :: loop_phase
  ls_slots :: nat
  ls_workers :: "(sqs_message \<times> worker_phase) list"
  ls_active :: "(string \<times> sqs_message) list"
  ls_cancelled :: bool
  ls_work_cancelled :: bool
  ls_stop :: stop_phase

definition initial_loop :: loop_state where
  "initial_loop = \<lparr>ls_phase = Polling, ls_slots = 0, ls_workers = [], ls_active = [], ls_cancelled = False,
     ls_work_cancelled = False, ls_stop = Serving\<rparr>"

text \<open>\<open>start\<close> and the beginning of \<open>stop\<close>; a consumer that was never started has no state, and \<open>stop\<close> returns at once.\<close>

definition consumer_start :: "sqs_consumer_config \<Rightarrow> loop_state option \<Rightarrow> loop_state option" where
  "consumer_start c x =
     (if \<not> cc_enabled c then x else case x of Some s \<Rightarrow> Some s | None \<Rightarrow> Some initial_loop)"

definition begin_stop :: "loop_state option \<Rightarrow> loop_state option" where
  "begin_stop x = map_option (\<lambda>s. s\<lparr>ls_cancelled := True, ls_stop := StopWaiting\<rparr>) x"

section \<open>Operations on the state\<close>

text \<open>\<open>releaseActive\<close> holds the mutex all along, so nothing is tracked or untracked meanwhile.\<close>

definition locked :: "loop_state \<Rightarrow> bool" where
  "locked s = (case ls_stop s of ReleasingActive _ \<Rightarrow> True | _ \<Rightarrow> False)"

definition track :: "sqs_message \<Rightarrow> loop_state \<Rightarrow> loop_state" where
  "track m s = s\<lparr>ls_active := AList.update (sm_receipt m) m (ls_active s)\<rparr>"

definition untrack :: "sqs_message \<Rightarrow> loop_state \<Rightarrow> loop_state" where
  "untrack m s = s\<lparr>ls_active := AList.delete (sm_receipt m) (ls_active s)\<rparr>"

definition set_worker :: "nat \<Rightarrow> worker_phase \<Rightarrow> loop_state \<Rightarrow> loop_state" where
  "set_worker i ph s = s\<lparr>ls_workers := (ls_workers s)[i := (fst (ls_workers s ! i), ph)]\<rparr>"

definition remove_worker :: "nat \<Rightarrow> loop_state \<Rightarrow> loop_state" where
  "remove_worker i s = s\<lparr>ls_workers := take i (ls_workers s) @ drop (Suc i) (ls_workers s)\<rparr>"

definition free_slot :: "loop_state \<Rightarrow> loop_state" where
  "free_slot s = s\<lparr>ls_slots := ls_slots s - 1\<rparr>"

text \<open>What an observer sees of a step; of a message that \<open>releaseActive\<close> makes visible, also whether the call went through.\<close>

datatype loop_event =
    Received "sqs_message list"
  | Spawns sqs_message
  | Tracks sqs_message
  | Handles sqs_message
  | Untracks sqs_message
  | GivesBack sqs_message
  | Cancels
  | Locks
  | ReleasesActive sqs_message bool
  | Unlocks
  | Internal

section \<open>The receive loop\<close>

text \<open>
  A poll that fails is repeated, or ends the loop once it is cancelled; what a poll returns after that is handed back.
  At the select both cases may be ready, and then either is taken.
\<close>

inductive loop_step :: "sqs_consumer_config \<Rightarrow> world \<times> loop_state \<Rightarrow> loop_event \<Rightarrow> world \<times> loop_state \<Rightarrow> bool"
  for c :: sqs_consumer_config where
  poll_fails: "ls_phase s = Polling \<Longrightarrow>
    loop_step c (w, s) Internal (w, s\<lparr>ls_phase := (if ls_cancelled s then WaitingWorkers else Polling)\<rparr>)"
| poll_returns: "ls_phase s = Polling \<Longrightarrow> int (length ms) \<le> rc_max_messages (receive_input c) \<Longrightarrow>
    loop_step c (w, s) (Received ms) (w, s\<lparr>ls_phase := (if ls_cancelled s then GivingBack ms else Batch ms)\<rparr>)"
| batch_ends: "ls_phase s = Batch [] \<Longrightarrow> loop_step c (w, s) Internal (w, s\<lparr>ls_phase := Polling\<rparr>)"
| looks: "ls_phase s = Batch (m # ms) \<Longrightarrow>
    loop_step c (w, s) Internal (w, s\<lparr>ls_phase := (if ls_cancelled s then GivingBack (m # ms) else WaitingSlot m ms)\<rparr>)"
| acquires: "ls_phase s = WaitingSlot m ms \<Longrightarrow> int (ls_slots s) < cc_concurrency c \<Longrightarrow>
    loop_step c (w, s) Internal (w, s\<lparr>ls_slots := ls_slots s + 1, ls_phase := Acquired m ms\<rparr>)"
| gives_up: "ls_phase s = WaitingSlot m ms \<Longrightarrow> ls_cancelled s \<Longrightarrow>
    loop_step c (w, s) Internal (w, s\<lparr>ls_phase := GivingBack (m # ms)\<rparr>)"
| looks_again: "ls_phase s = Acquired m ms \<Longrightarrow>
    loop_step c (w, s) Internal (w, if ls_cancelled s then (free_slot s)\<lparr>ls_phase := GivingBack (m # ms)\<rparr>
                                    else s\<lparr>ls_phase := Admitted m ms\<rparr>)"
| spawns: "ls_phase s = Admitted m ms \<Longrightarrow>
    loop_step c (w, s) (Spawns m) (w, s\<lparr>ls_workers := ls_workers s @ [(m, Spawned)], ls_phase := Batch ms\<rparr>)"
| gives_back: "ls_phase s = GivingBack (m # ms) \<Longrightarrow> change_visibility m 0 w = (r, w') \<Longrightarrow>
    loop_step c (w, s) (GivesBack m) (w', s\<lparr>ls_phase := GivingBack ms\<rparr>)"
| returns: "ls_phase s = GivingBack [] \<Longrightarrow> loop_step c (w, s) Internal (w, s\<lparr>ls_phase := WaitingWorkers\<rparr>)"
| finishes: "ls_phase s = WaitingWorkers \<Longrightarrow> ls_workers s = [] \<Longrightarrow>
    loop_step c (w, s) Internal (w, s\<lparr>ls_phase := LoopDone\<rparr>)"

section \<open>A worker\<close>

inductive worker_step ::
    "use_case \<Rightarrow> sqs_consumer_config \<Rightarrow> world \<times> loop_state \<Rightarrow> loop_event \<Rightarrow> world \<times> loop_state \<Rightarrow> bool"
  for uc :: use_case and c :: sqs_consumer_config where
  tracks: "i < length (ls_workers s) \<Longrightarrow> ls_workers s ! i = (m, Spawned) \<Longrightarrow> \<not> locked s \<Longrightarrow>
    worker_step uc c (w, s) (Tracks m) (w, set_worker i Handling (track m s))"
| handles: "i < length (ls_workers s) \<Longrightarrow> ls_workers s ! i = (m, Handling) \<Longrightarrow>
    handle_message uc (consumer_of c) m w = (r, w') \<Longrightarrow>
    worker_step uc c (w, s) (Handles m) (w', set_worker i Handled s)"
| untracks: "i < length (ls_workers s) \<Longrightarrow> ls_workers s ! i = (m, Handled) \<Longrightarrow> \<not> locked s \<Longrightarrow>
    worker_step uc c (w, s) (Untracks m) (w, set_worker i Untracked (untrack m s))"
| frees: "i < length (ls_workers s) \<Longrightarrow> ls_workers s ! i = (m, Untracked) \<Longrightarrow>
    worker_step uc c (w, s) Internal (w, set_worker i SlotFreed (free_slot s))"
| exits: "i < length (ls_workers s) \<Longrightarrow> ls_workers s ! i = (m, SlotFreed) \<Longrightarrow>
    worker_step uc c (w, s) Internal (w, remove_worker i s)"

section \<open>Stopping\<close>

text \<open>
  \<open>releaseActive\<close> goes over a map, so in any order; a call that fails is only logged. The last two rules are the select that waits for the cancelled
  workers.
\<close>

inductive stop_step :: "world \<times> loop_state \<Rightarrow> loop_event \<Rightarrow> world \<times> loop_state \<Rightarrow> bool" where
  begins: "ls_stop s = Serving \<Longrightarrow> begin_stop (Some s) = Some s' \<Longrightarrow> stop_step (w, s) Cancels (w, s')"
| stops: "ls_stop s = StopWaiting \<Longrightarrow> ls_phase s = LoopDone \<Longrightarrow>
    stop_step (w, s) Internal (w, s\<lparr>ls_stop := StopReturned None\<rparr>)"
| expires: "ls_stop s = StopWaiting \<Longrightarrow>
    stop_step (w, s) Internal (w, s\<lparr>ls_work_cancelled := True, ls_stop := StopExpired\<rparr>)"
| locks: "ls_stop s = StopExpired \<Longrightarrow>
    stop_step (w, s) Locks (w, s\<lparr>ls_stop := ReleasingActive (map snd (ls_active s))\<rparr>)"
| releases: "ls_stop s = ReleasingActive ms \<Longrightarrow> m \<in> set ms \<Longrightarrow> change_visibility m 0 w = (r, w') \<Longrightarrow>
    stop_step (w, s) (ReleasesActive m (r = Inr ())) (w', s\<lparr>ls_stop := ReleasingActive (remove1 m ms)\<rparr>)"
| unlocks: "ls_stop s = ReleasingActive [] \<Longrightarrow> stop_step (w, s) Unlocks (w, s\<lparr>ls_stop := StopDraining\<rparr>)"
| drains: "ls_stop s = StopDraining \<Longrightarrow> ls_phase s = LoopDone \<Longrightarrow>
    stop_step (w, s) Internal (w, s\<lparr>ls_stop := StopReturned (Some StopDeadlineExceeded)\<rparr>)"
| abandons: "ls_stop s = StopDraining \<Longrightarrow>
    stop_step (w, s) Internal (w, s\<lparr>ls_stop := StopReturned (Some StopDrainExceeded)\<rparr>)"
end
