(* ===== verification/ConsumerRuns.thy ===== *)
theory ConsumerRuns
  imports ConsumerLoop SampleRun "HOL-Library.Multiset"
begin

text \<open>
  Runs of the queue consumer: what holds however the receive loop, the workers, \<open>stop\<close> and the rest of the service
  interleave. A run carries the events it showed, so that a statement can speak of what became of each message.
\<close>

section \<open>Runs\<close>

definition consumer_step ::
    "use_case \<Rightarrow> sqs_consumer_config \<Rightarrow> world \<times> loop_state \<Rightarrow> loop_event \<Rightarrow> world \<times> loop_state \<Rightarrow> bool" where
  "consumer_step uc c x e y \<longleftrightarrow> loop_step c x e y \<or> worker_step uc c x e y \<or> stop_step x e y"

inductive consumer_run ::
    "use_case \<Rightarrow> sqs_consumer_config \<Rightarrow> world \<times> loop_state \<Rightarrow> loop_event list \<Rightarrow> world \<times> loop_state \<Rightarrow> bool"
  for uc :: use_case and c :: sqs_consumer_config and x :: "world \<times> loop_state" where
  run_none: "consumer_run uc c x [] x"
| run_step: "consumer_run uc c x es y \<Longrightarrow> consumer_step uc c y e z \<Longrightarrow> consumer_run uc c x (es @ [e]) z"
| run_other: "consumer_run uc c x es (w, s) \<Longrightarrow> service_step w w' \<Longrightarrow> consumer_run uc c x es (w', s)"

text \<open>The messages of the events of a run.\<close>

primrec received_by :: "loop_event \<Rightarrow> sqs_message list" where
  "received_by (Received ms) = ms"
| "received_by (Spawns m) = []" | "received_by (Tracks m) = []" | "received_by (Handles m) = []"
| "received_by (Untracks m) = []" | "received_by (GivesBack m) = []" | "received_by Cancels = []"
| "received_by Locks = []" | "received_by (ReleasesActive m ok) = []" | "received_by Unlocks = []" | "received_by Internal = []"

definition received :: "loop_event list \<Rightarrow> sqs_message list" where
  "received es = concat (map received_by es)"

definition spawned :: "loop_event list \<Rightarrow> sqs_message list" where
  "spawned es = concat (map (\<lambda>e. case e of Spawns m \<Rightarrow> [m] | _ \<Rightarrow> []) es)"

definition handled :: "loop_event list \<Rightarrow> sqs_message list" where
  "handled es = concat (map (\<lambda>e. case e of Handles m \<Rightarrow> [m] | _ \<Rightarrow> []) es)"

definition given_back :: "loop_event list \<Rightarrow> sqs_message list" where
  "given_back es = concat (map (\<lambda>e. case e of GivesBack m \<Rightarrow> [m] | _ \<Rightarrow> []) es)"

lemmas event_messages = received_def spawned_def handled_def given_back_def

text \<open>The messages the loop still holds, and those its workers hold in a phase.\<close>

primrec held :: "loop_phase \<Rightarrow> sqs_message list" where
  "held Polling = []"
| "held (Batch ms) = ms"
| "held (WaitingSlot m ms) = m # ms"
| "held (Acquired m ms) = m # ms"
| "held (Admitted m ms) = m # ms"
| "held (GivingBack ms) = ms"
| "held WaitingWorkers = []"
| "held LoopDone = []"

definition in_phase :: "worker_phase set \<Rightarrow> loop_state \<Rightarrow> sqs_message list" where
  "in_phase P s = map fst (filter (\<lambda>x. snd x \<in> P) (ls_workers s))"

section \<open>The steps of a worker, by the list around it\<close>

lemma worker_at:
  assumes "i < length (ls_workers s)" "ls_workers s ! i = (m, ph)"
  shows "\<exists>as bs. ls_workers s = as @ (m, ph) # bs \<and>
    (\<forall>t ph'. ls_workers t = ls_workers s \<longrightarrow> set_worker i ph' t = t\<lparr>ls_workers := as @ (m, ph') # bs\<rparr>) \<and>
    remove_worker i s = s\<lparr>ls_workers := as @ bs\<rparr>"
proof (intro exI conjI)
  show "ls_workers s = take i (ls_workers s) @ (m, ph) # drop (Suc i) (ls_workers s)"
    using id_take_nth_drop [OF assms(1)] assms(2) by simp
qed (use assms in \<open>simp_all add: set_worker_def remove_worker_def upd_conv_take_nth_drop\<close>)

lemma worker_fields [simp]:
  "ls_phase (track m s) = ls_phase s" "ls_phase (untrack m s) = ls_phase s" "ls_phase (free_slot s) = ls_phase s"
  "ls_workers (track m s) = ls_workers s" "ls_workers (untrack m s) = ls_workers s" "ls_workers (free_slot s) = ls_workers s"
  "ls_slots (track m s) = ls_slots s" "ls_slots (untrack m s) = ls_slots s" "ls_slots (free_slot s) = ls_slots s - 1"
  "ls_cancelled (track m s) = ls_cancelled s" "ls_cancelled (untrack m s) = ls_cancelled s"
  "ls_cancelled (free_slot s) = ls_cancelled s"
  "ls_stop (track m s) = ls_stop s" "ls_stop (untrack m s) = ls_stop s" "ls_stop (free_slot s) = ls_stop s"
  "ls_active (free_slot s) = ls_active s"
  by (simp_all add: track_def untrack_def free_slot_def)

definition worker_moves ::
    "use_case \<Rightarrow> sqs_consumer_config \<Rightarrow> world \<times> loop_state \<Rightarrow> loop_event \<Rightarrow> world \<times> loop_state \<Rightarrow>
     (sqs_message \<times> worker_phase) list \<Rightarrow> sqs_message \<Rightarrow> worker_phase \<Rightarrow> (sqs_message \<times> worker_phase) list \<Rightarrow> bool" where
  "worker_moves uc c = (\<lambda>(w, s) e (w', s') as m ph bs. ls_workers s = as @ (m, ph) # bs \<and>
     (case ph of
        Spawned \<Rightarrow> e = Tracks m \<and> \<not> locked s \<and> w' = w \<and> s' = (track m s)\<lparr>ls_workers := as @ (m, Handling) # bs\<rparr>
      | Handling \<Rightarrow> e = Handles m \<and> (\<exists>r. handle_message uc (consumer_of c) m w = (r, w')) \<and>
          s' = s\<lparr>ls_workers := as @ (m, Handled) # bs\<rparr>
      | Handled \<Rightarrow> e = Untracks m \<and> \<not> locked s \<and> w' = w \<and> s' = (untrack m s)\<lparr>ls_workers := as @ (m, Untracked) # bs\<rparr>
      | Untracked \<Rightarrow> e = Internal \<and> w' = w \<and> s' = (free_slot s)\<lparr>ls_workers := as @ (m, SlotFreed) # bs\<rparr>
      | SlotFreed \<Rightarrow> e = Internal \<and> w' = w \<and> s' = s\<lparr>ls_workers := as @ bs\<rparr>))"

lemma worker_step_at:
  assumes "worker_step uc c (w, s) e (w', s')"
  obtains as m ph bs where "worker_moves uc c (w, s) e (w', s') as m ph bs"
  using assms
proof cases
  case (tracks i m)
  from worker_at [OF tracks(4,5)] show ?thesis
    by (elim exE conjE) (rule that [of _ m Spawned], use tracks in \<open>simp add: worker_moves_def\<close>)
next
  case (handles i m r)
  from worker_at [OF handles(3,4)] show ?thesis
    by (elim exE conjE) (rule that [of _ m Handling], use handles in \<open>simp add: worker_moves_def\<close>)
next
  case (untracks i m)
  from worker_at [OF untracks(4,5)] show ?thesis
    by (elim exE conjE) (rule that [of _ m Handled], use untracks in \<open>simp add: worker_moves_def\<close>)
next
  case (frees i m)
  from worker_at [OF frees(4,5)] show ?thesis
    by (elim exE conjE) (rule that [of _ m Untracked], use frees in \<open>simp add: worker_moves_def\<close>)
next
  case (exits i m)
  from worker_at [OF exits(4,5)] show ?thesis
    by (elim exE conjE) (rule that [of _ m SlotFreed], use exits in \<open>simp add: worker_moves_def\<close>)
qed

inductive_cases loop_stepE: "loop_step c (w, s) e (w', s')"
inductive_cases stop_stepE: "stop_step (w, s) e (w', s')"

text \<open>A worker leaves the loop, \<open>stop\<close> and the cancellation as they are.\<close>

lemma worker_step_frame:
  "worker_step uc c (w, s) e (w', s') \<Longrightarrow>
     ls_phase s' = ls_phase s \<and> ls_cancelled s' = ls_cancelled s \<and> ls_stop s' = ls_stop s \<and> ls_workers s \<noteq> []"
  by (erule worker_step_at) (auto simp: worker_moves_def split: worker_phase.splits)

lemma stop_step_frame:
  "stop_step (w, s) e (w', s') \<Longrightarrow> ls_phase s' = ls_phase s \<and> ls_workers s' = ls_workers s \<and> ls_slots s' = ls_slots s \<and>
     ls_active s' = ls_active s \<and> (ls_cancelled s \<longrightarrow> ls_cancelled s')"
  by (erule stop_stepE) (auto simp: begin_stop_def)

lemma loop_step_frame:
  "loop_step c (w, s) e (w', s') \<Longrightarrow> ls_active s' = ls_active s \<and> ls_stop s' = ls_stop s \<and> ls_cancelled s' = ls_cancelled s"
  by (erule loop_stepE) (auto simp: free_slot_def)

text \<open>What a step does to the rest of the service is a step of the service.\<close>

lemma consumer_step_serves: "consumer_step uc c (w, s) e (w', s') \<Longrightarrow> w' = w \<or> service_step w w'"
  unfolding consumer_step_def
  by (elim disjE loop_stepE stop_stepE worker_step_at)
    (auto simp: worker_moves_def split: worker_phase.splits intro: service_step.changes_visibility service_step.handles_message)

lemma consumer_run_serves: "consumer_run uc c x es y \<Longrightarrow> service_step\<^sup>*\<^sup>* (fst x) (fst y)"
proof (induction rule: consumer_run.induct)
  case (run_step es y e z)
  then have "fst z = fst y \<or> service_step (fst y) (fst z)"
    using consumer_step_serves [of uc c "fst y" "snd y" e "fst z" "snd z"] by simp
  then show ?case using run_step.IH by (auto intro: rtranclp.rtrancl_into_rtrancl)
qed (auto intro: rtranclp.rtrancl_into_rtrancl)

text \<open>An invariant of the steps holds along every run.\<close>

lemma run_invariant [consumes 1, case_names start step]:
  assumes "consumer_run uc c (w0, s0) es (w, s)" "P [] s0"
    and "\<And>es w s e w' s'. consumer_run uc c (w0, s0) es (w, s) \<Longrightarrow> P es s \<Longrightarrow>
           consumer_step uc c (w, s) e (w', s') \<Longrightarrow> P (es @ [e]) s'"
  shows "P es s"
proof -
  have "P es (snd y)" if "consumer_run uc c (w0, s0) es y" for es y
    using that
  proof (induction rule: consumer_run.induct)
    case (run_step es y e z)
    then show ?case using assms(3) [of es "fst y" "snd y" e "fst z" "snd z"] by simp
  qed (use assms(2) in simp_all)
  then show ?thesis using assms(1) by force
qed
section \<open>Invariants\<close>

definition place_held :: "loop_phase \<Rightarrow> nat" where
  "place_held p = (case p of Acquired _ _ \<Rightarrow> 1 | Admitted _ _ \<Rightarrow> 1 | _ \<Rightarrow> 0)"

text \<open>The semaphore counts the workers that have not left their place, and the place the loop holds.\<close>

definition slots_ok :: "sqs_consumer_config \<Rightarrow> loop_state \<Rightarrow> bool" where
  "slots_ok c s \<longleftrightarrow> ls_slots s = place_held (ls_phase s) + length (in_phase (- {SlotFreed}) s) \<and>
     ls_slots s \<le> nat (cc_concurrency c)"

text \<open>The loop leaves its batches only when cancelled, which \<open>stop\<close> does first, and ends after its workers.\<close>

fun leaving :: "loop_phase \<Rightarrow> bool" where
  "leaving (GivingBack ms) = True"
| "leaving WaitingWorkers = True"
| "leaving LoopDone = True"
| "leaving p = False"

definition phases_ok :: "loop_state \<Rightarrow> bool" where
  "phases_ok s \<longleftrightarrow> (ls_cancelled s \<longleftrightarrow> ls_stop s \<noteq> Serving) \<and>
     (leaving (ls_phase s) \<longrightarrow> ls_cancelled s) \<and> (ls_phase s = LoopDone \<longrightarrow> ls_workers s = []) \<and>
     (ls_stop s = StopReturned None \<longrightarrow> ls_phase s = LoopDone)"

text \<open>Every received message is given back, dispatched or still held; every dispatched one handled or with its worker.\<close>

definition messages_ok :: "loop_event list \<Rightarrow> loop_state \<Rightarrow> bool" where
  "messages_ok es s \<longleftrightarrow>
     mset (received es) = mset (given_back es) + mset (spawned es) + mset (held (ls_phase s)) \<and>
     mset (spawned es) = mset (handled es) + mset (in_phase {Spawned, Handling} s)"

lemma in_phase_workers [simp]:
  "in_phase P (track m s) = in_phase P s" "in_phase P (untrack m s) = in_phase P s" "in_phase P (free_slot s) = in_phase P s"
  "ls_workers s = as @ (m, ph) # bs \<Longrightarrow> in_phase P s =
     map fst (filter (\<lambda>x. snd x \<in> P) as) @ (if ph \<in> P then [m] else []) @ map fst (filter (\<lambda>x. snd x \<in> P) bs)"
  "in_phase P (s\<lparr>ls_workers := ws\<rparr>) = map fst (filter (\<lambda>x. snd x \<in> P) ws)"
  "in_phase P (s\<lparr>ls_phase := p\<rparr>) = in_phase P s" "in_phase P (s\<lparr>ls_slots := n\<rparr>) = in_phase P s"
  "in_phase P (s\<lparr>ls_stop := q\<rparr>) = in_phase P s" "in_phase P (s\<lparr>ls_cancelled := b\<rparr>) = in_phase P s"
  "in_phase P (s\<lparr>ls_work_cancelled := b\<rparr>) = in_phase P s"
  by (simp_all add: in_phase_def)

lemma begin_stop_Some [simp]: "begin_stop (Some s) = Some s' \<longleftrightarrow> s' = s\<lparr>ls_cancelled := True, ls_stop := StopWaiting\<rparr>"
  by (auto simp: begin_stop_def)

lemma slots_ok_step: "slots_ok c s \<Longrightarrow> consumer_step uc c (w, s) e (w', s') \<Longrightarrow> slots_ok c s'"
  unfolding consumer_step_def
proof (elim disjE)
  assume ok: "slots_ok c s" and "loop_step c (w, s) e (w', s')"
  from this(2) show ?thesis using ok by (cases rule: loop_stepE) (auto simp: slots_ok_def place_held_def in_phase_def free_slot_def)
next
  assume ok: "slots_ok c s" and "worker_step uc c (w, s) e (w', s')"
  from this(2) show ?thesis
    by (rule worker_step_at) (use ok in \<open>auto simp: worker_moves_def slots_ok_def split: worker_phase.splits\<close>)
next
  assume ok: "slots_ok c s" and "stop_step (w, s) e (w', s')"
  from this(2) show ?thesis using ok by (cases rule: stop_stepE) (auto simp: slots_ok_def)
qed

lemma phases_ok_step: "phases_ok s \<Longrightarrow> consumer_step uc c (w, s) e (w', s') \<Longrightarrow> phases_ok s'"
  unfolding consumer_step_def
proof (elim disjE)
  assume ok: "phases_ok s" and "loop_step c (w, s) e (w', s')"
  from this(2) show ?thesis using ok by (cases rule: loop_stepE) (auto simp: phases_ok_def free_slot_def)
next
  assume ok: "phases_ok s" and "worker_step uc c (w, s) e (w', s')"
  from worker_step_frame [OF this(2)] show ?thesis using ok by (auto simp: phases_ok_def)
next
  assume ok: "phases_ok s" and "stop_step (w, s) e (w', s')"
  from this(2) show ?thesis using ok
    by (cases rule: stop_stepE) (auto simp: phases_ok_def)
qed

lemma messages_ok_step: "messages_ok es s \<Longrightarrow> consumer_step uc c (w, s) e (w', s') \<Longrightarrow> messages_ok (es @ [e]) s'"
  unfolding consumer_step_def
proof (elim disjE)
  assume ok: "messages_ok es s" and "loop_step c (w, s) e (w', s')"
  from this(2) show ?thesis using ok
    by (cases rule: loop_stepE) (auto simp: messages_ok_def event_messages in_phase_def free_slot_def)
next
  assume ok: "messages_ok es s" and "worker_step uc c (w, s) e (w', s')"
  from this(2) show ?thesis
    by (rule worker_step_at) (use ok in \<open>auto simp: worker_moves_def messages_ok_def event_messages split: worker_phase.splits\<close>)
next
  assume ok: "messages_ok es s" and "stop_step (w, s) e (w', s')"
  from this(2) show ?thesis using ok by (cases rule: stop_stepE) (auto simp: messages_ok_def event_messages in_phase_def)
qed

lemma run_ok:
  assumes "consumer_run uc c (w0, initial_loop) es (w, s)"
  shows "slots_ok c s \<and> phases_ok s \<and> messages_ok es s"
  using assms
proof (induction rule: run_invariant)
  case start
  show ?case
    by (simp add: initial_loop_def slots_ok_def phases_ok_def messages_ok_def event_messages in_phase_def place_held_def)
next
  case (step es w s e w' s')
  then show ?case using slots_ok_step [OF _ step(2)] phases_ok_step [OF _ step(2)] messages_ok_step [OF _ step(2)] by simp
qed
section \<open>The active messages\<close>

lemma update_new: "k \<notin> fst ` set al \<Longrightarrow> AList.update k v al = al @ [(k, v)]"
  by (induction al) auto

lemma delete_fresh:
  assumes "mset al = add_mset (k, v) A" "\<And>x. x \<in># A \<Longrightarrow> fst x \<noteq> k"
  shows "mset (AList.delete k al) = A"
proof -
  have "mset (AList.delete k al) = filter_mset (\<lambda>x. k \<noteq> fst x) (mset al)" by (simp add: AList.delete_eq case_prod_beta)
  also have "\<dots> = filter_mset (\<lambda>x. k \<noteq> fst x) A" using assms(1) by simp
  also have "\<dots> = A" using assms(2) by (auto simp: filter_mset_eq_conv)
  finally show ?thesis .
qed

lemma submset_insertD: "add_mset x A \<subseteq># B \<Longrightarrow> A \<subseteq># B"
  by (rule subset_mset.trans [of _ "add_mset x A"]) simp_all

lemma distinct_submset:
  assumes "mset xs \<subseteq># mset ys" "distinct ys"
  shows "distinct xs"
proof -
  have "count (mset xs) x \<le> (if x \<in> set xs then 1 else 0)" for x
    using mset_subset_eq_count [OF assms(1), of x] assms(2) by (auto simp: distinct_count_atmost_1 not_in_iff split: if_splits)
  then show ?thesis by (simp add: distinct_count_atmost_1) (metis One_nat_def count_greater_eq_one_iff count_mset_0_iff le_antisym le_zero_eq set_mset_mset)
qed

text \<open>
  Receipt handles are new with every receive of SQS; then the map of active messages holds what the workers between
  \<open>track\<close> and \<open>untrack\<close> are at.
\<close>

definition workers_ok :: "loop_event list \<Rightarrow> loop_state \<Rightarrow> bool" where
  "workers_ok es s \<longleftrightarrow> mset (in_phase UNIV s) \<subseteq># mset (spawned es)"

definition active_ok :: "loop_state \<Rightarrow> bool" where
  "active_ok s \<longleftrightarrow> mset (ls_active s) = image_mset (\<lambda>m. (sm_receipt m, m)) (mset (in_phase {Handling, Handled} s))"

definition fresh_receipts :: "loop_event list \<Rightarrow> bool" where
  "fresh_receipts es \<longleftrightarrow> distinct (map sm_receipt (received es))"

lemma workers_ok_step: "workers_ok es s \<Longrightarrow> consumer_step uc c (w, s) e (w', s') \<Longrightarrow> workers_ok (es @ [e]) s'"
  unfolding consumer_step_def
proof (elim disjE)
  assume ok: "workers_ok es s" and "loop_step c (w, s) e (w', s')"
  from this(2) show ?thesis using ok
    by (cases rule: loop_stepE) (auto simp: workers_ok_def event_messages in_phase_def free_slot_def)
next
  assume ok: "workers_ok es s" and "worker_step uc c (w, s) e (w', s')"
  from this(2) show ?thesis
    by (rule worker_step_at)
      (use ok in \<open>auto simp: worker_moves_def workers_ok_def event_messages split: worker_phase.splits dest: submset_insertD\<close>)
next
  assume ok: "workers_ok es s" and "stop_step (w, s) e (w', s')"
  from this(2) show ?thesis using ok by (cases rule: stop_stepE) (auto simp: workers_ok_def event_messages in_phase_def)
qed

lemma distinct_receipts:
  assumes "messages_ok es s" "workers_ok es s" "fresh_receipts es"
  shows "distinct (map sm_receipt (in_phase UNIV s))"
proof -
  have "mset (in_phase UNIV s) \<subseteq># mset (received es)"
    using assms(1,2) unfolding messages_ok_def workers_ok_def
    by (metis mset_subset_eq_add_left mset_subset_eq_add_right subset_mset.order_trans)
  then have "mset (map sm_receipt (in_phase UNIV s)) \<subseteq># mset (map sm_receipt (received es))"
    by (simp add: image_mset_subseteq_mono)
  then show ?thesis using assms(3) unfolding fresh_receipts_def
    by (rule distinct_submset)
qed

lemma active_ok_step:
  assumes "active_ok s" "distinct (map sm_receipt (in_phase UNIV s))" "consumer_step uc c (w, s) e (w', s')"
  shows "active_ok s'"
  using assms(3) unfolding consumer_step_def
proof (elim disjE)
  assume "loop_step c (w, s) e (w', s')"
  then show ?thesis using assms(1) by (cases rule: loop_stepE) (auto simp: active_ok_def in_phase_def free_slot_def)
next
  assume "stop_step (w, s) e (w', s')"
  then show ?thesis using assms(1) by (cases rule: stop_stepE) (auto simp: active_ok_def in_phase_def)
next
  assume "worker_step uc c (w, s) e (w', s')"
  then obtain as m ph bs where moves: "worker_moves uc c (w, s) e (w', s') as m ph bs" by (rule worker_step_at)
  then have ws: "ls_workers s = as @ (m, ph) # bs" by (simp add: worker_moves_def)
  then have fresh: "\<forall>x p. (x, p) \<in> set as \<or> (x, p) \<in> set bs \<longrightarrow> sm_receipt x \<noteq> sm_receipt m"
    using assms(2) by (force simp: image_iff)
  show ?thesis
  proof (cases ph)
    case Spawned
    have "sm_receipt m \<notin> fst ` set (ls_active s)"
    proof
      assume "sm_receipt m \<in> fst ` set (ls_active s)"
      then obtain x where "x \<in> set (in_phase {Handling, Handled} s)" "sm_receipt x = sm_receipt m"
        using assms(1) by (auto simp: active_ok_def simp flip: set_mset_mset)
      moreover from this(1) have "\<exists>p. (x, p) \<in> set as \<or> (x, p) \<in> set bs" using ws Spawned by (auto simp: in_phase_def)
      ultimately show False using fresh by blast
    qed
    then show ?thesis
      using moves assms(1) ws Spawned by (auto simp: worker_moves_def active_ok_def track_def in_phase_def update_new)
  next
    case Handled
    have "mset (AList.delete (sm_receipt m) (ls_active s)) = image_mset (\<lambda>m. (sm_receipt m, m))
        (mset (map fst (filter (\<lambda>x. snd x \<in> {Handling, Handled}) (as @ bs))))"
      by (rule delete_fresh [of _ _ m]) (use assms(1) ws Handled fresh in \<open>auto simp: active_ok_def in_phase_def\<close>)
    then show ?thesis using moves ws Handled by (simp add: worker_moves_def active_ok_def untrack_def)
  qed (use moves assms(1) ws in \<open>auto simp: worker_moves_def active_ok_def in_phase_def free_slot_def\<close>)
qed
lemma run_active:
  assumes "consumer_run uc c (w0, initial_loop) es (w, s)" "fresh_receipts es"
  shows "active_ok s"
proof -
  have "workers_ok es s \<and> (fresh_receipts es \<longrightarrow> active_ok s)"
    using assms(1)
  proof (induction rule: run_invariant)
    case start
    show ?case by (simp add: initial_loop_def workers_ok_def active_ok_def in_phase_def)
  next
    case (step es w s e w' s')
    moreover have "fresh_receipts es" if "fresh_receipts (es @ [e])"
      using that by (simp add: fresh_receipts_def received_def)
    ultimately show ?case
      using workers_ok_step active_ok_step distinct_receipts run_ok by (metis (no_types))
  qed
  then show ?thesis using assms(2) by simp
qed

section \<open>After the cancellation\<close>

text \<open>Runs continue one another.\<close>

lemma run_append:
  "consumer_run uc c x es y \<Longrightarrow> consumer_run uc c y fs z \<Longrightarrow> consumer_run uc c x (es @ fs) z"
proof (rotate_tac 1, induction rule: consumer_run.induct)
  case (run_step es' y' e z)
  then show ?case using consumer_run.run_step [of uc c x "es @ es'" y' e z] by simp
qed (auto intro: consumer_run.run_other)

text \<open>What the loop may still dispatch: the message past its last check.\<close>

definition admitted :: "loop_phase \<Rightarrow> sqs_message list" where
  "admitted p = (case p of Admitted m ms \<Rightarrow> [m] | _ \<Rightarrow> [])"

lemma cancelled_step:
  assumes "consumer_step uc c (w, s) e (w', s')" "ls_cancelled s"
  shows "ls_cancelled s' \<and> spawned [e] @ admitted (ls_phase s') = admitted (ls_phase s)"
  using assms(1) unfolding consumer_step_def
proof (elim disjE)
  assume "loop_step c (w, s) e (w', s')"
  then show ?thesis using assms(2) by (cases rule: loop_stepE) (auto simp: admitted_def spawned_def free_slot_def)
next
  assume w: "worker_step uc c (w, s) e (w', s')"
  then have "spawned [e] = []" by (rule worker_step_at) (auto simp: worker_moves_def spawned_def split: worker_phase.splits)
  then show ?thesis using worker_step_frame [OF w] assms(2) by simp
next
  assume st: "stop_step (w, s) e (w', s')"
  then have "spawned [e] = []" by (cases rule: stop_stepE) (auto simp: spawned_def)
  then show ?thesis using stop_step_frame [OF st] assms(2) by simp
qed

lemma cancelled_run:
  assumes "consumer_run uc c (w0, s0) es (w, s)" "ls_cancelled s0"
  shows "ls_cancelled s \<and> spawned es @ admitted (ls_phase s) = admitted (ls_phase s0)"
  using assms(1)
proof (induction rule: run_invariant)
  case start
  show ?case using assms(2) by (simp add: spawned_def)
next
  case (step es w s e w' s')
  then show ?case using cancelled_step [OF step(2)] by (simp add: spawned_def)
qed
section \<open>What a stop hands back\<close>

definition released :: "loop_event list \<Rightarrow> sqs_message list" where
  "released es = concat (map (\<lambda>e. case e of ReleasesActive m ok \<Rightarrow> [m] | _ \<Rightarrow> []) es)"

text \<open>Of the messages \<open>L\<close> at the lock, those not released yet.\<close>

fun to_release :: "sqs_message list \<Rightarrow> stop_phase \<Rightarrow> sqs_message list" where
  "to_release L (ReleasingActive ms) = ms"
| "to_release L StopDraining = []"
| "to_release L (StopReturned r) = []"
| "to_release L q = L"

definition past_lock :: "stop_phase \<Rightarrow> bool" where
  "past_lock q \<longleftrightarrow> q \<noteq> Serving \<and> q \<noteq> StopWaiting \<and> q \<noteq> StopExpired"

lemma released_step:
  assumes "consumer_step uc c (w, s) e (w', s')" "past_lock (ls_stop s)"
  shows "past_lock (ls_stop s') \<and>
    mset (released [e]) + mset (to_release L (ls_stop s')) = mset (to_release L (ls_stop s))"
  using assms(1) unfolding consumer_step_def
proof (elim disjE)
  assume l: "loop_step c (w, s) e (w', s')"
  then have "released [e] = []" by (cases rule: loop_stepE) (auto simp: released_def)
  then show ?thesis using loop_step_frame [OF l] assms(2) by simp
next
  assume k: "worker_step uc c (w, s) e (w', s')"
  then have "released [e] = []" by (rule worker_step_at) (auto simp: worker_moves_def released_def split: worker_phase.splits)
  then show ?thesis using worker_step_frame [OF k] assms(2) by simp
next
  assume "stop_step (w, s) e (w', s')"
  then show ?thesis using assms(2) by (cases rule: stop_stepE) (auto simp: released_def past_lock_def)
qed

lemma released_run:
  assumes "consumer_run uc c (w0, s0) es (w, s)" "past_lock (ls_stop s0)"
  shows "past_lock (ls_stop s) \<and> mset (released es) + mset (to_release L (ls_stop s)) = mset (to_release L (ls_stop s0))"
  using assms(1)
proof (induction rule: run_invariant)
  case start
  show ?case using assms(2) by (simp add: released_def)
next
  case (step es w s e w' s')
  have "released (es @ [e]) = released es @ released [e]" by (simp add: released_def)
  then show ?case using step.IH released_step [OF step(2), of L] by (simp add: ac_simps)
qed

text \<open>A call of \<open>releaseActive\<close> that went through has made its message visible at once; it goes through unless the queue fails.\<close>

lemma visible_now: "change_visibility m 0 = enqueue (SetVisibility (sm_receipt m) 0)"
  by (simp add: change_visibility_def seconds_def)

lemma releases_visible:
  assumes "stop_step (w, s) (ReleasesActive m ok) (w', s')"
  shows "(ok \<longrightarrow> st_queue w' = st_queue w @ [SetVisibility (sm_receipt m) 0]) \<and> (st_ticks w = [] \<longrightarrow> ok)"
  using assms by (cases rule: stop_stepE)
    (auto simp: visible_now enqueue_def next_tick_def split: list.splits if_splits)

definition made_visible :: "loop_event list \<Rightarrow> queue_op list \<Rightarrow> bool" where
  "made_visible es qs \<longleftrightarrow> (\<forall>m. ReleasesActive m True \<in> set es \<longrightarrow> SetVisibility (sm_receipt m) 0 \<in> set qs)"

lemma consumer_step_visible:
  assumes "consumer_step uc c (w, s) e (w', s')" "service_ok w"
  shows "\<exists>qs. st_queue w' = st_queue w @ qs \<and> made_visible [e] qs"
proof (cases "\<exists>m. e = ReleasesActive m True")
  case True
  then obtain m where e: "e = ReleasesActive m True" by blast
  then have "stop_step (w, s) e (w', s')"
    using assms(1) unfolding consumer_step_def
    by (auto elim!: loop_stepE worker_step_at simp: worker_moves_def split: worker_phase.splits)
  then show ?thesis using releases_visible e by (fastforce simp: made_visible_def)
next
  case False
  then have "made_visible [e] qs" for qs by (auto simp: made_visible_def)
  moreover have "\<exists>qs. st_queue w' = st_queue w @ qs"
    using consumer_step_serves [OF assms(1)] service_step_preserved [OF _ assms(2)] by auto
  ultimately show ?thesis by blast
qed

lemma consumer_run_visible:
  assumes "consumer_run uc c x es y" "service_ok (fst x)"
  shows "\<exists>qs. st_queue (fst y) = st_queue (fst x) @ qs \<and> made_visible es qs"
  using assms(1)
proof (induction rule: consumer_run.induct)
  case run_none
  show ?case by (simp add: made_visible_def)
next
  case (run_step es y e z)
  have "service_ok (fst y)" using service_steps_ok [OF consumer_run_serves [OF run_step(1)] assms(2)] .
  then obtain qs ps where "st_queue (fst y) = st_queue (fst x) @ qs" "made_visible es qs"
      "st_queue (fst z) = st_queue (fst y) @ ps" "made_visible [e] ps"
    using run_step.IH consumer_step_visible [of uc c "fst y" "snd y" e "fst z" "snd z"] run_step(2) by auto
  then show ?case by (intro exI [of _ "qs @ ps"]) (auto simp: made_visible_def)
next
  case (run_other es w s w')
  have "service_ok w" using service_steps_ok [OF consumer_run_serves [OF run_other(1)] assms(2)] by simp
  then obtain ps where "st_queue w' = st_queue w @ ps" using service_step_preserved [OF run_other(2)] by blast
  then show ?case using run_other.IH by (auto simp: made_visible_def)
qed

text \<open>While the mutex is held nothing is tracked or untracked.\<close>

definition quiet :: "loop_event list \<Rightarrow> bool" where
  "quiet es \<longleftrightarrow> (\<forall>m. Tracks m \<notin> set es \<and> Untracks m \<notin> set es)"

lemma quiet_append: "quiet (es @ fs) \<longleftrightarrow> quiet es \<and> quiet fs"
  by (auto simp: quiet_def)

definition before_unlock :: "loop_event list \<Rightarrow> loop_event list" where
  "before_unlock es = takeWhile (\<lambda>e. e \<noteq> Unlocks) es"

lemma locked_step:
  assumes "consumer_step uc c (w, s) e (w', s')" "locked s"
  shows "(locked s' \<or> e = Unlocks) \<and> quiet [e]"
  using assms(1) unfolding consumer_step_def
proof (elim disjE)
  assume l: "loop_step c (w, s) e (w', s')"
  then have "quiet [e]" by (cases rule: loop_stepE) (auto simp: quiet_def)
  then show ?thesis using loop_step_frame [OF l] assms(2) by (simp add: locked_def)
next
  assume k: "worker_step uc c (w, s) e (w', s')"
  then have "quiet [e]" using assms(2)
    by - (rule worker_step_at, auto simp: worker_moves_def quiet_def split: worker_phase.splits)
  then show ?thesis using worker_step_frame [OF k] assms(2) by (simp add: locked_def)
next
  assume "stop_step (w, s) e (w', s')"
  then show ?thesis using assms(2) by (cases rule: stop_stepE) (auto simp: quiet_def locked_def)
qed

lemma locked_run:
  assumes "consumer_run uc c (w0, s0) es (w, s)" "locked s0"
  shows "(locked s \<or> Unlocks \<in> set es) \<and> quiet (before_unlock es)"
  using assms(1)
proof (induction rule: run_invariant)
  case start
  show ?case using assms(2) by (simp add: quiet_def before_unlock_def)
next
  case (step es w s e w' s')
  show ?case
  proof (cases "Unlocks \<in> set es")
    case True
    then show ?thesis using step.IH by (simp add: before_unlock_def takeWhile_append1)
  next
    case False
    then have moves: "(locked s' \<or> e = Unlocks) \<and> quiet [e]" using step.IH locked_step [OF step(2)] by blast
    then have "quiet (before_unlock [e])" by (simp add: quiet_def before_unlock_def)
    moreover have "before_unlock (es @ [e]) = es @ before_unlock [e]" "before_unlock es = es"
      unfolding before_unlock_def using False by (rule_tac takeWhile_append2, auto simp: takeWhile_eq_all_conv)
    moreover have "quiet es" using step.IH calculation(3) by simp
    ultimately show ?thesis using moves by (auto simp: quiet_append)
  qed
qed

section \<open>The end of a stop\<close>

text \<open>How much the loop and its workers still do once they are cancelled, a full receive included.\<close>

primrec loop_weight :: "loop_phase \<Rightarrow> nat" where
  "loop_weight Polling = 13"
| "loop_weight (Batch ms) = 14 + length ms"
| "loop_weight (WaitingSlot m ms) = 5 + length ms"
| "loop_weight (Acquired m ms) = 4 + length ms"
| "loop_weight (Admitted m ms) = 20 + length ms"
| "loop_weight (GivingBack ms) = 2 + length ms"
| "loop_weight WaitingWorkers = 1"
| "loop_weight LoopDone = 0"

primrec worker_weight :: "worker_phase \<Rightarrow> nat" where
  "worker_weight Spawned = 5"
| "worker_weight Handling = 4"
| "worker_weight Handled = 3"
| "worker_weight Untracked = 2"
| "worker_weight SlotFreed = 1"

primrec stop_stage :: "stop_phase \<Rightarrow> nat" where
  "stop_stage Serving = 5"
| "stop_stage StopWaiting = 4"
| "stop_stage StopExpired = 3"
| "stop_stage (ReleasingActive ms) = 2"
| "stop_stage StopDraining = 1"
| "stop_stage (StopReturned r) = 0"

definition stop_measures :: "(loop_state \<Rightarrow> nat) list" where
  "stop_measures = [\<lambda>s. stop_stage (ls_stop s), \<lambda>s. length (to_release [] (ls_stop s)),
     \<lambda>s. loop_weight (ls_phase s) + sum_list (map (\<lambda>x. worker_weight (snd x)) (ls_workers s))]"

lemma remove1_shorter: "m \<in> set ms \<Longrightarrow> length (remove1 m ms) < length ms"
  using length_pos_if_in_set [of m ms] by (simp add: length_remove1)

lemma cancelled_step_decreases:
  assumes "consumer_step uc c (w, s) e (w', s')" "ls_cancelled s"
  shows "(s', s) \<in> measures stop_measures"
  using assms(1) unfolding consumer_step_def
proof (elim disjE)
  assume "loop_step c (w, s) e (w', s')"
  then show ?thesis using assms(2) by (cases rule: loop_stepE) (auto simp: stop_measures_def free_slot_def receive_input_def)
next
  assume "worker_step uc c (w, s) e (w', s')"
  then show ?thesis
    by (rule worker_step_at) (auto simp: worker_moves_def stop_measures_def split: worker_phase.splits)
next
  assume "stop_step (w, s) e (w', s')"
  then show ?thesis by (cases rule: stop_stepE) (auto simp: stop_measures_def remove1_shorter)
qed

lemma stop_can_move:
  assumes "ls_cancelled s" "phases_ok s" "\<nexists>r. ls_stop s = StopReturned r"
  shows "\<exists>e y. stop_step (w, s) e y"
proof (cases "ls_stop s")
  case Serving
  then show ?thesis using assms(1,2) by (simp add: phases_ok_def)
next
  case (ReleasingActive ms)
  then show ?thesis
    using stop_step.unlocks [of s w] stop_step.releases [of s ms "hd ms" w] by (cases ms) (auto simp: neq_Nil_conv split: prod.splits, metis surj_pair)
qed (use assms(3) in \<open>blast intro: stop_step.intros\<close>)+

lemma loop_can_move:
  assumes "ls_cancelled s" "ls_phase s \<noteq> LoopDone" "\<not> (ls_phase s = WaitingWorkers \<and> ls_workers s \<noteq> [])"
  shows "\<exists>e y. loop_step c (w, s) e y"
proof (cases "ls_phase s")
  case (Batch ms)
  then show ?thesis using loop_step.batch_ends loop_step.looks by (cases ms) blast+
next
  case (GivingBack ms)
  then show ?thesis using loop_step.returns loop_step.gives_back by (cases ms) (blast, metis surj_pair)
qed (use assms in \<open>blast intro: loop_step.intros\<close>)+

lemma worker_can_move:
  assumes "ls_workers s \<noteq> []" "\<not> locked s"
  shows "\<exists>e y. worker_step uc c (w, s) e y"
proof -
  obtain m ph where "ls_workers s ! 0 = (m, ph)" "0 < length (ls_workers s)" using assms(1) by fastforce
  then show ?thesis using assms(2) worker_step.intros by (cases ph) (metis surj_pair)+
qed
section \<open>Polling and stopping in time\<close>

lemma drain_value: "sint sqs_consumer_post_cancel_drain = 5000000000"
  by (simp add: sqs_consumer_post_cancel_drain_def)

lemma poll_wait_uncut:
  assumes "cc_poll_wait c + sqs_consumer_post_cancel_drain <s cc_shutdown_timeout c" "0 < sint (cc_poll_wait c)"
    and "sint (cc_poll_wait c) < 2 ^ 63 - 5000000000"
  shows "poll_wait c = cc_poll_wait c" "sint (cc_poll_wait c) + 5000000000 < sint (cc_shutdown_timeout c)"
proof -
  have "sint (cc_poll_wait c + sqs_consumer_post_cancel_drain) = sint (cc_poll_wait c) + 5000000000"
    using sint64_add [of "cc_poll_wait c" sqs_consumer_post_cancel_drain] assms(2,3) by (simp add: drain_value)
  then show le: "sint (cc_poll_wait c) + 5000000000 < sint (cc_shutdown_timeout c)"
    using assms(1) by (simp add: word_sless_alt)
  have "sint (cc_shutdown_timeout c - sqs_consumer_post_cancel_drain) = sint (cc_shutdown_timeout c) - 5000000000"
    using sint64_sub [of "cc_shutdown_timeout c" sqs_consumer_post_cancel_drain] sint64_upper [of "cc_shutdown_timeout c"] le assms(2)
    by (simp add: drain_value)
  then show "poll_wait c = cc_poll_wait c" using le by (simp add: poll_wait_def Let_def word_sless_alt)
qed

text \<open>The seconds of a long poll are its time rounded up, less than a second more.\<close>

lemma seconds_bound: "0 \<le> sint d \<Longrightarrow> seconds d * 1000000000 < sint d + 1000000000"
proof -
  assume "0 \<le> sint d"
  moreover have "- ((- n) div 1000000000) * 1000000000 < n + 1000000000" for n :: int
    using div_mult_mod_eq [of "- n" 1000000000] pos_mod_bound [of 1000000000 "- n"] by linarith
  ultimately show ?thesis by (simp add: seconds_def Let_def)
qed

lemma stop_wait_le: "sint (stop_wait c left) \<le> sint (cc_shutdown_timeout c)"
  by (auto simp: stop_wait_def word_sless_alt split: option.splits)

lemma consumer_deadlines:
  assumes "load env = Inr c" "stop_deadline_sum c < 2 ^ 63"
  shows "sint (cc_shutdown_timeout (qc_consumer (cf_sqs c))) + 5000000000 < sint (cf_stop_timeout c)"
proof -
  note parts = load_parts [OF assms(1)]
  have "0 < sint (cc_shutdown_timeout (qc_consumer (cf_sqs c)))" "0 < sint (hc_shutdown_timeout (cf_http c))"
      "0 < sint (wc_shutdown_timeout (cf_reference_worker c))"
    using load_sqs_ok [OF parts(3)] load_http_ok [OF parts(1)] load_reference_worker_ok [OF parts(5)] by (simp_all add: consumer_config_ok_def)
  then show ?thesis
    using internal_stop_deadline_sum [OF assms(2)] parts(7) by (simp add: word_sless_alt) (simp add: stop_deadline_sum_def)
qed

section \<open>Properties\<close>

text \<open>
  C11: whatever interleaves, every message the consumer received was given back, dispatched to a worker or is still
  held; every dispatched one was handled or is with a worker that has not handled it yet; there are never more workers
  than places; and when the loop has ended each message was given back or handled, exactly once.
\<close>
theorem messages_are_answered:
  assumes "consumer_run uc c (w0, initial_loop) es (w, s)"
  shows "mset (received es) = mset (given_back es) + mset (spawned es) + mset (held (ls_phase s)) \<and>
    mset (spawned es) = mset (handled es) + mset (in_phase {Spawned, Handling} s) \<and>
    length (in_phase (- {SlotFreed}) s) \<le> nat (cc_concurrency c) \<and>
    (ls_phase s = LoopDone \<longrightarrow> mset (received es) = mset (given_back es) + mset (handled es))"
  using run_ok [OF assms] by (auto simp: messages_ok_def slots_ok_def phases_ok_def in_phase_def)

text \<open>
  C12: once \<open>stop\<close> was called nothing more is dispatched, but the one message that may have passed the last check of
  the loop before.
\<close>
theorem stopping_dispatches_none:
  assumes "consumer_run uc c (w0, initial_loop) es (w1, s1)" "stop_step (w1, s1) Cancels x"
    and "consumer_run uc c x fs (w, s)"
  shows "spawned fs = [] \<or> (\<exists>m ms. ls_phase s1 = Admitted m ms \<and> spawned fs = [m])"
proof -
  obtain w2 s2 where x: "x = (w2, s2)" by fastforce
  have "ls_cancelled s2 \<and> ls_phase s2 = ls_phase s1" using assms(2) unfolding x by (cases rule: stop_stepE) auto
  then have "spawned fs @ admitted (ls_phase s) = admitted (ls_phase s1)" using cancelled_run assms(3) unfolding x by metis
  then show ?thesis by (cases "ls_phase s1") (auto simp: admitted_def append_eq_Cons_conv)
qed

text \<open>
  C13: when \<open>stop\<close> lets go of the mutex it has asked the queue once for each of exactly the messages that workers were
  at when it took it, between \<open>track\<close> and \<open>untrack\<close>, and none of them was tracked or untracked meanwhile. Every such
  call that went through has set the visibility of its message to zero, so that the queue delivers it again at once,
  and a call goes through unless the queue fails; a failed one is only logged. Receipts are new with every receive.
\<close>
theorem stop_hands_back:
  assumes "reachable w0" "consumer_run uc c (w0, initial_loop) es (w1, s1)" "fresh_receipts es"
    and "stop_step (w1, s1) Locks x" "consumer_run uc c x fs (w, s)" "\<not> locked s"
  shows "mset (released fs) = mset (in_phase {Handling, Handled} s1) \<and> quiet (before_unlock fs) \<and>
    (\<exists>qs. st_queue w = st_queue w1 @ qs \<and> (\<forall>m. ReleasesActive m True \<in> set fs \<longrightarrow> SetVisibility (sm_receipt m) 0 \<in> set qs)) \<and>
    (\<forall>v t m ok v' t'. stop_step (v, t) (ReleasesActive m ok) (v', t') \<longrightarrow>
      (ok \<longrightarrow> st_queue v' = st_queue v @ [SetVisibility (sm_receipt m) 0]) \<and> (st_ticks v = [] \<longrightarrow> ok))"
proof -
  obtain s2 where x: "x = (w1, s2)" and s2: "ls_stop s2 = ReleasingActive (map snd (ls_active s1))"
    using assms(4) by (cases x) (auto elim!: stop_stepE)
  then have "past_lock (ls_stop s2)" by (simp add: past_lock_def)
  then have "past_lock (ls_stop s) \<and> mset (released fs) + mset (to_release [] (ls_stop s)) = mset (map snd (ls_active s1))"
    using released_run [of uc c w1 s2 fs w s "[]"] assms(5) s2 unfolding x by simp
  moreover have "mset (map snd (ls_active s1)) = mset (in_phase {Handling, Handled} s1)"
    using run_active [OF assms(2,3)] by (simp add: active_ok_def image_mset.compositionality comp_def)
  ultimately have hands: "mset (released fs) = mset (in_phase {Handling, Handled} s1)"
    using assms(6) by (cases "ls_stop s") (auto simp: locked_def)
  have "quiet (before_unlock fs)"
    using locked_run [of uc c w1 s2 fs w s] assms(5) s2 unfolding x by (simp add: locked_def)
  moreover have "service_ok w1"
    using service_steps_ok [OF consumer_run_serves [OF assms(2)]] reachable_ok [OF assms(1)] by simp
  then have "\<exists>qs. st_queue w = st_queue w1 @ qs \<and> made_visible fs qs"
    using consumer_run_visible [OF assms(5)] unfolding x by simp
  ultimately show ?thesis using hands releases_visible unfolding made_visible_def by blast
qed

text \<open>
  C14: from the call of \<open>stop\<close> on the consumer takes only finitely many steps, and it can take one until the loop has
  ended, its workers with it, and \<open>stop\<close> has returned.
\<close>
theorem stopping_ends:
  assumes "consumer_run uc c (w0, initial_loop) es (w, s)" "ls_cancelled s"
  shows "wf {(t', t). ls_cancelled t \<and> (\<exists>v e v'. consumer_step uc c (v, t) e (v', t'))} \<and>
    ((\<nexists>e y. consumer_step uc c (w, s) e y) \<longleftrightarrow> ls_phase s = LoopDone \<and> ls_workers s = [] \<and> (\<exists>r. ls_stop s = StopReturned r))"
proof
  show "wf {(t', t). ls_cancelled t \<and> (\<exists>v e v'. consumer_step uc c (v, t) e (v', t'))}"
    by (rule wf_subset [OF wf_measures]) (auto dest: cancelled_step_decreases)
  have ok: "phases_ok s" using run_ok [OF assms(1)] by simp
  show "(\<nexists>e y. consumer_step uc c (w, s) e y) \<longleftrightarrow> ls_phase s = LoopDone \<and> ls_workers s = [] \<and> (\<exists>r. ls_stop s = StopReturned r)"
  proof
    assume stuck: "\<nexists>e y. consumer_step uc c (w, s) e y"
    then obtain r where r: "ls_stop s = StopReturned r" using stop_can_move [OF assms(2) ok] unfolding consumer_step_def by blast
    then have ws: "ls_workers s = []" using worker_can_move [of s] stuck unfolding consumer_step_def locked_def by fastforce
    then have "ls_phase s = LoopDone" using loop_can_move [OF assms(2)] stuck unfolding consumer_step_def by blast
    then show "ls_phase s = LoopDone \<and> ls_workers s = [] \<and> (\<exists>r. ls_stop s = StopReturned r)" using r ws by blast
  next
    assume "ls_phase s = LoopDone \<and> ls_workers s = [] \<and> (\<exists>r. ls_stop s = StopReturned r)"
    then show "\<nexists>e y. consumer_step uc c (w, s) e y"
      unfolding consumer_step_def by (auto elim!: loop_step.cases stop_step.cases worker_step.cases)
  qed
qed

section \<open>A run\<close>

text \<open>
  One place; a message is received, dispatched and tracked, then the consumer is stopped while the message is with its
  worker, and hands it back.
\<close>

definition sample_consumer_settings :: sqs_consumer_config where
  "sample_consumer_settings = \<lparr>cc_enabled = True, cc_poll_wait = 20 * second, cc_concurrency = 1,
     cc_visibility_timeout = 60 * second, cc_processing_timeout = 30 * second, cc_retry_base = second, cc_retry_max = 60 * second,
     cc_shutdown_timeout = 30 * second, cc_provider_allowlist = [''pr'']\<rparr>"

definition tracked_state :: "sqs_message \<Rightarrow> loop_state" where
  "tracked_state m = \<lparr>ls_phase = Batch [], ls_slots = 1, ls_workers = [(m, Handling)], ls_active = [(sm_receipt m, m)],
     ls_cancelled = False, ls_work_cancelled = False, ls_stop = Serving\<rparr>"

definition tracked_events :: "sqs_message \<Rightarrow> loop_event list" where
  "tracked_events m = [Received [m], Internal, Internal, Internal, Spawns m, Tracks m]"

lemma run_loop: "consumer_run uc c x es y \<Longrightarrow> loop_step c y e z \<Longrightarrow> consumer_run uc c x (es @ [e]) z"
  using consumer_run.run_step [of uc c x es y e z] by (simp add: consumer_step_def)

lemma run_worker: "consumer_run uc c x es y \<Longrightarrow> worker_step uc c y e z \<Longrightarrow> consumer_run uc c x (es @ [e]) z"
  using consumer_run.run_step [of uc c x es y e z] by (simp add: consumer_step_def)

lemma run_stop: "consumer_run uc c x es y \<Longrightarrow> stop_step y e z \<Longrightarrow> consumer_run uc c x (es @ [e]) z"
  using consumer_run.run_step [of uc c x es y e z] by (simp add: consumer_step_def)

lemma sample_tracked:
  "consumer_run uc sample_consumer_settings (w, initial_loop) (tracked_events m) (w, tracked_state m)"
proof -
  let ?c = sample_consumer_settings and ?s = initial_loop
  note start = consumer_run.run_none [of uc ?c "(w, ?s)"]
  note r1 = run_loop [OF start loop_step.poll_returns [of ?s "[m]"]]
  note r2 = run_loop [OF r1 loop_step.looks [of _ m "[]"]]
  note r3 = run_loop [OF r2 loop_step.acquires [of _ m "[]"]]
  note r4 = run_loop [OF r3 loop_step.looks_again [of _ m "[]"]]
  note r5 = run_loop [OF r4 loop_step.spawns [of _ m "[]"]]
  note r6 = run_worker [OF r5 worker_step.tracks [of 0 _ m]]
  from r6 show ?thesis
    by (simp add: initial_loop_def tracked_events_def tracked_state_def sample_consumer_settings_def receive_input_def
        locked_def set_worker_def track_def)
qed

text \<open>The stop of that consumer, up to the lock, and from it.\<close>

definition stopping_state :: "sqs_message \<Rightarrow> loop_state" where
  "stopping_state m = (tracked_state m)\<lparr>ls_cancelled := True, ls_work_cancelled := True, ls_stop := StopExpired\<rparr>"

lemma sample_stop_begins: "stop_step (w, tracked_state m) Cancels (w, (tracked_state m)\<lparr>ls_cancelled := True, ls_stop := StopWaiting\<rparr>)"
  by (rule stop_step.begins) (simp_all add: tracked_state_def)

lemma sample_stopping:
  "consumer_run uc sample_consumer_settings (w, initial_loop) (tracked_events m @ [Cancels, Internal]) (w, stopping_state m)"
proof -
  note r1 = run_stop [OF sample_tracked sample_stop_begins, of uc w m]
  from run_stop [OF r1 stop_step.expires] show ?thesis by (simp add: stopping_state_def tracked_state_def)
qed

definition releasing_state :: "sqs_message \<Rightarrow> loop_state" where
  "releasing_state m = (stopping_state m)\<lparr>ls_stop := ReleasingActive [m]\<rparr>"

lemma sample_locks: "stop_step (w, stopping_state m) Locks (w, releasing_state m)"
  using stop_step.locks [of "stopping_state m" w] by (simp add: releasing_state_def stopping_state_def tracked_state_def)

definition calm_start :: world where
  "calm_start = sample_start\<lparr>st_ticks := []\<rparr>"

lemma calm_start_reachable: "reachable calm_start"
proof -
  have "started sample_start" by (simp add: started_def sample_start_def sample_world_def empty_db_def)
  then have "reachable sample_start" by (auto simp: reachable_def)
  then show ?thesis by (rule reachable_step [OF _ service_step.environment]) (simp_all add: calm_start_def)
qed

lemma sample_releases:
  "\<exists>w'. consumer_run uc c (calm_start, releasing_state m) [ReleasesActive m True, Unlocks]
     (w', (releasing_state m)\<lparr>ls_stop := StopDraining\<rparr>)"
proof -
  let ?w = "calm_start\<lparr>st_queue := st_queue calm_start @ [SetVisibility (sm_receipt m) 0]\<rparr>"
  have cv: "change_visibility m 0 calm_start = (Inr (), ?w)"
    by (simp add: visible_now enqueue_def next_tick_def calm_start_def)
  note r1 = run_stop [OF consumer_run.run_none stop_step.releases [OF _ _ cv, of "releasing_state m" "[m]"]]
  from run_stop [OF r1 stop_step.unlocks] show ?thesis by (auto simp: releasing_state_def)
qed

theorem messages_are_answered_witness:
  "consumer_run new_use_case sample_consumer_settings (sample_start, initial_loop) (tracked_events sample_message)
     (sample_start, tracked_state sample_message) \<and>
   received (tracked_events sample_message) = [sample_message] \<and>
   mset (spawned (tracked_events sample_message)) = mset (in_phase {Spawned, Handling} (tracked_state sample_message))"
proof (intro conjI)
  show r: "consumer_run new_use_case sample_consumer_settings (sample_start, initial_loop) (tracked_events sample_message)
     (sample_start, tracked_state sample_message)" by (rule sample_tracked)
  show "mset (spawned (tracked_events sample_message)) = mset (in_phase {Spawned, Handling} (tracked_state sample_message))"
    using messages_are_answered [OF r] by (simp add: handled_def tracked_events_def)
qed (simp add: received_def tracked_events_def)

theorem stopping_dispatches_none_witness:
  "\<exists>x. stop_step (sample_start, tracked_state sample_message) Cancels x \<and>
     consumer_run new_use_case sample_consumer_settings x [] x \<and> spawned [] = []"
proof -
  note st = sample_stop_begins [of sample_start sample_message]
  from stopping_dispatches_none [OF sample_tracked [of new_use_case] st consumer_run.run_none] st show ?thesis
    by (auto intro: consumer_run.run_none simp: tracked_state_def)
qed

theorem stop_hands_back_witness:
  "\<exists>fs w s. consumer_run new_use_case sample_consumer_settings (calm_start, releasing_state sample_message) fs (w, s) \<and>
     mset (released fs) = {#sample_message#} \<and> SetVisibility (sm_receipt sample_message) 0 \<in> set (st_queue w)"
proof -
  have fresh: "fresh_receipts (tracked_events sample_message @ [Cancels, Internal])"
    by (simp add: fresh_receipts_def received_def tracked_events_def)
  obtain w where r: "consumer_run new_use_case sample_consumer_settings (calm_start, releasing_state sample_message)
      [ReleasesActive sample_message True, Unlocks] (w, (releasing_state sample_message)\<lparr>ls_stop := StopDraining\<rparr>)"
    using sample_releases by blast
  note result = stop_hands_back [OF calm_start_reachable sample_stopping fresh sample_locks r]
  have "mset (released [ReleasesActive sample_message True, Unlocks]) = {#sample_message#}"
    using result by (auto simp: locked_def in_phase_def stopping_state_def tracked_state_def)
  moreover have "SetVisibility (sm_receipt sample_message) 0 \<in> set (st_queue w)"
    using result by (auto simp: locked_def)
  ultimately show ?thesis using r by blast
qed

theorem stopping_ends_witness:
  "\<exists>e y. consumer_step new_use_case sample_consumer_settings (sample_start, stopping_state sample_message) e y"
  using stopping_ends [OF sample_stopping [of new_use_case sample_start sample_message]]
  by (auto simp: stopping_state_def tracked_state_def)

end
