(* ===== verification/Pollers.thy ===== *)
theory Pollers
  imports SampleRun Config
begin

text \<open>
  The polling goroutines of the outbox publisher (\<open>internal/outbox/publisher.go\<close>) and the reference worker
  (\<open>internal/referenceworker/worker.go\<close>): \<open>start\<close>, \<open>run\<close> and \<open>stop\<close>. Both loops are the same around different passes,
  so what holds of them is shown once for a pass that is a step of the service. Time is not modelled: a tick may come,
  and a deadline may pass, at any moment.
\<close>

section \<open>The components of a configuration\<close>

text \<open>
  The texts of store errors and the random source of the jitter stay parameters, as they are of \<open>OutboxPublisher\<close> and
  \<open>ReferenceWorker\<close>.
\<close>

definition publisher_of :: "outbox_config \<Rightarrow> (world \<Rightarrow> string) \<Rightarrow> publisher" where
  "publisher_of c texts = \<lparr>pb_batch = nat (oc_batch_size c), pb_lease = oc_lease c, pb_retry_base = oc_retry_base c,
     pb_retry_max = oc_retry_max c, pb_error_text = texts\<rparr>"

definition worker_of :: "reference_worker_config \<Rightarrow> (world \<Rightarrow> int64 \<Rightarrow> int64) \<Rightarrow> worker" where
  "worker_of c random = \<lparr>wk_batch = nat (wc_batch_size c), wk_lease = wc_lease c, wk_retry_base = wc_retry_base c,
     wk_retry_max = wc_retry_max c, wk_max_attempts = wc_max_attempts c, wk_random = random\<rparr>"

text \<open>\<open>New\<close> also gives the use case, which the HTTP API and the consumer share, the lifetime of a waiting operation.\<close>

definition worker_new :: "reference_worker_config \<Rightarrow> (world \<Rightarrow> int64 \<Rightarrow> int64) \<Rightarrow> use_case \<Rightarrow> worker \<times> use_case" where
  "worker_new c random uc = (worker_of c random, set_pending_reference_ttl (wc_ttl c) uc)"

lemma worker_new_ttl:
  "load env = Inr cf \<Longrightarrow> snd (worker_new (cf_reference_worker cf) random uc) = uc\<lparr>uc_pending_ttl := wc_ttl (cf_reference_worker cf)\<rparr>"
  using load_reference_worker_ok [OF load_parts(5)] by (simp add: worker_new_def set_pending_reference_ttl_def word_sless_alt)

section \<open>The loop\<close>

text \<open>\<open>run\<close> is in a pass, at its select, or has returned, which closes \<open>done\<close>.\<close>

datatype poll_phase = Passing | Choosing | PollDone

datatype poll_stop = PollServing | PollStopping | PollStopped bool

record poller_state =
  ps_phase :: poll_phase
  ps_cancelled :: bool
  ps_stop :: poll_stop

definition initial_poller :: poller_state where
  "initial_poller = \<lparr>ps_phase = Passing, ps_cancelled = False, ps_stop = PollServing\<rparr>"

text \<open>A second \<open>start\<close> does nothing; the worker can be disabled, the publisher cannot.\<close>

definition publisher_start :: "poller_state option \<Rightarrow> poller_state option" where
  "publisher_start x = (case x of Some s \<Rightarrow> Some s | None \<Rightarrow> Some initial_poller)"

definition worker_start :: "reference_worker_config \<Rightarrow> poller_state option \<Rightarrow> poller_state option" where
  "worker_start c x =
     (if \<not> wc_enabled c then x else case x of Some s \<Rightarrow> Some s | None \<Rightarrow> Some initial_poller)"

text \<open>\<open>left\<close> is what the deadline of the caller leaves, if there is one.\<close>

definition worker_stop_wait :: "reference_worker_config \<Rightarrow> int64 option \<Rightarrow> int64" where
  "worker_stop_wait c left =
     (case left of None \<Rightarrow> wc_shutdown_timeout c
      | Some u \<Rightarrow> if u <s wc_shutdown_timeout c then u else wc_shutdown_timeout c)"

text \<open>
  \<open>run\<close>: a pass, whose error is only logged, then the select, where a tick may win although the context is done.
\<close>

inductive poll_step :: "(app_error, unit) tx \<Rightarrow> world \<times> poller_state \<Rightarrow> world \<times> poller_state \<Rightarrow> bool"
  for pass :: "(app_error, unit) tx" where
  passes: "ps_phase s = Passing \<Longrightarrow> pass w = (r, w') \<Longrightarrow> poll_step pass (w, s) (w', s\<lparr>ps_phase := Choosing\<rparr>)"
| ticks: "ps_phase s = Choosing \<Longrightarrow> poll_step pass (w, s) (w, s\<lparr>ps_phase := Passing\<rparr>)"
| leaves: "ps_phase s = Choosing \<Longrightarrow> ps_cancelled s \<Longrightarrow> poll_step pass (w, s) (w, s\<lparr>ps_phase := PollDone\<rparr>)"

text \<open>\<open>stop\<close> cancels and waits for \<open>done\<close> or its deadline; \<open>PollStopped\<close> says whether it returns without an error.\<close>

inductive poll_stop_step :: "poller_state \<Rightarrow> poller_state \<Rightarrow> bool" where
  cancels: "ps_stop s = PollServing \<Longrightarrow> poll_stop_step s (s\<lparr>ps_cancelled := True, ps_stop := PollStopping\<rparr>)"
| waits: "ps_stop s = PollStopping \<Longrightarrow> ps_phase s = PollDone \<Longrightarrow> poll_stop_step s (s\<lparr>ps_stop := PollStopped True\<rparr>)"
| gives_up: "ps_stop s = PollStopping \<Longrightarrow> poll_stop_step s (s\<lparr>ps_stop := PollStopped False\<rparr>)"

inductive_cases poll_stepE: "poll_step pass (w, s) (w', s')"
inductive_cases poll_stop_stepE: "poll_stop_step s s'"

text \<open>A poller among the other components of the service.\<close>

inductive poller_run :: "(app_error, unit) tx \<Rightarrow> world \<times> poller_state \<Rightarrow> world \<times> poller_state \<Rightarrow> bool"
  for pass :: "(app_error, unit) tx" and x :: "world \<times> poller_state" where
  poller_none: "poller_run pass x x"
| poller_polls: "poller_run pass x y \<Longrightarrow> poll_step pass y z \<Longrightarrow> poller_run pass x z"
| poller_stops: "poller_run pass x (w, s) \<Longrightarrow> poll_stop_step s s' \<Longrightarrow> poller_run pass x (w, s')"
| poller_others: "poller_run pass x (w, s) \<Longrightarrow> service_step w w' \<Longrightarrow> poller_run pass x (w', s)"

section \<open>What holds of every poller\<close>

definition poller_ok :: "poller_state \<Rightarrow> bool" where
  "poller_ok s \<longleftrightarrow> (ps_cancelled s \<longleftrightarrow> ps_stop s \<noteq> PollServing) \<and> (ps_phase s = PollDone \<longrightarrow> ps_cancelled s) \<and>
     (ps_stop s = PollStopped True \<longrightarrow> ps_phase s = PollDone)"

lemma poll_step_ok: "poll_step pass (w, s) (w', s') \<Longrightarrow> poller_ok s \<Longrightarrow> poller_ok s'"
  by (erule poll_stepE) (auto simp: poller_ok_def)

lemma poll_stop_step_ok: "poll_stop_step s s' \<Longrightarrow> poller_ok s \<Longrightarrow> poller_ok s'"
  by (erule poll_stop_stepE) (auto simp: poller_ok_def)

locale poller =
  fixes pass :: "(app_error, unit) tx"
  assumes pass_serves: "pass w = (r, w') \<Longrightarrow> service_step w w'"
begin

lemma poll_step_serves: "poll_step pass (w, s) (w', s') \<Longrightarrow> service_step\<^sup>*\<^sup>* w w'"
  by (erule poll_stepE) (auto dest: pass_serves)

lemma run_serves: "poller_run pass (w0, initial_poller) (w, s) \<Longrightarrow> service_step\<^sup>*\<^sup>* w0 w \<and> poller_ok s"
proof (induction "(w, s)" arbitrary: w s rule: poller_run.induct)
  case poller_none
  show ?case by (simp add: poller_ok_def initial_poller_def)
next
  case (poller_polls y)
  obtain w1 s1 where y: "y = (w1, s1)" by fastforce
  then show ?case
    using poller_polls poll_step_serves poll_step_ok by (metis rtranclp_trans)
next
  case (poller_stops w1 s1 s')
  then show ?case using poll_stop_step_ok by blast
next
  case (poller_others w1 s1 w')
  then show ?case by (meson rtranclp.rtrancl_into_rtrancl)
qed

lemma run_reachable: "reachable w0 \<Longrightarrow> poller_run pass (w0, initial_poller) (w, s) \<Longrightarrow> reachable w"
  using run_serves unfolding reachable_def by (meson rtranclp_trans)

text \<open>A stop without an error means that the loop has returned: the database may be closed.\<close>

lemma stopped_is_quiet:
  assumes "poller_run pass (w0, initial_poller) (w, s)" "ps_stop s = PollStopped True"
  shows "\<nexists>y. poll_step pass (w, s) y"
proof -
  have "ps_phase s = PollDone" using run_serves [OF assms(1)] assms(2) by (simp add: poller_ok_def)
  then show ?thesis by (auto elim: poll_step.cases)
qed

text \<open>Until then the loop is never stuck.\<close>

lemma never_stuck: "ps_phase s \<noteq> PollDone \<Longrightarrow> \<exists>y. poll_step pass (w, s) y"
  by (cases "ps_phase s") (metis poll_step.passes surj_pair, metis poll_step.ticks, simp)

end

interpretation publisher_loop: poller "publish_batch p"
  by unfold_locales (rule service_step.publishes)

interpretation worker_loop: poller "process_batch k"
  by unfold_locales (rule service_step.works)

section \<open>Properties\<close>

text \<open>
  C20: whatever the publisher and the worker do in their loops, and others meanwhile, is a run of the service; once
  \<open>stop\<close> has returned without an error their loop begins no pass any more, and before the loop has returned it is
  never stuck.
\<close>
theorem pollers_serve_until_stopped:
  assumes "reachable w0" "pass \<in> {publish_batch p, process_batch k}" "poller_run pass (w0, initial_poller) (w, s)"
  shows "reachable w \<and> (ps_stop s = PollStopped True \<longrightarrow> (\<nexists>y. poll_step pass (w, s) y)) \<and>
    (ps_phase s \<noteq> PollDone \<longrightarrow> (\<exists>y. poll_step pass (w, s) y))"
  using assms(2)
proof (elim insertE emptyE)
  assume p: "pass = publish_batch p"
  show ?thesis using publisher_loop.run_reachable publisher_loop.stopped_is_quiet publisher_loop.never_stuck assms(1,3)
    unfolding p by blast
next
  assume k: "pass = process_batch k"
  show ?thesis using worker_loop.run_reachable worker_loop.stopped_is_quiet worker_loop.never_stuck assms(1,3)
    unfolding k by blast
qed
theorem pollers_serve_until_stopped_witness:
  "\<exists>w s. poller_run (publish_batch sample_publisher) (sample_opened, initial_poller) (w, s) \<and>
     ps_stop s = PollStopped True \<and> reachable w \<and> (\<nexists>y. poll_step (publish_batch sample_publisher) (w, s) y)"
proof -
  let ?p = "publish_batch sample_publisher"
  obtain r w where pass: "?p sample_opened = (r, w)" by fastforce
  note r1 = poller_polls [OF poller_none poll_step.passes [of initial_poller ?p sample_opened r w]]
  note r2 = poller_stops [OF r1 poll_stop_step.cancels]
  note r3 = poller_polls [OF r2 poll_step.leaves]
  note r4 = poller_stops [OF r3 poll_stop_step.waits]
  have run: "poller_run ?p (sample_opened, initial_poller)
      (w, \<lparr>ps_phase = PollDone, ps_cancelled = True, ps_stop = PollStopped True\<rparr>)"
    using r4 pass by (simp add: initial_poller_def)
  from pollers_serve_until_stopped [OF sample_opened_reachable insertI1 run] run show ?thesis by fastforce
qed
end
