(* ===== verification/Replays.thy ===== *)
theory Replays
  imports SampleRun
begin

text \<open>
  What \<open>Process\<close> answers to a request it knows when nothing fails: the recorded answer for the same key and payload,
  and a conflict for another payload under the key or another key for the external id.
\<close>

section \<open>Answers without faults\<close>

text \<open>With no fault left and database \<open>d\<close>, \<open>m\<close> answers \<open>r\<close> and leaves both as they are.\<close>

definition yields :: "db \<Rightarrow> app_error + 'a \<Rightarrow> (app_error, 'a) tx \<Rightarrow> bool" where
  "yields d r m \<longleftrightarrow> (\<forall>s. st_ticks s = [] \<and> st_db s = d \<longrightarrow> (\<exists>s'. m s = (r, s') \<and> st_ticks s' = [] \<and> st_db s' = d))"

named_theorems yields \<open>answers of operations without faults\<close>

lemma yieldsD: "yields d r m \<Longrightarrow> st_ticks s = [] \<Longrightarrow> st_db s = d \<Longrightarrow> \<exists>s'. m s = (r, s') \<and> st_ticks s' = [] \<and> st_db s' = d"
  by (simp add: yields_def)

lemma yields_basic [yields]:
  "yields d (Inr x) (returnT x)" "yields d (Inl e) (failT e)" "yields d r (liftE r)" "yields d (Inr ()) (observe c)"
  by (auto simp: yields_def returnT_def failT_def liftE_def observe_def)

lemma yields_query: "(\<And>s. st_db s = d \<Longrightarrow> f s = x) \<Longrightarrow> yields d (Inr x) (query f)"
  by (auto simp: yields_def query_def map_errT_def pg_read_def pg_def quiet_step)

lemma yields_bind: "yields d (Inr x) m \<Longrightarrow> yields d r (k x) \<Longrightarrow> yields d r (bindT m k)"
  unfolding yields_def bindT_def by fastforce

lemma yields_bind_fails: "yields d (Inl e) m \<Longrightarrow> yields d (Inl e) (bindT m k)"
  unfolding yields_def bindT_def by fastforce

lemma yields_try: "yields d q m \<Longrightarrow> yields d r (k q) \<Longrightarrow> yields d r (tryT m k)"
  unfolding yields_def tryT_def by fastforce

lemma yields_now:
  assumes "\<And>t. yields d r (k t)"
  shows "yields d r (bindT get_now k)"
  unfolding yields_def
proof (intro allI impI, elim conjE)
  fix s :: world assume s: "st_ticks s = []" "st_db s = d"
  obtain t s1 where n: "get_now s = (Inr t :: app_error + gotime, s1)" using get_now_total by blast
  then have "st_ticks s1 = []" "st_db s1 = d" using s by (auto simp: get_now_def split: list.splits)
  with yieldsD [OF assms [of t]] n show "\<exists>s'. bindT get_now k s = (r, s') \<and> st_ticks s' = [] \<and> st_db s' = d"
    by (simp add: bindT_def)
qed

lemma yields_within:
  assumes "yields d r m"
  shows "yields d r (within_tx m)"
  unfolding yields_def
proof (intro allI impI, elim conjE)
  fix s :: world assume s: "st_ticks s = []" "st_db s = d"
  obtain s1 where m: "m s = (r, s1)" "st_ticks s1 = []" "st_db s1 = d" using yieldsD [OF assms s] by blast
  then show "\<exists>s'. within_tx m s = (r, s') \<and> st_ticks s' = [] \<and> st_db s' = d"
    using s by (cases r) (simp_all add: within_tx_def quiet_step)
qed

section \<open>Looking up\<close>

definition existing_of :: "tx_row \<Rightarrow> existing_transaction" where
  "existing_of t = \<lparr>ex_id = tr_id t, ex_key = or_empty (tr_key t), ex_hash = or_empty (tr_hash t),
     ex_external_id = or_empty (tr_external t), ex_status = tr_status t, ex_failure_code = or_empty (tr_failure t),
     ex_resulting_balance = tr_balance t, ex_currency = tr_currency t, ex_expires = tr_expires t\<rparr>"

lemma existing_of_simps [simp]:
  "ex_id (existing_of t) = tr_id t" "ex_key (existing_of t) = or_empty (tr_key t)" "ex_hash (existing_of t) = or_empty (tr_hash t)"
  "ex_external_id (existing_of t) = or_empty (tr_external t)" "ex_status (existing_of t) = tr_status t"
  "ex_failure_code (existing_of t) = or_empty (tr_failure t)" "ex_resulting_balance (existing_of t) = tr_balance t"
  "ex_currency (existing_of t) = tr_currency t" "ex_expires (existing_of t) = tr_expires t"
  by (simp_all add: existing_of_def)

lemma decode_existing_external: "tx_checks t \<Longrightarrow> tr_provider t = Some p \<Longrightarrow> decode_existing t = Inr (existing_of t)"
  by (auto simp: tx_checks_def tx_origin_check_def decode_existing_def existing_of_def scan_def bindE_def or_empty_def)

lemma find_existing_yields:
  assumes "txs_ok d" "\<And>t. P t \<Longrightarrow> tr_provider t = Some p"
  shows "yields d (Inr (map_option existing_of (List.find P (db_txs d)))) (find_existing (txs_find_existing P))"
proof -
  have find: "yields d (Inr (List.find P (db_txs d))) (find_tx P)" unfolding find_tx_def by (rule yields_query) simp
  show ?thesis
  proof (cases "List.find P (db_txs d)")
    case None
    have "yields d (Inl ErrNotFound) (txs_find_existing P)" unfolding txs_find_existing_def
      by (rule yields_bind [OF find], rule yields_bind_fails) (simp add: None found_def yields)
    then show ?thesis unfolding find_existing_def by (rule yields_try) (simp add: None yields)
  next
    case (Some t)
    then have t: "t \<in> set (db_txs d)" "P t" by (auto simp: find_Some_iff)
    then have "decode_existing t = Inr (existing_of t)"
      using assms by (intro decode_existing_external) (auto simp: txs_ok_def)
    then have "yields d (Inr (existing_of t)) (txs_find_existing P)" unfolding txs_find_existing_def
      by (intro yields_bind [OF find] yields_bind [of d t]) (simp_all add: Some found_def yields del: liftE_def)
    then show ?thesis unfolding find_existing_def by (rule yields_try) (simp add: Some yields)
  qed
qed

lemma find_unique:
  assumes "txs_ok d" "t \<in> set (db_txs d)" "P t" "\<And>u v. P u \<Longrightarrow> P v \<Longrightarrow> tx_conflict u v"
  shows "List.find P (db_txs d) = Some t"
proof -
  obtain u where u: "List.find P (db_txs d) = Some u" using assms(2,3) by (metis find_None_iff not_Some_eq)
  then have "u \<in> set (db_txs d)" "P u" by (auto simp: find_Some_iff)
  then show ?thesis using u tx_rows_unique [OF assms(1) _ assms(2)] assms(3,4) by metis
qed

text \<open>What is answered to a request with payload hash \<open>h\<close> of which the database knows the key or the external id.\<close>

definition known_answer :: "process_input \<Rightarrow> string \<Rightarrow> db \<Rightarrow> app_error + process_result" where
  "known_answer i h d =
     (case List.find (has_key (rq_provider_id (pr_request i)) (pr_key i)) (db_txs d) of
        None \<Rightarrow> Inl (OpErr ExternalTransactionIDConflict)
      | Some t \<Rightarrow>
          if tr_hash t \<noteq> Some h then Inl (OpErr IdempotencyKeyReused)
          else map_sum id (\<lambda>res. res\<lparr>ps_kind := rq_kind (pr_request i)\<rparr>) (replay_result (existing_of t)))"

lemma lookup_yields:
  assumes ok: "txs_ok d" and t: "t \<in> set (db_txs d)"
    and known: "has_key (rq_provider_id (pr_request i)) (pr_key i) t \<or>
      has_external (rq_provider_id (pr_request i)) (rq_external_id (pr_request i)) t"
  shows "yields d (map_sum id Some (known_answer i h d)) (lookup_existing (pr_request i) (pr_key i) h)"
proof -
  let ?p = "rq_provider_id (pr_request i)" and ?x = "rq_external_id (pr_request i)"
  let ?k = "List.find (has_key ?p (pr_key i)) (db_txs d)" and ?e = "List.find (has_external ?p ?x) (db_txs d)"
  have key: "yields d (Inr (map_option existing_of ?k)) (find_existing (txs_find_by_key ?p (pr_key i)))"
    unfolding txs_find_by_key_def by (rule find_existing_yields [OF ok, of _ ?p]) (simp add: has_key_def)
  have external: "yields d (Inr (map_option existing_of ?e)) (find_existing (txs_find_by_external ?p ?x))"
    unfolding txs_find_by_external_def by (rule find_existing_yields [OF ok, of _ ?p]) (simp add: has_external_def)
  note lookups = yields_bind [OF key] yields_bind [OF external]
  show ?thesis
  proof (cases ?k)
    case None
    then have "has_external ?p ?x t" using known t by (auto simp: find_None_iff)
    then obtain u where u: "?e = Some u" using t by (metis find_None_iff not_Some_eq)
    then have "u \<in> set (db_txs d)" "tr_provider u = Some ?p" by (auto simp: find_Some_iff has_external_def)
    then have "tr_key u \<noteq> None" using ok by (auto simp: txs_ok_def tx_checks_def tx_origin_check_def)
    moreover have "\<not> has_key ?p (pr_key i) u" using None \<open>u \<in> _\<close> by (auto simp: find_None_iff)
    ultimately have "or_empty (tr_key u) \<noteq> pr_key i" using \<open>tr_provider u = _\<close> by (auto simp: has_key_def or_empty_def)
    then show ?thesis unfolding lookup_existing_def known_answer_def
      by (intro lookups) (simp add: None u to_attempt_def classify_attempt_def yields)
  next
    case (Some u)
    then have "u \<in> set (db_txs d)" "tr_provider u = Some ?p" by (auto simp: find_Some_iff has_key_def)
    then obtain hu where hu: "tr_hash u = Some hu" using ok by (auto simp: txs_ok_def tx_checks_def tx_origin_check_def)
    show ?thesis
    proof (cases "hu = h")
      case False
      then show ?thesis unfolding lookup_existing_def known_answer_def
        by (intro lookups) (simp add: Some hu to_attempt_def or_empty_def classify_attempt_def yields)
    next
      case True
      have "yields d (map_sum id Some (map_sum id (\<lambda>res. res\<lparr>ps_kind := rq_kind (pr_request i)\<rparr>) (replay_result (existing_of u))))
          (bindT (liftE (replay_result (existing_of u))) (\<lambda>res. returnT (Some (res\<lparr>ps_kind := rq_kind (pr_request i)\<rparr>))))"
        by (cases "replay_result (existing_of u)") (auto intro: yields_bind yields_bind_fails yields)
      moreover have "or_empty (tr_hash u) = h" using hu True by (simp add: or_empty_def)
      ultimately show ?thesis unfolding lookup_existing_def known_answer_def
        by (intro lookups) (simp add: Some hu True to_attempt_def classify_attempt_def or_empty_def)
    qed
  qed
qed

section \<open>The attempt and its transaction\<close>

text \<open>The wallet of the request can be read and is the player's, in the request's currency.\<close>

definition wallet_matches :: "db \<Rightarrow> request \<Rightarrow> bool" where
  "wallet_matches d r \<longleftrightarrow> (\<exists>row \<in> set (db_wallets d). \<exists>w. wr_id row = rq_wallet_id r \<and> decode_wallet row = Inr w \<and>
     w_player_id w = rq_player_id r \<and> money_currency (rq_money r) = Inr (w_currency w))"

lemma wallet_yields:
  assumes "books_ok d" "row \<in> set (db_wallets d)" "decode_wallet row = Inr w"
  shows "yields d (Inr w) (wallets_find_for_update (wr_id row))"
proof -
  have "yields d (Inr (Some row)) (query (\<lambda>s. List.find (\<lambda>r. wr_id r = wr_id row) (db_wallets (st_db s))))"
    by (rule yields_query) (simp add: find_wallet [OF assms(1,2)])
  then show ?thesis unfolding wallets_find_for_update_def wallets_find_def
    by (rule yields_bind) (rule yields_bind [of d row], simp_all add: found_def assms(3) yields(3) [of d "Inr _"])
qed

lemma attempt_yields:
  assumes ok: "db_ok d" and w: "wallet_matches d (pr_request i)"
    and l: "yields d (map_sum id Some q) (lookup_existing (pr_request i) (pr_key i) h)"
  shows "yields d (map_sum id Some q) (attempt uc i h dcs now)"
proof -
  obtain row w where row: "row \<in> set (db_wallets d)" "wr_id row = rq_wallet_id (pr_request i)" "decode_wallet row = Inr w"
      "w_player_id w = rq_player_id (pr_request i)" "money_currency (rq_money (pr_request i)) = Inr (w_currency w)"
    using w by (auto simp: wallet_matches_def)
  have find: "yields d (Inr w) (wallets_find_for_update (rq_wallet_id (pr_request i)))"
    using wallet_yields [OF _ row(1,3)] ok row(2) by (simp add: db_ok_def)
  have currency: "yields d (Inr (w_currency w)) (liftE (map_err MoneyErr (money_currency (rq_money (pr_request i)))))"
    by (simp add: row(5) map_err_def yields(3) [of d "Inr _"])
  have rest: "yields d (map_sum id Some q) (bindT (lookup_existing (pr_request i) (pr_key i) h) (\<lambda>existing. case existing of
      Some answer \<Rightarrow> returnT (Some answer) | None \<Rightarrow> k))" for k
  proof (cases q)
    case (Inl e)
    then show ?thesis using yields_bind_fails [of d e] l by simp
  next
    case (Inr x)
    then have "yields d (Inr (Some x)) (lookup_existing (pr_request i) (pr_key i) h)" using l by simp
    then show ?thesis by (rule yields_bind) (simp add: Inr yields)
  qed
  show ?thesis unfolding attempt_def Let_def
    by (rule yields_try [OF find]) (simp add: row(4), rule yields_bind [OF currency], simp add: rest)
qed

lemma known_answer_final: "known_answer i h d \<noteq> Inl ErrRetryInNewTransaction"
  by (auto simp: known_answer_def replay_result_def Let_def split: option.splits sum.splits)

lemma process_yields:
  assumes p: "prepare i = Inr p" and q: "q \<noteq> Inl ErrRetryInNewTransaction"
    and a: "\<And>now. yields d (map_sum id Some q) (attempt uc i (po_hash p) (po_decision p) now)"
  shows "yields d q (process uc i)"
proof -
  have p': "po_input p = i" "po_ready p" using p by (simp_all add: prepare_ok)
  have "yields d q (execute_in_tx uc p)" unfolding execute_in_tx_def
  proof (simp add: p', rule yields_now)
    fix now
    show "yields d q (bindT (attempt uc i (po_hash p) (po_decision p) now) (\<lambda>res. case res of
        None \<Rightarrow> failT ErrRetryInNewTransaction | Some answer \<Rightarrow> returnT answer))"
      using a [of now] by (cases q) (auto intro: yields_bind_fails yields_bind simp: yields)
  qed
  then have run: "yields d q (run_in_new_tx uc p)" unfolding run_in_new_tx_def by (rule yields_within)
  have retry: "yields d q (process_with_retry uc p)" unfolding process_with_retry_def
    by (rule yields_try [OF run]) (simp add: q yields(3))
  have outcome: "yields d (Inr ()) (record_outcome c res)" for c res
    unfolding record_outcome_def by (rule yields_bind) (simp_all add: yields)
  have rest: "yields d q (bindT (process_with_retry uc p) (\<lambda>res.
      bindT get_now (\<lambda>_. bindT (record_outcome (pr_channel i) res) (\<lambda>_. returnT res))))"
  proof (cases q)
    case (Inl e)
    then show ?thesis using yields_bind_fails retry by simp
  next
    case (Inr x)
    show ?thesis using retry unfolding Inr
      by (rule yields_bind) (intro yields_now yields_bind [OF outcome], simp add: yields)
  qed
  show ?thesis unfolding process_def
    by (rule yields_now, rule yields_bind [of d p]) (simp_all add: p yields(3) [of d "Inr _"] rest)
qed

text \<open>Processing a request the database knows, with no fault left, answers \<open>known_answer\<close>.\<close>

lemma process_known:
  assumes "db_ok (st_db s)" "st_ticks s = []" "t \<in> set (db_txs (st_db s))"
    and "has_key (rq_provider_id (pr_request i)) (pr_key i) t \<or>
      has_external (rq_provider_id (pr_request i)) (rq_external_id (pr_request i)) t"
    and "prepare i = Inr p" "wallet_matches (st_db s) (pr_request i)" "process uc i s = (r, s')"
  shows "r = known_answer i (po_hash p) (st_db s)"
proof -
  have "txs_ok (st_db s)" using assms(1) by (simp add: db_ok_def)
  then have "yields (st_db s) (known_answer i (po_hash p) (st_db s)) (process uc i)"
    using process_yields [OF assms(5) known_answer_final] attempt_yields [OF assms(1,6)] lookup_yields assms(3,4) by blast
  then show ?thesis using yieldsD assms(2,7) by fastforce
qed

section \<open>Which answer\<close>

text \<open>
  The answer to a known request with payload hash \<open>h\<close>, by the row of its key: the replay of that row, a conflict
  when it holds another payload, and a conflict on the external id when there is no such row.
\<close>

definition answers_known :: "process_input \<Rightarrow> string \<Rightarrow> db \<Rightarrow> app_error + process_result \<Rightarrow> bool" where
  "answers_known i h d r \<longleftrightarrow>
     ((\<forall>row \<in> set (db_txs d). \<not> has_key (rq_provider_id (pr_request i)) (pr_key i) row) \<longrightarrow>
        r = Inl (OpErr ExternalTransactionIDConflict)) \<and>
     (\<forall>row \<in> set (db_txs d). has_key (rq_provider_id (pr_request i)) (pr_key i) row \<longrightarrow>
        (if tr_hash row \<noteq> Some h then r = Inl (OpErr IdempotencyKeyReused)
         else is_supported (tr_currency row) \<longrightarrow> (\<exists>res. r = Inr res \<and> replays_row i h res row)))"

lemma key_row_unique:
  assumes "txs_ok d" "t \<in> set (db_txs d)" "has_key p k t"
  shows "List.find (has_key p k) (db_txs d) = Some t"
  using assms by (rule find_unique) (auto simp: has_key_def tx_conflict_def same_key_def)

lemma known_answer_replays:
  assumes "txs_ok d" "t \<in> set (db_txs d)" "has_key (rq_provider_id (pr_request i)) (pr_key i) t" "tr_hash t = Some h"
    and "is_supported (tr_currency t)"
  shows "\<exists>res. known_answer i h d = Inr res \<and> replays_row i h res t"
proof -
  have "tx_balance_check t" using assms(1,2) by (auto simp: txs_ok_def tx_checks_def)
  then have new: "tr_balance t = Some b \<Longrightarrow> money_new b (tr_currency t) = Inr \<lparr>minor_units = b, currency_of = tr_currency t\<rparr>" for b
    using assms(5) by (auto simp: tx_balance_check_def money_new_def)
  show ?thesis using key_row_unique [OF assms(1-3)] assms(3,4)
    by (cases "tr_balance t") (auto simp: known_answer_def replays_row_def replay_result_def Let_def new)
qed

lemma known_answer_reused:
  assumes "txs_ok d" "t \<in> set (db_txs d)" "has_key (rq_provider_id (pr_request i)) (pr_key i) t" "tr_hash t \<noteq> Some h"
  shows "known_answer i h d = Inl (OpErr IdempotencyKeyReused)"
  using key_row_unique [OF assms(1-3)] assms(4) by (simp add: known_answer_def)

lemma known_answer_conflict:
  assumes "\<forall>t \<in> set (db_txs d). \<not> has_key (rq_provider_id (pr_request i)) (pr_key i) t"
  shows "known_answer i h d = Inl (OpErr ExternalTransactionIDConflict)"
proof -
  have "List.find (has_key (rq_provider_id (pr_request i)) (pr_key i)) (db_txs d) = None"
    using assms by (simp add: find_None_iff)
  then show ?thesis by (simp add: known_answer_def)
qed

lemma known_answer_answers: "txs_ok d \<Longrightarrow> answers_known i h d (known_answer i h d)"
  unfolding answers_known_def using known_answer_conflict known_answer_reused known_answer_replays by (auto simp del: not_None_eq)

section \<open>The evaluated run\<close>

text \<open>The state after the bet of the sample run, with no fault ahead.\<close>

definition sample_again :: world where
  "sample_again = sample_processed\<lparr>st_ticks := []\<rparr>"

lemma sample_again_reachable: "reachable sample_again"
  by (rule reachable_step [OF sample_processed_reachable service_step.environment]) (simp_all add: sample_again_def)

lemma sample_attempt_recorded:
  "(case process_with_retry new_use_case (sample_prepared_with (c # cs)) (sample_ready [sample_time, sample_time]) of
     (r, s) \<Rightarrow> (map (\<lambda>t. (tr_id t, tr_hash t, tr_currency t, tr_balance t)) (db_txs (st_db s)),
       map (\<lambda>w. (wr_id w, map_sum id (\<lambda>w. (w_player_id w, w_currency w)) (decode_wallet w))) (db_wallets (st_db s)))) =
   ([(''t'', None, BRL, Some 100), (''t1'', Some (c # cs), BRL, Some 70)], [(sample_uuid, Inr (sample_uuid, BRL))])"
  by code_simp

lemma sample_recorded:
  obtains h where "prepare sample_input = Inr (sample_prepared_with h)"
    "map (\<lambda>t. (tr_id t, tr_hash t, tr_currency t, tr_balance t)) (db_txs (st_db sample_processed)) =
       [(''t'', None, BRL, Some 100), (''t1'', Some h, BRL, Some 70)]"
    "map (\<lambda>w. (wr_id w, map_sum id (\<lambda>w. (w_player_id w, w_currency w)) (decode_wallet w))) (db_wallets (st_db sample_processed)) =
       [(sample_uuid, Inr (sample_uuid, BRL))]"
proof -
  obtain c cs where p: "prepare sample_input = Inr (sample_prepared_with (c # cs))" using sample_prepares by blast
  have n: "get_now (sample_ready [sample_time, sample_time, sample_time]) =
      (Inr sample_time :: app_error + gotime, sample_ready [sample_time, sample_time])"
    by (simp add: get_now_def sample_ready_def)
  obtain r s2 where r: "process_with_retry new_use_case (sample_prepared_with (c # cs)) (sample_ready [sample_time, sample_time]) = (r, s2)"
    by fastforce
  have "st_db sample_processed = st_db s2"
    unfolding sample_processed_def by (rule process_run [OF n p r])
  with sample_attempt_recorded [of c cs] r p show thesis by (intro that) simp_all
qed

lemma sample_wallet_matches: "wallet_matches (st_db sample_again) req"
  if "rq_wallet_id req = sample_uuid" "rq_player_id req = sample_uuid"
    "money_currency (rq_money req) = Inr BRL" for req
proof -
  obtain h where w: "map (\<lambda>w. (wr_id w, map_sum id (\<lambda>w. (w_player_id w, w_currency w)) (decode_wallet w))) (db_wallets (st_db sample_processed)) =
       [(sample_uuid, Inr (sample_uuid, BRL))]" by (rule sample_recorded)
  then obtain row where row: "db_wallets (st_db sample_processed) = [row]" "wr_id row = sample_uuid"
      "map_sum id (\<lambda>w. (w_player_id w, w_currency w)) (decode_wallet row) = Inr (sample_uuid, BRL)" by auto
  then obtain w where "decode_wallet row = Inr w" "w_player_id w = sample_uuid" "w_currency w = BRL"
    by (cases "decode_wallet row") auto
  then show ?thesis using row that by (auto simp: wallet_matches_def sample_again_def)
qed

text \<open>The same bet under another key.\<close>

definition sample_other_key :: process_input where
  "sample_other_key = sample_input\<lparr>pr_key := ''k2''\<rparr>"

lemma sample_other_prepared: "\<exists>p. prepare sample_other_key = Inr p"
proof -
  obtain p where "prepare sample_input = Inr p" using sample_prepared by blast
  then have "prepare sample_other_key = Inr (p\<lparr>po_input := sample_other_key\<rparr>)"
    unfolding prepare_ok by (simp add: sample_other_key_def is_valid_idempotency_key_def byte_of_def)
  then show ?thesis by blast
qed

lemma sample_known:
  "\<exists>t \<in> set (db_txs (st_db sample_again)). has_key ''pr'' ''k1'' t \<and> has_external ''pr'' ''x1'' t \<and> tr_id t = ''t1'' \<and>
     is_supported (tr_currency t) \<and> tr_currency t = BRL \<and> tr_balance t = Some 70 \<and>
     (\<exists>p. prepare sample_input = Inr p \<and> tr_hash t = Some (po_hash p))"
  "\<forall>t \<in> set (db_txs (st_db sample_again)). \<not> has_key ''pr'' ''k2'' t"
proof -
  obtain h where h: "prepare sample_input = Inr (sample_prepared_with h)"
    "map (\<lambda>t. (tr_id t, tr_hash t, tr_currency t, tr_balance t)) (db_txs (st_db sample_processed)) =
       [(''t'', None, BRL, Some 100), (''t1'', Some h, BRL, Some 70)]" by (rule sample_recorded)
  obtain a b where rows: "db_txs (st_db sample_processed) = [a, b]" using h(2) by auto
  show "\<exists>t \<in> set (db_txs (st_db sample_again)). has_key ''pr'' ''k1'' t \<and> has_external ''pr'' ''x1'' t \<and> tr_id t = ''t1'' \<and>
     is_supported (tr_currency t) \<and> tr_currency t = BRL \<and> tr_balance t = Some 70 \<and>
     (\<exists>p. prepare sample_input = Inr p \<and> tr_hash t = Some (po_hash p))"
    using h sample_processed_rows(1) rows
    by (intro bexI [of _ b]) (auto simp: sample_again_def has_key_def has_external_def is_supported_def sample_prepared_with_def)
  show "\<forall>t \<in> set (db_txs (st_db sample_again)). \<not> has_key ''pr'' ''k2'' t"
    using sample_processed_rows(1) rows by (auto simp: sample_again_def has_key_def)
qed
end
