(* ===== verification/Spec2Isabelle.thy ===== *)
theory Spec2Isabelle
  imports Startup ConsumerRuns Pollers Replays
begin

text \<open>
  A model of the wallet service of this repository (Go, under \<open>src/internal\<close>) and what makes it correct.

  \<^bold>\<open>The program.\<close> Providers send wagering operations (bets, wins, losses, refunds, rollbacks) over HTTP or a queue.
  Each moves money between a player's wallet and the house at most once, is recorded with its outcome and
  announced through a transactional outbox; an operation whose reference has not arrived waits and is resumed by
  a worker. Administrators open wallets and read wallets, ledgers and their reconciliation.

  \<^bold>\<open>The theories, from the bottom.\<close> \<open>Prelude\<close> (Go's \<open>int64\<close> as 64-bit words, results, pointers, time), \<open>Decimal\<close> and
  \<open>Base64\<close> hold what Go's library gives; \<open>Json\<close> writes JSON and \<open>JsonDecode\<close> reads it as \<open>encoding/json\<close> does. The
  domain: \<open>Money\<close> (\<open>domain/money\<close>), \<open>Wallet\<close>, \<open>WagerTransaction\<close> and \<open>Events\<close> (\<open>domain/wallet\<close>), \<open>Operation\<close> and
  \<open>PayloadHash\<close> (\<open>domain/operation\<close>, SHA-256 included), \<open>Backoff\<close>. \<open>Database\<close> is the schema of \<open>migrations\<close> as lists of
  rows with their constraints, the statements run on it, and the unit of work of \<open>pg/querier.go\<close>; \<open>Repositories\<close> is
  \<open>walletpg\<close>. The use cases of \<open>walletapp\<close> are \<open>ProcessOperation\<close> and \<open>WalletUseCases\<close>. \<open>ReferenceWorker\<close>,
  \<open>OutboxPublisher\<close> and \<open>Consumer\<close> are the background components with their stores and queue clients. \<open>Auth\<close> is
  \<open>auth\<close>; \<open>HttpReply\<close> and \<open>HttpApi\<close> are \<open>httpapi\<close>; \<open>Config\<close> is \<open>config\<close>, \<open>envfile\<close> and the password of \<open>pg/dsn.go\<close>.
  \<open>ConsumerLoop\<close> has the goroutines of the consumer, \<open>Pollers\<close> those of the publisher and the worker, and \<open>Startup\<close> the
  commands of \<open>cmd/wallet-service\<close>, \<open>migrate\<close>, the queues of \<open>queue/queue.go\<close> and the discovery of \<open>auth/verifier.go\<close>.
  Definitions keep the names of the Go functions, in small letters with underscores.

  \<^bold>\<open>State.\<close> A \<open>world\<close> holds the database, what was sent to the queues, the counters, and the inputs of a run: the ids
  and times still to be handed out and the ticks, one per call to the database or a queue, that say whether it
  goes through, fails with no effect, or takes effect and loses its answer. A handler is a function from a world to
  an error or a value and a world (\<open>tx\<close>); \<open>within_tx\<close> restores the database when its body or the commit fails.

  \<^bold>\<open>What is shown.\<close> \<open>Ledger\<close> states what a committed unit of work may do, as the step relation \<open>db_step\<close>, and the invariants
  of the rows (\<open>db_ok\<close>) that every such step keeps. \<open>ProcessSteps\<close>, \<open>PendingSteps\<close>, \<open>WalletSteps\<close>, \<open>WorkerSteps\<close>,
  \<open>PublisherSteps\<close> and \<open>ConsumerSteps\<close> show that each component refines it: whatever fails, a call takes one step or none,
  and its answer is the one on record. \<open>Contracts\<close> has the interfaces of the unit of work and of the movements as
  locales, interpreted on the model; \<open>Frame\<close> has what operations leave alone. \<open>Service\<close> puts the components
  together: \<open>reachable\<close> states are those of any interleaving of requests, worker passes and received batches from
  an empty database. \<open>HttpSteps\<close> shows that serving a request is such a run, and \<open>HttpRuns\<close> who may change the
  database and what a reply tells. \<open>ConsumerRuns\<close> follows the consumer through every interleaving of its receive loop, its
  workers, a stop and the rest of the service: what becomes of each message, what a stop still dispatches and hands back,
  and that it ends; \<open>Pollers\<close> does so for the two polling loops, through the locale \<open>poller\<close>. \<open>LedgerPages\<close> is about reading the ledger in pages,
  \<open>Replays\<close> about the answer to a request already known when nothing fails. \<open>SampleRun\<close> and \<open>HttpRuns\<close>
  hold evaluated runs at which the properties are shown not to be empty. This theory has the properties that span
  components.

  \<^bold>\<open>Bounds.\<close> The JSON reader takes twice the length of the text plus two as fuel, which is enough
  (\<open>parse_json_fuel\<close>), and the nesting limit of \<open>encoding/json\<close>. \<open>Process\<close> and the consumer make two attempts, as the code
  does. A lifecycle of a transaction is followed for any number of transitions. The doubles behind the fractions of a
  duration have at most 256 bits before rounding.

  \<^bold>\<open>Parameters.\<close> Third-party code is an argument: the check of a token by \<open>go-oidc\<close>, \<open>uuid.Parse\<close> of \<open>google/uuid\<close>, the page
  of \<open>promhttp\<close>, what Postgres makes of a UUID's spelling and of a time, the random source of the jitter, the offset of a
  location from UTC, and the checks readiness calls. Nothing is assumed of them but what a theorem names.

  \<^bold>\<open>Not modelled.\<close> Time in the goroutines: a tick, an answer or a deadline may come at any moment, which is more than the
  program can do. The handling of one message, one request or one pass is one step there; two of them may
  interleave between the steps only, which row locks and unique indexes make enough for the rows they touch. That SQS
  gives every receive a new receipt is a named hypothesis. The dependency injection, building the pool and the clients,
  logs, the registration of collectors and fault injection only call libraries. The connection string \<open>AppDSN\<close> builds with
  \<open>net/url\<close> is left out.
\<close>

section \<open>Properties of every run\<close>

text \<open>
  C3: in every reachable state each wallet's stored balance is the sum of its ledger entries, is not
  negative, and is where the chain of its entries, each starting at the balance the one before left, ends.
\<close>
theorem balances_are_audited:
  assumes "reachable s" "w \<in> set (db_wallets (st_db s))"
  shows "sint (wr_balance w) = (\<Sum>e\<leftarrow>wallet_rows (st_db s) (wr_id w). row_effect e) \<and> 0 \<le> sint (wr_balance w) \<and>
     audited 0 (wallet_rows (st_db s) (wr_id w)) (sint (wr_balance w))"
proof -
  have ok: "db_ok (st_db s)" by (rule reachable_db [OF assms(1)])
  then have "audited 0 (wallet_rows (st_db s) (wr_id w)) (sint (wr_balance w))"
    using assms(2) by (simp add: db_ok_def books_ok_def)
  then show ?thesis using balance_is_sum [OF ok assms(2)] by simp
qed

theorem balances_are_audited_witness:
  "(\<Sum>e\<leftarrow>wallet_rows (st_db sample_opened) sample_uuid. row_effect e) = 100"
proof -
  obtain w where w: "w \<in> set (db_wallets (st_db sample_opened))" "wr_id w = sample_uuid" "wr_balance w = 100"
    using sample_opened_rows(1) by auto
  from balances_are_audited [OF sample_opened_reachable w(1)] w(2,3) show ?thesis by simp
qed

text \<open>
  C6: along every run the ledger only grows at its end, every operation keeps its request, one that
  reached a terminal status keeps its whole row, and every event of the outbox keeps its content.
\<close>
theorem history_is_kept:
  assumes "reachable s" "service_step\<^sup>*\<^sup>* s s'"
  shows "(\<exists>es. db_ledger (st_db s') = db_ledger (st_db s) @ es) \<and>
     (\<forall>t \<in> set (db_txs (st_db s)). \<exists>t' \<in> set (db_txs (st_db s')). same_tx t t' \<and> (is_terminal (tr_status t) \<longrightarrow> t' = t)) \<and>
     (\<forall>o' \<in> set (db_outbox (st_db s)). \<exists>q \<in> set (db_outbox (st_db s')). same_event o' q) \<and>
     (\<exists>qs. st_queue s' = st_queue s @ qs)"
  using service_steps_preserved [OF assms(2) reachable_ok [OF assms(1)]] by (simp add: preserved_def)

theorem history_is_kept_witness:
  "\<exists>t \<in> set (db_txs (st_db (snd (publish_batch sample_publisher sample_opened)))). tr_id t = ''t'' \<and> tr_status t = Processed"
proof -
  obtain t where t: "t \<in> set (db_txs (st_db sample_opened))" "tr_id t = ''t''" "tr_status t = Processed"
    using sample_opened_rows(2) by auto
  have "service_step sample_opened (snd (publish_batch sample_publisher sample_opened))"
    by (rule service_step.publishes [OF prod.collapse [symmetric]])
  from history_is_kept [OF sample_opened_reachable r_into_rtranclp, OF this]
  have "\<exists>t' \<in> set (db_txs (st_db (snd (publish_batch sample_publisher sample_opened)))). same_tx t t' \<and>
      (is_terminal (tr_status t) \<longrightarrow> t' = t)" using t(1) by blast
  then show ?thesis using t(2,3) by (auto simp: is_terminal_def)
qed

text \<open>
  C4: an operation that processed a movement has exactly one ledger entry of its wallet and amount, any
  other operation has none, and every entry belongs to an operation.
\<close>
theorem entries_match_operations:
  assumes "reachable s"
  shows "(\<forall>t \<in> set (db_txs (st_db s)). moves_money t \<longleftrightarrow> (\<exists>!e. e \<in> set (db_ledger (st_db s)) \<and> entry_of t e)) \<and>
     (\<forall>e \<in> set (db_ledger (st_db s)). \<exists>t \<in> set (db_txs (st_db s)). entry_of t e)"
proof -
  have ok: "links_ok (st_db s)" "keys_ok (st_db s)" "txs_ok (st_db s)" using reachable_db [OF assms] by (simp_all add: db_ok_def)
  have "moves_money t" if t: "t \<in> set (db_txs (st_db s))" and e: "e \<in> set (db_ledger (st_db s))" "entry_of t e" for t e
  proof -
    obtain t' where "t' \<in> set (db_txs (st_db s))" "entry_of t' e" "moves_money t'"
      using ok(1) e(1) by (auto simp: links_ok_def)
    moreover from this have "t' = t" using same_id_same_row [OF ok(3)] t e(2) by (simp add: entry_of_def)
    ultimately show ?thesis by simp
  qed
  then show ?thesis using ok(1) entry_unique [OF ok(2)] unfolding links_ok_def by metis
qed

theorem entries_match_operations_witness:
  "\<exists>t \<in> set (db_txs (st_db sample_opened)). \<exists>e \<in> set (db_ledger (st_db sample_opened)). entry_of t e"
proof -
  obtain t where t: "t \<in> set (db_txs (st_db sample_opened))" "moves_money t"
    using sample_opened_rows(2) by (auto simp: moves_money_def)
  then show ?thesis using entries_match_operations [OF sample_opened_reachable] by blast
qed

text \<open>
  C7: every operation of a reachable state, unless it failed, is announced by an event of the outbox in
  its current status, and every event marked as published was sent to the queue with the payload of its
  row, under its own id, in its wallet's group.
\<close>
theorem events_reach_the_queue:
  assumes "reachable s"
  shows "(\<forall>t \<in> set (db_txs (st_db s)). tr_status t = Failed \<or> (\<exists>o' \<in> set (db_outbox (st_db s)). announces t o')) \<and>
     (\<forall>o' \<in> set (db_outbox (st_db s)). or_published o' \<noteq> None \<longrightarrow> sent s (or_payload o') (or_event_id o'))"
  using reachable_ok [OF assms] by (simp add: service_ok_def db_ok_def events_ok_def announced_def sent_ok_def)

theorem events_reach_the_queue_witness:
  "\<exists>t \<in> set (db_txs (st_db sample_opened)). \<exists>o' \<in> set (db_outbox (st_db sample_opened)). announces t o'"
proof -
  obtain t where t: "t \<in> set (db_txs (st_db sample_opened))" "tr_status t = Processed"
    using sample_opened_rows(2) by auto
  have "tr_status t = Failed \<or> (\<exists>o' \<in> set (db_outbox (st_db sample_opened)). announces t o')"
    using events_reach_the_queue [OF sample_opened_reachable, THEN conjunct1] t(1) by (rule bspec)
  then show ?thesis using t by auto
qed

text \<open>
  C5: two rows of a reachable state that share a provider's idempotency key, a provider's external id, or
  as processed refunds or rollbacks their reference, are one row: no request takes effect twice, and no
  bet is given back twice.
\<close>
theorem requests_are_unique:
  assumes "reachable s" "t \<in> set (db_txs (st_db s))" "u \<in> set (db_txs (st_db s))"
    and "(has_key p k t \<and> has_key p k u) \<or> (has_external p x t \<and> has_external p x u) \<or>
      (is_reversal_row t \<and> is_reversal_row u \<and> tr_ref_id t = Some f \<and> tr_ref_id u = Some f)"
  shows "t = u"
  using reachable_db [OF assms(1)] assms(2-)
  by (auto simp: db_ok_def tx_conflict_def has_key_def has_external_def same_key_def intro: tx_rows_unique)

theorem requests_are_unique_witness:
  "\<exists>!t. t \<in> set (db_txs (st_db sample_processed)) \<and> has_key ''pr'' ''k1'' t"
  using sample_bet_row requests_are_unique [OF sample_processed_reachable] by blast

text \<open>
  C1: \<open>Process\<close> refines the ledger: it fails and leaves the database as it was, or replays the recorded
  answer of the same key and payload and leaves it too, or commits exactly one step: a row that records
  the answer and, when that moved money, one entry in the direction decided. An answer lost after the
  commit is the only other way to fail.
\<close>
theorem process_refines_ledger:
  assumes "process uc i s = (r, s')"
  shows "(st_db s' = st_db s \<and> (\<exists>e. r = Inl e)) \<or>
     (\<exists>res hash. (r = Inr res \<or> r = Inl Infra) \<and> payload_hash (pr_request i) = Inr hash \<and>
       ((st_db s' = st_db s \<and> (\<exists>row \<in> set (db_txs (st_db s)). replays_row i hash res row)) \<or>
        (db_step (st_db s) (st_db s') \<and>
         (\<exists>p b dec. evaluate (pr_request i) p b = Inr dec \<and> takes_effect i hash (dc_direction dec) res (st_db s) (st_db s')))))"
  using process_db [OF assms] by (simp add: answered_def)

theorem process_refines_ledger_witness: "db_step (st_db (sample_ready [sample_time, sample_time, sample_time])) (st_db sample_processed)"
proof -
  have "map tr_id (db_txs (st_db (sample_ready [sample_time, sample_time, sample_time]))) = [''t'']"
    using sample_opened_rows(2) by (auto simp: sample_ready_def)
  moreover have "map tr_id (db_txs (st_db sample_processed)) = [''t'', ''t1'']"
    using sample_processed_rows(1) by auto
  ultimately have "st_db sample_processed \<noteq> st_db (sample_ready [sample_time, sample_time, sample_time])" by force
  then show ?thesis
    using process_refines_ledger [OF prod.collapse [symmetric], of new_use_case sample_input "sample_ready [sample_time, sample_time, sample_time]"]
    by (auto simp: sample_processed_def)
qed

text \<open>
  C2: once the database holds a row with the key or the external id of a request, processing that request
  again changes nothing, whatever fails, and an answer is what the row of the key records. When no fault
  is left, the request is valid and its wallet can be read and is the player's in the request's currency,
  it does answer: the row of its key with the same payload, in a supported currency, is replayed, the row of its key with another
  payload is answered with \<open>IDEMPOTENCY_KEY_REUSED\<close>, and an external id known under another key only with
  \<open>EXTERNAL_TRANSACTION_ID_CONFLICT\<close>.
\<close>
theorem process_is_idempotent:
  assumes "reachable s" "t \<in> set (db_txs (st_db s))"
    and "has_key (rq_provider_id (pr_request i)) (pr_key i) t \<or>
      has_external (rq_provider_id (pr_request i)) (rq_external_id (pr_request i)) t"
    and "process uc i s = (r, s')"
  shows "st_db s' = st_db s \<and> (\<forall>res. r = Inr res \<longrightarrow> (\<exists>hash. \<exists>row \<in> set (db_txs (st_db s)).
     payload_hash (pr_request i) = Inr hash \<and> replays_row i hash res row)) \<and>
     (\<forall>p. prepare i = Inr p \<and> st_ticks s = [] \<and> wallet_matches (st_db s) (pr_request i) \<longrightarrow>
       answers_known i (po_hash p) (st_db s) r)"
proof -
  have "db_ok (st_db s')" "db_ok (st_db s)"
    using reachable_db reachable_step [OF assms(1) service_step.processes [OF assms(4)]] assms(1) by auto
  then have "\<not> takes_effect i hash dir res (st_db s) (st_db s')" for hash dir res
    using no_second_effect [OF _ _ assms(2,3)] by (auto simp: db_ok_def)
  moreover have "answers_known i (po_hash p) (st_db s) r"
    if "prepare i = Inr p" "st_ticks s = []" "wallet_matches (st_db s) (pr_request i)" for p
    using process_known [OF \<open>db_ok (st_db s)\<close> that(2) assms(2,3) that(1,3) assms(4)]
      known_answer_answers \<open>db_ok (st_db s)\<close> by (simp add: db_ok_def)
  ultimately show ?thesis using process_db [OF assms(4)] unfolding answered_def by blast
qed

theorem process_is_idempotent_witness:
  "st_db (snd (process new_use_case sample_input sample_again)) = st_db sample_again \<and>
   (\<exists>res. fst (process new_use_case sample_input sample_again) = Inr res \<and> ps_replay res \<and>
      ps_transaction_id res = ''t1'' \<and> ps_balance res = \<lparr>minor_units = 70, currency_of = BRL\<rparr>) \<and>
   fst (process new_use_case sample_other_key sample_again) = Inl (OpErr ExternalTransactionIDConflict)"
proof -
  obtain t p where t: "t \<in> set (db_txs (st_db sample_again))" "has_key ''pr'' ''k1'' t" "has_external ''pr'' ''x1'' t"
      "tr_id t = ''t1''" "is_supported (tr_currency t)" "tr_currency t = BRL" "tr_balance t = Some 70"
      "prepare sample_input = Inr p" "tr_hash t = Some (po_hash p)" using sample_known(1) by blast
  obtain q where q: "prepare sample_other_key = Inr q" using sample_other_prepared by blast
  have k: "has_key (rq_provider_id (pr_request sample_input)) (pr_key sample_input) t \<or>
      has_external (rq_provider_id (pr_request sample_input)) (rq_external_id (pr_request sample_input)) t"
    "has_key (rq_provider_id (pr_request sample_other_key)) (pr_key sample_other_key) t \<or>
      has_external (rq_provider_id (pr_request sample_other_key)) (rq_external_id (pr_request sample_other_key)) t"
    using t(2,3) by (simp_all add: sample_other_key_def sample_input_def sample_request_def)
  have w: "wallet_matches (st_db sample_again) (pr_request sample_input)"
    "wallet_matches (st_db sample_again) (pr_request sample_other_key)"
    by (rule sample_wallet_matches; simp add: sample_other_key_def sample_input_def sample_request_def money_currency_def
        money_validate_def is_supported_def bindE_def)+
  have quiet: "st_ticks sample_again = []" by (simp add: sample_again_def)
  note again = process_is_idempotent [OF sample_again_reachable t(1) k(1) prod.collapse [symmetric], of new_use_case]
  note other = process_is_idempotent [OF sample_again_reachable t(1) k(2) prod.collapse [symmetric], of new_use_case]
  have "answers_known sample_input (po_hash p) (st_db sample_again) (fst (process new_use_case sample_input sample_again))"
    using again t(8) quiet w(1) by blast
  moreover have "has_key (rq_provider_id (pr_request sample_input)) (pr_key sample_input) t"
    using t(2) by (simp add: sample_input_def sample_request_def)
  ultimately obtain res where "fst (process new_use_case sample_input sample_again) = Inr res"
      "replays_row sample_input (po_hash p) res t"
    using t(1,5,9) unfolding answers_known_def by fastforce
  moreover from this(2) have "ps_replay res" "ps_transaction_id res = ''t1''" "ps_balance res = \<lparr>minor_units = 70, currency_of = BRL\<rparr>"
    using t(4,6,7) by (simp_all add: replays_row_def money_new_def is_supported_def min_int64_def split: if_splits)
  moreover have "fst (process new_use_case sample_other_key sample_again) = Inl (OpErr ExternalTransactionIDConflict)"
    using other q quiet w(2) sample_known(2) unfolding answers_known_def
    by (simp add: sample_other_key_def sample_input_def sample_request_def)
  ultimately show ?thesis using again by blast
qed

text \<open>
  C17: opening a wallet fails and changes nothing, or commits one step: a wallet at version one with the
  requested balance and, exactly when that is not zero, a processed opening operation with its credit
  entry from zero to that balance.
\<close>
theorem opening_refines_ledger:
  assumes "open_use_case i s = (r, s')"
  shows "(st_db s' = st_db s \<and> (\<exists>e. r = Inl e)) \<or>
     (\<exists>w. (r = Inr w \<or> r = Inl Infra) \<and> db_step (st_db s) (st_db s') \<and> opened i w (st_db s) (st_db s'))"
  using open_use_case_db [OF assms] by (simp add: open_outcome_def)

theorem opening_refines_ledger_witness: "db_step (st_db sample_start) (st_db sample_opened)"
proof -
  have "st_db sample_opened \<noteq> st_db sample_start"
    using sample_opened_rows(2) by (auto simp: sample_start_def sample_world_def empty_db_def)
  then show ?thesis
    using opening_refines_ledger [OF prod.collapse [symmetric], of sample_opening sample_start] by (auto simp: sample_opened_def)
qed

text \<open>
  C15: resuming a pending operation leaves the database as it was, or settles that operation's row, in one
  step, as processed, rejected or still pending; and it is put off again only while its attempts are below
  the limit.
\<close>
theorem resuming_settles_within_limit:
  assumes "reachable s" "t \<in> set (db_txs (st_db s))" "tr_id t = i"
    and "resume_pending i (tr_wallet t) settings s = (r, s')"
  shows "(st_db s' = st_db s \<or> (\<exists>st \<in> {Processed, Rejected, PendingReference}. settles i st (st_db s) (st_db s'))) \<and>
     (r = Inr PendingRescheduled \<longrightarrow> \<not> (0 < rs_max_attempts settings \<and> rs_max_attempts settings \<le> tr_attempts t))"
proof -
  have ok: "txs_ok (st_db s)" using reachable_db [OF assms(1)] by (simp add: db_ok_def)
  have "claims (st_db s) i (tr_wallet t)"
    using same_id_same_row [OF ok _ assms(2)] assms(3) by (auto simp: claims_def)
  from resume_pending_db [OF assms(4) ok this] resume_rescheduled [of i "tr_wallet t" settings s s' t] assms ok
  show ?thesis by (auto simp: resumed_def)
qed

definition sample_settings :: resume_settings where
  "sample_settings = \<lparr>rs_max_attempts = 3, rs_retry_delay = 1000000000\<rparr>"

theorem resuming_settles_within_limit_witness:
  "\<exists>t \<in> set (db_txs (st_db sample_opened)). tr_id t = ''t'' \<and>
     (let s' = snd (resume_pending ''t'' (tr_wallet t) sample_settings sample_opened) in
      st_db s' = st_db sample_opened \<or>
      (\<exists>st \<in> {Processed, Rejected, PendingReference}. settles ''t'' st (st_db sample_opened) (st_db s')))"
proof -
  obtain t where t: "t \<in> set (db_txs (st_db sample_opened))" "tr_id t = ''t''" using sample_opened_rows(2) by auto
  from resuming_settles_within_limit [OF sample_opened_reachable t prod.collapse [symmetric], of sample_settings] t
  show ?thesis unfolding Let_def by blast
qed


definition sample_worker :: worker where
  "sample_worker = \<lparr>wk_batch = 10, wk_lease = 30000000000, wk_retry_base = 1000000000, wk_retry_max = 60000000000,
     wk_max_attempts = 3, wk_random = (\<lambda>_ _. 0)\<rparr>"


text \<open>
  C21: on a reachable database the audit of a wallet never reports a difference: the balance calculated from
  its entries is the stored one. When nothing fails, the audit does answer.
\<close>
theorem reconciliation_agrees:
  assumes "reachable s" "w \<in> set (db_wallets (st_db s))"
  shows "(\<forall>rec s'. audit_reconcile (wr_id w) s = (Inr rec, s') \<longrightarrow>
       balanced w (wallet_rows (st_db s) (wr_id w)) rec) \<and>
     (is_supported (wr_currency w) \<and> st_ticks s = [] \<longrightarrow> (\<exists>rec s'. audit_reconcile (wr_id w) s = (Inr rec, s')))"
  using reconcile_balanced [OF reachable_db [OF assms(1)] assms(2)] reconcile_quiet [OF reachable_db [OF assms(1)] assms(2)]
  by blast

lemma sample_opened_quiet: "st_ticks sample_opened = []" "map wr_currency (db_wallets (st_db sample_opened)) = [BRL]"
  by code_simp+

theorem reconciliation_agrees_witness:
  "\<exists>w rec s'. audit_reconcile sample_uuid sample_opened = (Inr rec, s') \<and>
     balanced w (wallet_rows (st_db sample_opened) sample_uuid) rec"
proof -
  obtain w where w: "w \<in> set (db_wallets (st_db sample_opened))" "wr_id w = sample_uuid" "wr_currency w = BRL"
    using sample_opened_rows(1) sample_opened_quiet(2) by auto
  from reconciliation_agrees [OF sample_opened_reachable w(1)] sample_opened_quiet(1) w(2,3)
  show ?thesis by (simp add: is_supported_def) blast
qed

text \<open>
  C25: a caller that is not an administrator never reads an operation of another provider, nor an opening
  one: either lookup answers with one of the caller's own external operations or fails.
\<close>
theorem callers_read_their_own:
  assumes "\<not> ca_is_admin c"
  shows "(get_by_id i c s = (Inr d, s') \<longrightarrow> td_origin d = External \<and> td_provider_id d = ca_provider_id c) \<and>
     (get_by_provider_external_id p x c s = (Inr d, s') \<longrightarrow> p = ca_provider_id c \<and>
       (\<exists>row \<in> set (db_txs (st_db s)). has_external (ca_provider_id c) x row \<and> decode_detail row = Inr d))"
  using assms detail_by_external [of p x s d s']
  by (auto simp: get_by_id_def get_by_provider_external_id_def bindT_ok failT_ok returnT_ok not_found_as_def map_errT_ok
      split: if_splits)

theorem callers_read_their_own_witness:
  "\<forall>d s'. get_by_provider_external_id ''other'' ''x1'' \<lparr>ca_provider_id = ''pr'', ca_is_admin = False\<rparr> sample_processed \<noteq> (Inr d, s')"
proof (intro allI)
  show "get_by_provider_external_id ''other'' ''x1'' \<lparr>ca_provider_id = ''pr'', ca_is_admin = False\<rparr> sample_processed \<noteq> (Inr d, s')" for d s'
    using callers_read_their_own [of "\<lparr>ca_provider_id = ''pr'', ca_is_admin = False\<rparr>" "''t1''" sample_processed d s' "''other''" "''x1''"]
    by auto
qed

text \<open>
  C22: on a reachable database a page of a wallet's ledger and the entries beyond its cursor are together
  exactly the entries beyond the cursor the page was read from, in order and none twice; only a full page
  has a cursor.
\<close>
theorem ledger_pages_cover:
  assumes "reachable s" "0 < limit" "audit_list w after limit s = (Inr page, s')"
  shows "sequence_after (st_db s) w after = map ae_sequence (lp_entries page) @
     (case lp_next page of None \<Rightarrow> [] | Some n \<Rightarrow> sequence_after (st_db s) w n) \<and>
     length (lp_entries page) \<le> limit \<and> (lp_next page \<noteq> None \<longrightarrow> length (lp_entries page) = limit)"
proof -
  obtain wl s1 where a: "wallets_find_by_id w s = (Inr wl, s1)" "ledger_list w after limit s1 = (Inr page, s')"
    using assms(3) by (auto simp: audit_list_def bindT_ok not_found_as_def map_errT_ok)
  have same: "st_db s1 = st_db s" by (rule db_sameD [OF read_aliases_db_same(1) a(1)])
  have "keys_ok (st_db s)" using reachable_db [OF assms(1)] by (simp add: db_ok_def)
  then show ?thesis by (rule ledger_list_page [OF _ assms(2) a(2), unfolded same])
qed

lemma sample_page:
  "map_sum id (\<lambda>p. (map ae_sequence (lp_entries p), lp_next p)) (fst (audit_list sample_uuid 0 1 sample_opened)) =
     Inr ([1], None)"
  by code_simp

theorem ledger_pages_cover_witness: "sequence_after (st_db sample_opened) sample_uuid 0 = [1]"
proof -
  obtain page s' where p: "audit_list sample_uuid 0 1 sample_opened = (Inr page, s')" "map ae_sequence (lp_entries page) = [1]"
      "lp_next page = None"
    using sample_page by (cases "audit_list sample_uuid 0 1 sample_opened"; cases "fst (audit_list sample_uuid 0 1 sample_opened)") auto
  from ledger_pages_cover [OF sample_opened_reachable _ p(1)] p(2,3) show ?thesis by simp
qed
end
